theory Spec2Isabelle
  imports Main "HOL-Library.Signed_Division"
begin

section \<open>Objects, pointers and the heap\<close>

text \<open>
  The pools of \<^verbatim>\<open>golang_primitives/helpers.go\<close> hand out values of type
  \<^verbatim>\<open>*testObject\<close>. A pointer is either \<^verbatim>\<open>nil\<close> or the address of an
  object; the heap is the list of all objects allocated so far, and the address of an
  object is its position in that list. Allocation appends to the heap, so the number
  of allocations made by a piece of code is the growth of the heap.

  Go's \<^verbatim>\<open>int\<close> fields are modelled as unbounded integers: every increment in the
  code is guarded by a comparison with a larger \<^verbatim>\<open>int\<close> (\<^verbatim>\<open>size < capacity\<close>,
  an index below a slice length), so none of them can overflow.
\<close>

record testObject =
  ID :: int
  Data :: string
  shardIndex :: int

datatype ptr = NilPtr | Ptr nat

type_synonym heap = "testObject list"

text \<open>
  What a call can do other than return: the run-time panics of the operations used by
  the code, and \<open>Blocked\<close> for a call that waits (on a full channel or on a
  condition variable) with no other goroutine to wake it.
\<close>

datatype fault =
  IndexOutOfRange | NilDereference | DivideByZero | MakeSliceLenOutOfRange |
  MakeChanSizeOutOfRange | Blocked

text \<open>Slice indexing \<^verbatim>\<open>xs[i]\<close> and \<^verbatim>\<open>xs[i] = v\<close>: out of range panics.\<close>

definition at_index :: "'a list \<Rightarrow> int \<Rightarrow> fault + 'a" where
  "at_index xs i =
     (if 0 \<le> i \<and> i < int (length xs) then Inr (xs ! nat i) else Inl IndexOutOfRange)"

definition set_index :: "'a list \<Rightarrow> int \<Rightarrow> 'a \<Rightarrow> fault + 'a list" where
  "set_index xs i v =
     (if 0 \<le> i \<and> i < int (length xs) then Inr (xs[nat i := v]) else Inl IndexOutOfRange)"

text \<open>Go's \<^verbatim>\<open>%\<close> and \<^verbatim>\<open>/\<close> on \<^verbatim>\<open>int\<close> truncate towards zero and panic on a zero divisor.\<close>

definition go_rem :: "int \<Rightarrow> int \<Rightarrow> fault + int" where
  "go_rem a b = (if b = 0 then Inl DivideByZero else Inr (a smod b))"

definition go_quot :: "int \<Rightarrow> int \<Rightarrow> fault + int" where
  "go_quot a b = (if b = 0 then Inl DivideByZero else Inr (a sdiv b))"

text \<open>\<^verbatim>\<open>make([]T, n)\<close>: a slice of \<open>n\<close> zero values; a negative length panics.\<close>

definition make_slice :: "'a \<Rightarrow> int \<Rightarrow> fault + 'a list" where
  "make_slice zero n =
     (if n < 0 then Inl MakeSliceLenOutOfRange else Inr (replicate (nat n) zero))"

section \<open>The ring buffer\<close>

text \<open>
  \<^verbatim>\<open>RingBuffer[T]\<close>, with the zero value of \<open>T\<close> passed where the code writes
  \<^verbatim>\<open>var zero T\<close>. The field \<^verbatim>\<open>size\<close> is named \<open>size_rb\<close>.
\<close>

record 'a RingBuffer =
  buffer :: "'a list"
  head :: int
  tail :: int
  size_rb :: int
  capacity :: int

definition NewRingBuffer :: "'a \<Rightarrow> int \<Rightarrow> fault + 'a RingBuffer" where
  "NewRingBuffer zero cap =
     (case make_slice zero cap of
        Inl e \<Rightarrow> Inl e
      | Inr buf \<Rightarrow> Inr \<lparr>buffer = buf, head = 0, tail = 0, size_rb = 0, capacity = cap\<rparr>)"

definition Push :: "'a RingBuffer \<Rightarrow> 'a \<Rightarrow> fault + (bool \<times> 'a RingBuffer)" where
  "Push rb item =
     (if size_rb rb \<ge> capacity rb then Inr (False, rb)
      else case set_index (buffer rb) (tail rb) item of
        Inl e \<Rightarrow> Inl e
      | Inr buf \<Rightarrow>
          (case go_rem (tail rb + 1) (capacity rb) of
             Inl e \<Rightarrow> Inl e
           | Inr t \<Rightarrow> Inr (True, rb\<lparr>buffer := buf, tail := t, size_rb := size_rb rb + 1\<rparr>)))"

definition Pop :: "'a \<Rightarrow> 'a RingBuffer \<Rightarrow> fault + ('a \<times> bool \<times> 'a RingBuffer)" where
  "Pop zero rb =
     (if size_rb rb \<le> 0 then Inr (zero, False, rb)
      else case at_index (buffer rb) (head rb) of
        Inl e \<Rightarrow> Inl e
      | Inr item \<Rightarrow>
          (case go_rem (head rb + 1) (capacity rb) of
             Inl e \<Rightarrow> Inl e
           | Inr h \<Rightarrow> Inr (item, True, rb\<lparr>head := h, size_rb := size_rb rb - 1\<rparr>)))"

definition IsEmpty :: "'a RingBuffer \<Rightarrow> bool" where
  "IsEmpty rb \<longleftrightarrow> size_rb rb = 0"

definition IsFull :: "'a RingBuffer \<Rightarrow> bool" where
  "IsFull rb \<longleftrightarrow> size_rb rb = capacity rb"

definition Size :: "'a RingBuffer \<Rightarrow> int" where
  "Size rb = size_rb rb"

text \<open>A sequence of \<^verbatim>\<open>Push\<close> and \<^verbatim>\<open>Pop\<close> calls on one buffer, results dropped.\<close>

datatype 'a rb_op = DoPush 'a | DoPop

fun rb_run :: "'a \<Rightarrow> 'a rb_op list \<Rightarrow> 'a RingBuffer \<Rightarrow> fault + 'a RingBuffer" where
  "rb_run zero [] rb = Inr rb"
| "rb_run zero (DoPush x # ops) rb =
     (case Push rb x of Inl e \<Rightarrow> Inl e | Inr (ok, rb') \<Rightarrow> rb_run zero ops rb')"
| "rb_run zero (DoPop # ops) rb =
     (case Pop zero rb of Inl e \<Rightarrow> Inl e | Inr (item, ok, rb') \<Rightarrow> rb_run zero ops rb')"

text \<open>
  The invariant of a ring buffer: the backing slice has \<open>capacity\<close> elements, the
  count is between 0 and the capacity, \<open>head\<close> is an index of the slice, and \<open>tail\<close>
  is \<open>size_rb\<close> places after \<open>head\<close>, modulo the capacity. A buffer of capacity 0
  has an empty slice and \<open>head = tail = 0\<close>.
\<close>

definition rb_inv :: "'a RingBuffer \<Rightarrow> bool" where
  "rb_inv rb \<longleftrightarrow>
     capacity rb = int (length (buffer rb)) \<and>
     0 \<le> size_rb rb \<and> size_rb rb \<le> capacity rb \<and>
     0 \<le> head rb \<and> head rb < max 1 (capacity rb) \<and>
     tail rb = (head rb + size_rb rb) mod max 1 (capacity rb)"

text \<open>The elements held by the buffer, oldest first.\<close>

definition rb_contents :: "'a RingBuffer \<Rightarrow> 'a list" where
  "rb_contents rb =
     map (\<lambda>i. buffer rb ! nat ((head rb + int i) mod capacity rb)) [0..<nat (size_rb rb)]"

section \<open>Allocator and cleaner\<close>

text \<open>
  The injected collaborators: \<^verbatim>\<open>allocator func() *testObject\<close> may extend the heap
  and returns a pointer; \<^verbatim>\<open>cleaner func(*testObject)\<close> may change the heap, and
  panics when it writes through \<^verbatim>\<open>nil\<close>.
\<close>

type_synonym allocator = "heap \<Rightarrow> ptr \<times> heap"
type_synonym cleaner = "ptr \<Rightarrow> heap \<Rightarrow> fault + heap"

text \<open>
  Reading a field through a pointer and assigning to the fields of the object it
  points to. Go has no dangling pointers; an address outside the heap is treated
  like \<^verbatim>\<open>nil\<close>.
\<close>

definition deref :: "heap \<Rightarrow> ptr \<Rightarrow> fault + testObject" where
  "deref w obj =
     (case obj of
        NilPtr \<Rightarrow> Inl NilDereference
      | Ptr a \<Rightarrow> if a < length w then Inr (w ! a) else Inl NilDereference)"

definition assign :: "heap \<Rightarrow> ptr \<Rightarrow> (testObject \<Rightarrow> testObject) \<Rightarrow> fault + heap" where
  "assign w obj f =
     (case obj of
        NilPtr \<Rightarrow> Inl NilDereference
      | Ptr a \<Rightarrow> if a < length w then Inr (w[a := f (w ! a)]) else Inl NilDereference)"

definition testAllocator :: allocator where
  "testAllocator w = (Ptr (length w), w @ [\<lparr>ID = 0, Data = ''test'', shardIndex = - 1\<rparr>])"

definition testCleaner :: cleaner where
  "testCleaner obj w = assign w obj (\<lambda>x. x\<lparr>ID := 0, Data := [], shardIndex := - 1\<rparr>)"

section \<open>Single-segment pools\<close>

text \<open>
  Each pool method runs to completion before the next one starts: the model is
  sequential. A \<^verbatim>\<open>sync.Mutex\<close> or \<^verbatim>\<open>sync.RWMutex\<close> that a method locks on
  entry and unlocks on return is therefore free at every call and is not part of the
  state. A method takes the pool and the heap and returns the value of the call with
  the pool and the heap it leaves.
\<close>

subsection \<open>MutexRingBufferPool\<close>

record MutexRingBufferPool =
  ringBuffer :: "ptr RingBuffer"
  allocator :: allocator
  cleaner :: cleaner

text \<open>The loop \<^verbatim>\<open>for range capacity { pool.ringBuffer.Push(allocator()) }\<close>.\<close>

fun prepopulate_ring ::
  "allocator \<Rightarrow> nat \<Rightarrow> ptr RingBuffer \<Rightarrow> heap \<Rightarrow> fault + (ptr RingBuffer \<times> heap)" where
  "prepopulate_ring alloc 0 rb w = Inr (rb, w)"
| "prepopulate_ring alloc (Suc n) rb w =
     (case alloc w of (obj, w') \<Rightarrow>
        (case Push rb obj of
           Inl e \<Rightarrow> Inl e
         | Inr (ok, rb') \<Rightarrow> prepopulate_ring alloc n rb' w'))"

definition NewMutexRingBufferPool ::
  "int \<Rightarrow> allocator \<Rightarrow> cleaner \<Rightarrow> heap \<Rightarrow> fault + (MutexRingBufferPool \<times> heap)" where
  "NewMutexRingBufferPool cap alloc clean w =
     (case NewRingBuffer NilPtr cap of
        Inl e \<Rightarrow> Inl e
      | Inr rb \<Rightarrow>
          (case prepopulate_ring alloc (nat cap) rb w of
             Inl e \<Rightarrow> Inl e
           | Inr (rb', w') \<Rightarrow>
               Inr (\<lparr>ringBuffer = rb', allocator = alloc, cleaner = clean\<rparr>, w')))"

definition MutexRingBufferPool_Get ::
  "MutexRingBufferPool \<Rightarrow> heap \<Rightarrow> fault + (ptr \<times> MutexRingBufferPool \<times> heap)" where
  "MutexRingBufferPool_Get p w =
     (case Pop NilPtr (ringBuffer p) of
        Inl e \<Rightarrow> Inl e
      | Inr (obj, ok, rb') \<Rightarrow>
          if ok then Inr (obj, p\<lparr>ringBuffer := rb'\<rparr>, w)
          else (case allocator p w of (obj', w') \<Rightarrow> Inr (obj', p\<lparr>ringBuffer := rb'\<rparr>, w')))"

definition MutexRingBufferPool_Put ::
  "MutexRingBufferPool \<Rightarrow> ptr \<Rightarrow> heap \<Rightarrow> fault + (MutexRingBufferPool \<times> heap)" where
  "MutexRingBufferPool_Put p obj w =
     (case Push (ringBuffer p) obj of
        Inl e \<Rightarrow> Inl e
      | Inr (ok, rb') \<Rightarrow> Inr (p\<lparr>ringBuffer := rb'\<rparr>, w))"

subsection \<open>RWMutexRingBufferPool\<close>

text \<open>
  The read/write-lock variant of the earlier \<^verbatim>\<open>helpers.go\<close>
  (\<^verbatim>\<open>src/unnamed/part_001\<close>). Both methods take the lock in exclusive mode; the
  bodies are those of \<^verbatim>\<open>MutexRingBufferPool\<close>. That file's \<^verbatim>\<open>testObject\<close> has no
  \<^verbatim>\<open>shardIndex\<close>; the pool never reads a field of an object.
\<close>

record RWMutexRingBufferPool =
  ringBuffer :: "ptr RingBuffer"
  allocator :: allocator
  cleaner :: cleaner

definition NewRWMutexRingBufferPool ::
  "int \<Rightarrow> allocator \<Rightarrow> cleaner \<Rightarrow> heap \<Rightarrow> fault + (RWMutexRingBufferPool \<times> heap)" where
  "NewRWMutexRingBufferPool cap alloc clean w =
     (case NewRingBuffer NilPtr cap of
        Inl e \<Rightarrow> Inl e
      | Inr rb \<Rightarrow>
          (case prepopulate_ring alloc (nat cap) rb w of
             Inl e \<Rightarrow> Inl e
           | Inr (rb', w') \<Rightarrow>
               Inr (\<lparr>ringBuffer = rb', allocator = alloc, cleaner = clean\<rparr>, w')))"

definition RWMutexRingBufferPool_Get ::
  "RWMutexRingBufferPool \<Rightarrow> heap \<Rightarrow> fault + (ptr \<times> RWMutexRingBufferPool \<times> heap)" where
  "RWMutexRingBufferPool_Get p w =
     (case Pop NilPtr (ringBuffer p) of
        Inl e \<Rightarrow> Inl e
      | Inr (obj, ok, rb') \<Rightarrow>
          if ok then Inr (obj, p\<lparr>ringBuffer := rb'\<rparr>, w)
          else (case allocator p w of (obj', w') \<Rightarrow> Inr (obj', p\<lparr>ringBuffer := rb'\<rparr>, w')))"

definition RWMutexRingBufferPool_Put ::
  "RWMutexRingBufferPool \<Rightarrow> ptr \<Rightarrow> heap \<Rightarrow> fault + (RWMutexRingBufferPool \<times> heap)" where
  "RWMutexRingBufferPool_Put p obj w =
     (case Push (ringBuffer p) obj of
        Inl e \<Rightarrow> Inl e
      | Inr (ok, rb') \<Rightarrow> Inr (p\<lparr>ringBuffer := rb'\<rparr>, w))"

subsection \<open>ChannelBasedPool\<close>

text \<open>
  A buffered channel \<^verbatim>\<open>make(chan T, n)\<close>: the queued values, oldest first, and the
  buffer size. A send on a full channel waits for a receiver; with no other goroutine
  the call never returns (\<open>Blocked\<close>). \<open>chan_try_recv\<close> is the receive of a
  \<^verbatim>\<open>select\<close> with a \<^verbatim>\<open>default\<close> branch.
\<close>

record 'a chan =
  queue :: "'a list"
  chan_cap :: int

definition make_chan :: "int \<Rightarrow> fault + 'a chan" where
  "make_chan n = (if n < 0 then Inl MakeChanSizeOutOfRange else Inr \<lparr>queue = [], chan_cap = n\<rparr>)"

definition chan_send :: "'a chan \<Rightarrow> 'a \<Rightarrow> fault + 'a chan" where
  "chan_send c x =
     (if int (length (queue c)) < chan_cap c then Inr (c\<lparr>queue := queue c @ [x]\<rparr>)
      else Inl Blocked)"

definition chan_try_recv :: "'a chan \<Rightarrow> ('a \<times> 'a chan) option" where
  "chan_try_recv c =
     (case queue c of [] \<Rightarrow> None | x # xs \<Rightarrow> Some (x, c\<lparr>queue := xs\<rparr>))"

record ChannelBasedPool =
  objects :: "ptr chan"
  allocator :: allocator
  cleaner :: cleaner

text \<open>The loop \<^verbatim>\<open>for range capacity { pool.objects <- allocator() }\<close>.\<close>

fun prepopulate_chan ::
  "allocator \<Rightarrow> nat \<Rightarrow> ptr chan \<Rightarrow> heap \<Rightarrow> fault + (ptr chan \<times> heap)" where
  "prepopulate_chan alloc 0 c w = Inr (c, w)"
| "prepopulate_chan alloc (Suc n) c w =
     (case alloc w of (obj, w') \<Rightarrow>
        (case chan_send c obj of
           Inl e \<Rightarrow> Inl e
         | Inr c' \<Rightarrow> prepopulate_chan alloc n c' w'))"

definition NewChannelBasedPool ::
  "int \<Rightarrow> allocator \<Rightarrow> cleaner \<Rightarrow> heap \<Rightarrow> fault + (ChannelBasedPool \<times> heap)" where
  "NewChannelBasedPool cap alloc clean w =
     (case make_chan cap of
        Inl e \<Rightarrow> Inl e
      | Inr c \<Rightarrow>
          (case prepopulate_chan alloc (nat cap) c w of
             Inl e \<Rightarrow> Inl e
           | Inr (c', w') \<Rightarrow> Inr (\<lparr>objects = c', allocator = alloc, cleaner = clean\<rparr>, w')))"

definition ChannelBasedPool_Get ::
  "ChannelBasedPool \<Rightarrow> heap \<Rightarrow> fault + (ptr \<times> ChannelBasedPool \<times> heap)" where
  "ChannelBasedPool_Get p w =
     (case chan_try_recv (objects p) of
        Some (obj, c') \<Rightarrow> Inr (obj, p\<lparr>objects := c'\<rparr>, w)
      | None \<Rightarrow> (case allocator p w of (obj', w') \<Rightarrow> Inr (obj', p, w')))"

definition ChannelBasedPool_Put ::
  "ChannelBasedPool \<Rightarrow> ptr \<Rightarrow> heap \<Rightarrow> fault + (ChannelBasedPool \<times> heap)" where
  "ChannelBasedPool_Put p obj w =
     (case cleaner p obj w of
        Inl e \<Rightarrow> Inl e
      | Inr w' \<Rightarrow>
          (case chan_send (objects p) obj of
             Inl e \<Rightarrow> Inl e
           | Inr c' \<Rightarrow> Inr (p\<lparr>objects := c'\<rparr>, w')))"

subsection \<open>MutexBasedPool\<close>

text \<open>
  A slice with its capacity, for \<^verbatim>\<open>make([]T, 0, n)\<close>, \<^verbatim>\<open>len\<close>, \<^verbatim>\<open>cap\<close>,
  \<^verbatim>\<open>append\<close> and \<^verbatim>\<open>s[:k]\<close>. An \<^verbatim>\<open>append\<close> to a full slice moves it to a larger
  array whose capacity Go leaves to the implementation; the model takes the least one.
  The pools below append only where \<^verbatim>\<open>len < cap\<close>.
\<close>

record 'a slice =
  elems :: "'a list"
  slice_cap :: int

definition make_slice_cap :: "int \<Rightarrow> fault + 'a slice" where
  "make_slice_cap n =
     (if n < 0 then Inl MakeSliceLenOutOfRange else Inr \<lparr>elems = [], slice_cap = n\<rparr>)"

definition len :: "'a slice \<Rightarrow> int" where
  "len s = int (length (elems s))"

definition slice_append :: "'a slice \<Rightarrow> 'a \<Rightarrow> 'a slice" where
  "slice_append s x = \<lparr>elems = elems s @ [x], slice_cap = max (slice_cap s) (len s + 1)\<rparr>"

definition slice_to :: "'a slice \<Rightarrow> int \<Rightarrow> fault + 'a slice" where
  "slice_to s k =
     (if 0 \<le> k \<and> k \<le> slice_cap s then Inr (s\<lparr>elems := take (nat k) (elems s)\<rparr>)
      else Inl IndexOutOfRange)"

record MutexBasedPool =
  objects :: "ptr slice"
  allocator :: allocator
  cleaner :: cleaner

text \<open>The loop \<^verbatim>\<open>for range capacity { pool.objects = append(pool.objects, allocator()) }\<close>.\<close>

fun prepopulate_slice :: "allocator \<Rightarrow> nat \<Rightarrow> ptr slice \<Rightarrow> heap \<Rightarrow> ptr slice \<times> heap" where
  "prepopulate_slice alloc 0 s w = (s, w)"
| "prepopulate_slice alloc (Suc n) s w =
     (case alloc w of (obj, w') \<Rightarrow> prepopulate_slice alloc n (slice_append s obj) w')"

definition NewMutexBasedPool ::
  "int \<Rightarrow> allocator \<Rightarrow> cleaner \<Rightarrow> heap \<Rightarrow> fault + (MutexBasedPool \<times> heap)" where
  "NewMutexBasedPool cap alloc clean w =
     (case make_slice_cap cap of
        Inl e \<Rightarrow> Inl e
      | Inr s \<Rightarrow>
          (case prepopulate_slice alloc (nat cap) s w of
             (s', w') \<Rightarrow> Inr (\<lparr>objects = s', allocator = alloc, cleaner = clean\<rparr>, w')))"

definition MutexBasedPool_Get ::
  "MutexBasedPool \<Rightarrow> heap \<Rightarrow> fault + (ptr \<times> MutexBasedPool \<times> heap)" where
  "MutexBasedPool_Get p w =
     (if len (objects p) = 0 then (case allocator p w of (obj', w') \<Rightarrow> Inr (obj', p, w'))
      else case at_index (elems (objects p)) (len (objects p) - 1) of
        Inl e \<Rightarrow> Inl e
      | Inr obj \<Rightarrow>
          (case slice_to (objects p) (len (objects p) - 1) of
             Inl e \<Rightarrow> Inl e
           | Inr s' \<Rightarrow> Inr (obj, p\<lparr>objects := s'\<rparr>, w)))"

definition MutexBasedPool_Put ::
  "MutexBasedPool \<Rightarrow> ptr \<Rightarrow> heap \<Rightarrow> fault + (MutexBasedPool \<times> heap)" where
  "MutexBasedPool_Put p obj w =
     (if len (objects p) < slice_cap (objects p)
      then Inr (p\<lparr>objects := slice_append (objects p) obj\<rparr>, w)
      else Inr (p, w))"

subsection \<open>AtomicBasedPool\<close>

text \<open>
  The operations of \<^verbatim>\<open>atomic.Int64\<close> on the value of the cell. \<open>CompareAndSwap\<close>
  returns whether it swapped and the value the cell holds afterwards.
\<close>

definition Load :: "int \<Rightarrow> int" where
  "Load c = c"

definition Store :: "int \<Rightarrow> int \<Rightarrow> int" where
  "Store c v = v"

definition CompareAndSwap :: "int \<Rightarrow> int \<Rightarrow> int \<Rightarrow> bool \<times> int" where
  "CompareAndSwap c old new = (if c = old then (True, new) else (False, c))"

record AtomicBasedPool =
  objects :: "ptr list"
  index :: int
  capacity :: int
  allocator :: allocator
  cleaner :: cleaner

text \<open>The loop \<^verbatim>\<open>for i := range capacity { pool.objects[i] = allocator() }\<close>, from \<open>i\<close> on.\<close>

fun prepopulate_array ::
  "allocator \<Rightarrow> nat \<Rightarrow> int \<Rightarrow> ptr list \<Rightarrow> heap \<Rightarrow> fault + (ptr list \<times> heap)" where
  "prepopulate_array alloc 0 i objs w = Inr (objs, w)"
| "prepopulate_array alloc (Suc n) i objs w =
     (case alloc w of (obj, w') \<Rightarrow>
        (case set_index objs i obj of
           Inl e \<Rightarrow> Inl e
         | Inr objs' \<Rightarrow> prepopulate_array alloc n (i + 1) objs' w'))"

definition NewAtomicBasedPool ::
  "int \<Rightarrow> allocator \<Rightarrow> cleaner \<Rightarrow> heap \<Rightarrow> fault + (AtomicBasedPool \<times> heap)" where
  "NewAtomicBasedPool cap alloc clean w =
     (case make_slice NilPtr cap of
        Inl e \<Rightarrow> Inl e
      | Inr objs \<Rightarrow>
          (case prepopulate_array alloc (nat cap) 0 objs w of
             Inl e \<Rightarrow> Inl e
           | Inr (objs', w') \<Rightarrow>
               Inr (\<lparr>objects = objs', index = Store 0 cap, capacity = cap,
                     allocator = alloc, cleaner = clean\<rparr>, w')))"

text \<open>
  \<^verbatim>\<open>Get\<close> and \<^verbatim>\<open>Put\<close> are loops that end when the compare-and-swap succeeds. With
  no other goroutine writing the cell between the load and the compare-and-swap, the
  swap succeeds in the first round; that is the termination proof.
\<close>

function AtomicBasedPool_Get ::
  "AtomicBasedPool \<Rightarrow> heap \<Rightarrow> fault + (ptr \<times> AtomicBasedPool \<times> heap)" where
  "AtomicBasedPool_Get p w =
     (let idx = Load (index p) in
      if idx \<le> 0 then (case allocator p w of (obj', w') \<Rightarrow> Inr (obj', p, w'))
      else if fst (CompareAndSwap (index p) idx (idx - 1))
        then (case at_index (objects p) (idx - 1) of
                Inl e \<Rightarrow> Inl e
              | Inr obj \<Rightarrow>
                  Inr (obj, p\<lparr>index := snd (CompareAndSwap (index p) idx (idx - 1))\<rparr>, w))
        else AtomicBasedPool_Get (p\<lparr>index := snd (CompareAndSwap (index p) idx (idx - 1))\<rparr>) w)"
  by pat_completeness auto
termination
  by (relation "{}") (auto simp: Load_def CompareAndSwap_def)

function AtomicBasedPool_Put ::
  "AtomicBasedPool \<Rightarrow> ptr \<Rightarrow> heap \<Rightarrow> fault + (AtomicBasedPool \<times> heap)" where
  "AtomicBasedPool_Put p obj w =
     (let idx = Load (index p) in
      if idx \<ge> capacity p then Inr (p, w)
      else if fst (CompareAndSwap (index p) idx (idx + 1))
        then (case set_index (objects p) idx obj of
                Inl e \<Rightarrow> Inl e
              | Inr objs \<Rightarrow>
                  Inr (p\<lparr>objects := objs,
                         index := snd (CompareAndSwap (index p) idx (idx + 1))\<rparr>, w))
        else AtomicBasedPool_Put (p\<lparr>index := snd (CompareAndSwap (index p) idx (idx + 1))\<rparr>) obj w)"
  by pat_completeness auto
termination
  by (relation "{}") (auto simp: Load_def CompareAndSwap_def)

declare AtomicBasedPool_Get.simps [simp del] and AtomicBasedPool_Put.simps [simp del]

subsection \<open>CondBasedPool and RingBufferCondPool\<close>

text \<open>
  \<^verbatim>\<open>Get\<close> waits on the condition variable while the pool is empty. With no other
  goroutine to put an object back, a wait never ends (\<open>Blocked\<close>).
  \<^verbatim>\<open>cond.Signal()\<close> wakes a waiter and has no effect on the pool.
\<close>

record CondBasedPool =
  objects :: "ptr slice"
  allocator :: allocator
  cleaner :: cleaner

definition NewCondBasedPool ::
  "int \<Rightarrow> allocator \<Rightarrow> cleaner \<Rightarrow> heap \<Rightarrow> fault + (CondBasedPool \<times> heap)" where
  "NewCondBasedPool cap alloc clean w =
     (case make_slice_cap cap of
        Inl e \<Rightarrow> Inl e
      | Inr s \<Rightarrow>
          (case prepopulate_slice alloc (nat cap) s w of
             (s', w') \<Rightarrow> Inr (\<lparr>objects = s', allocator = alloc, cleaner = clean\<rparr>, w')))"

definition CondBasedPool_Get ::
  "CondBasedPool \<Rightarrow> heap \<Rightarrow> fault + (ptr \<times> CondBasedPool \<times> heap)" where
  "CondBasedPool_Get p w =
     (if len (objects p) = 0 then Inl Blocked
      else case at_index (elems (objects p)) (len (objects p) - 1) of
        Inl e \<Rightarrow> Inl e
      | Inr obj \<Rightarrow>
          (case slice_to (objects p) (len (objects p) - 1) of
             Inl e \<Rightarrow> Inl e
           | Inr s' \<Rightarrow> Inr (obj, p\<lparr>objects := s'\<rparr>, w)))"

definition CondBasedPool_Put ::
  "CondBasedPool \<Rightarrow> ptr \<Rightarrow> heap \<Rightarrow> fault + (CondBasedPool \<times> heap)" where
  "CondBasedPool_Put p obj w =
     (if len (objects p) < slice_cap (objects p)
      then Inr (p\<lparr>objects := slice_append (objects p) obj\<rparr>, w)
      else Inr (p, w))"

record RingBufferCondPool =
  ringBuffer :: "ptr RingBuffer"
  allocator :: allocator
  cleaner :: cleaner

definition NewRingBufferCondPool ::
  "int \<Rightarrow> allocator \<Rightarrow> cleaner \<Rightarrow> heap \<Rightarrow> fault + (RingBufferCondPool \<times> heap)" where
  "NewRingBufferCondPool cap alloc clean w =
     (case NewRingBuffer NilPtr cap of
        Inl e \<Rightarrow> Inl e
      | Inr rb \<Rightarrow>
          (case prepopulate_ring alloc (nat cap) rb w of
             Inl e \<Rightarrow> Inl e
           | Inr (rb', w') \<Rightarrow>
               Inr (\<lparr>ringBuffer = rb', allocator = alloc, cleaner = clean\<rparr>, w')))"

definition RingBufferCondPool_Get ::
  "RingBufferCondPool \<Rightarrow> heap \<Rightarrow> fault + (ptr \<times> RingBufferCondPool \<times> heap)" where
  "RingBufferCondPool_Get p w =
     (if IsEmpty (ringBuffer p) then Inl Blocked
      else case Pop NilPtr (ringBuffer p) of
        Inl e \<Rightarrow> Inl e
      | Inr (obj, ok, rb') \<Rightarrow> Inr (obj, p\<lparr>ringBuffer := rb'\<rparr>, w))"

definition RingBufferCondPool_Put ::
  "RingBufferCondPool \<Rightarrow> ptr \<Rightarrow> heap \<Rightarrow> fault + (RingBufferCondPool \<times> heap)" where
  "RingBufferCondPool_Put p obj w =
     (if \<not> IsFull (ringBuffer p)
      then (case Push (ringBuffer p) obj of
              Inl e \<Rightarrow> Inl e
            | Inr (ok, rb') \<Rightarrow> Inr (p\<lparr>ringBuffer := rb'\<rparr>, w))
      else Inr (p, w))"

section \<open>Sharded pools\<close>

text \<open>
  A sharded pool holds a slice of pointers to its segments; no two entries point to
  the same segment, so the model holds the segments themselves and writes a segment
  back after a call on it. The constructors take the value of
  \<^verbatim>\<open>runtime.GOMAXPROCS(0)\<close> as their first argument, and \<^verbatim>\<open>Get\<close> takes the value
  that \<^verbatim>\<open>runtimeProcPin()\<close> returns.

  The loop \<^verbatim>\<open>for i := range numShards { shards[i] = New...(shardCapacity, ...) }\<close>
  is \<open>make_shards\<close>, given the constructor of one segment.
\<close>

fun make_shards ::
  "(heap \<Rightarrow> fault + ('s \<times> heap)) \<Rightarrow> nat \<Rightarrow> heap \<Rightarrow> fault + ('s list \<times> heap)" where
  "make_shards new 0 w = Inr ([], w)"
| "make_shards new (Suc n) w =
     (case new w of
        Inl e \<Rightarrow> Inl e
      | Inr (shard, w') \<Rightarrow>
          (case make_shards new n w' of
             Inl e \<Rightarrow> Inl e
           | Inr (rest, w'') \<Rightarrow> Inr (shard # rest, w'')))"

text \<open>
  The body shared by the \<^verbatim>\<open>Get\<close> of the five proc-pinned sharded pools, given the
  \<^verbatim>\<open>Get\<close> of a segment:
  \<^verbatim>\<open>shard := p.shards[shardIndex]; obj := shard.Get(); obj.shardIndex = shardIndex\<close>.
\<close>

definition pinned_Get ::
  "('s \<Rightarrow> heap \<Rightarrow> fault + (ptr \<times> 's \<times> heap)) \<Rightarrow> int \<Rightarrow> 's list \<Rightarrow> heap \<Rightarrow>
     fault + (ptr \<times> 's list \<times> heap)" where
  "pinned_Get get pid segs w =
     (case at_index segs pid of
        Inl e \<Rightarrow> Inl e
      | Inr shard \<Rightarrow>
          (case get shard w of
             Inl e \<Rightarrow> Inl e
           | Inr (obj, shard', w') \<Rightarrow>
               (case assign w' obj (\<lambda>x. x\<lparr>shardIndex := pid\<rparr>) of
                  Inl e \<Rightarrow> Inl e
                | Inr w'' \<Rightarrow> Inr (obj, segs[nat pid := shard'], w''))))"

text \<open>
  The body shared by the \<^verbatim>\<open>Put\<close> of the four pools that index the slice with the
  cached index unchecked: \<^verbatim>\<open>shard := p.shards[obj.shardIndex]; shard.Put(obj)\<close>.
\<close>

definition cached_Put ::
  "('s \<Rightarrow> ptr \<Rightarrow> heap \<Rightarrow> fault + ('s \<times> heap)) \<Rightarrow> 's list \<Rightarrow> ptr \<Rightarrow> heap \<Rightarrow>
     fault + ('s list \<times> heap)" where
  "cached_Put put segs obj w =
     (case deref w obj of
        Inl e \<Rightarrow> Inl e
      | Inr x \<Rightarrow>
          (case at_index segs (shardIndex x) of
             Inl e \<Rightarrow> Inl e
           | Inr shard \<Rightarrow>
               (case put shard obj w of
                  Inl e \<Rightarrow> Inl e
                | Inr (shard', w') \<Rightarrow> Inr (segs[nat (shardIndex x) := shard'], w'))))"

subsection \<open>ShardedMutexRingBufferPool\<close>

record ShardedMutexRingBufferPool =
  shards :: "MutexRingBufferPool list"

definition NewShardedMutexRingBufferPool ::
  "int \<Rightarrow> int \<Rightarrow> int \<Rightarrow> allocator \<Rightarrow> cleaner \<Rightarrow> heap \<Rightarrow>
     fault + (ShardedMutexRingBufferPool \<times> heap)" where
  "NewShardedMutexRingBufferPool gomaxprocs cap numShards alloc clean w =
     (let numShards = (if numShards \<le> 0 then gomaxprocs else numShards) in
      if numShards < 0 then Inl MakeSliceLenOutOfRange
      else case go_quot cap numShards of
        Inl e \<Rightarrow> Inl e
      | Inr q \<Rightarrow>
          (let shardCapacity = max q 1 in
           case make_shards (NewMutexRingBufferPool shardCapacity alloc clean) (nat numShards) w of
             Inl e \<Rightarrow> Inl e
           | Inr (segs, w') \<Rightarrow> Inr (\<lparr>shards = segs\<rparr>, w')))"

definition ShardedMutexRingBufferPool_Get ::
  "int \<Rightarrow> ShardedMutexRingBufferPool \<Rightarrow> heap \<Rightarrow>
     fault + (ptr \<times> ShardedMutexRingBufferPool \<times> heap)" where
  "ShardedMutexRingBufferPool_Get pid p w =
     (case pinned_Get MutexRingBufferPool_Get pid (shards p) w of
        Inl e \<Rightarrow> Inl e
      | Inr (obj, segs, w') \<Rightarrow> Inr (obj, p\<lparr>shards := segs\<rparr>, w'))"

definition ShardedMutexRingBufferPool_Put ::
  "ShardedMutexRingBufferPool \<Rightarrow> ptr \<Rightarrow> heap \<Rightarrow> fault + (ShardedMutexRingBufferPool \<times> heap)" where
  "ShardedMutexRingBufferPool_Put p obj w =
     (case cached_Put MutexRingBufferPool_Put (shards p) obj w of
        Inl e \<Rightarrow> Inl e
      | Inr (segs, w') \<Rightarrow> Inr (p\<lparr>shards := segs\<rparr>, w'))"

subsection \<open>ShardedChannelBasedPool\<close>

record ShardedChannelBasedPool =
  shards :: "ChannelBasedPool list"

definition NewShardedChannelBasedPool ::
  "int \<Rightarrow> int \<Rightarrow> int \<Rightarrow> allocator \<Rightarrow> cleaner \<Rightarrow> heap \<Rightarrow>
     fault + (ShardedChannelBasedPool \<times> heap)" where
  "NewShardedChannelBasedPool gomaxprocs cap numShards alloc clean w =
     (let numShards = (if numShards \<le> 0 then gomaxprocs else numShards) in
      if numShards < 0 then Inl MakeSliceLenOutOfRange
      else case go_quot cap numShards of
        Inl e \<Rightarrow> Inl e
      | Inr q \<Rightarrow>
          (let shardCapacity = (if q < 1 then 1 else q) in
           case make_shards (NewChannelBasedPool shardCapacity alloc clean) (nat numShards) w of
             Inl e \<Rightarrow> Inl e
           | Inr (segs, w') \<Rightarrow> Inr (\<lparr>shards = segs\<rparr>, w')))"

definition ShardedChannelBasedPool_Get ::
  "int \<Rightarrow> ShardedChannelBasedPool \<Rightarrow> heap \<Rightarrow>
     fault + (ptr \<times> ShardedChannelBasedPool \<times> heap)" where
  "ShardedChannelBasedPool_Get pid p w =
     (case pinned_Get ChannelBasedPool_Get pid (shards p) w of
        Inl e \<Rightarrow> Inl e
      | Inr (obj, segs, w') \<Rightarrow> Inr (obj, p\<lparr>shards := segs\<rparr>, w'))"

text \<open>The one \<^verbatim>\<open>Put\<close> that checks the cached index before it indexes the slice.\<close>

definition ShardedChannelBasedPool_Put ::
  "ShardedChannelBasedPool \<Rightarrow> ptr \<Rightarrow> heap \<Rightarrow> fault + (ShardedChannelBasedPool \<times> heap)" where
  "ShardedChannelBasedPool_Put p obj w =
     (case deref w obj of
        Inl e \<Rightarrow> Inl e
      | Inr x \<Rightarrow>
          if shardIndex x \<ge> 0 \<and> shardIndex x < int (length (shards p))
          then (case at_index (shards p) (shardIndex x) of
                  Inl e \<Rightarrow> Inl e
                | Inr shard \<Rightarrow>
                    (case ChannelBasedPool_Put shard obj w of
                       Inl e \<Rightarrow> Inl e
                     | Inr (shard', w') \<Rightarrow>
                         Inr (p\<lparr>shards := (shards p)[nat (shardIndex x) := shard']\<rparr>, w')))
          else Inr (p, w))"

subsection \<open>ShardedAtomicBasedPool\<close>

record ShardedAtomicBasedPool =
  shards :: "AtomicBasedPool list"

definition NewShardedAtomicBasedPool ::
  "int \<Rightarrow> int \<Rightarrow> int \<Rightarrow> allocator \<Rightarrow> cleaner \<Rightarrow> heap \<Rightarrow>
     fault + (ShardedAtomicBasedPool \<times> heap)" where
  "NewShardedAtomicBasedPool gomaxprocs cap numShards alloc clean w =
     (let numShards = (if numShards \<le> 0 then gomaxprocs else numShards) in
      if numShards < 0 then Inl MakeSliceLenOutOfRange
      else case go_quot cap numShards of
        Inl e \<Rightarrow> Inl e
      | Inr q \<Rightarrow>
          (let shardCapacity = max q 1 in
           case make_shards (NewAtomicBasedPool shardCapacity alloc clean) (nat numShards) w of
             Inl e \<Rightarrow> Inl e
           | Inr (segs, w') \<Rightarrow> Inr (\<lparr>shards = segs\<rparr>, w')))"

definition ShardedAtomicBasedPool_Get ::
  "int \<Rightarrow> ShardedAtomicBasedPool \<Rightarrow> heap \<Rightarrow>
     fault + (ptr \<times> ShardedAtomicBasedPool \<times> heap)" where
  "ShardedAtomicBasedPool_Get pid p w =
     (case pinned_Get AtomicBasedPool_Get pid (shards p) w of
        Inl e \<Rightarrow> Inl e
      | Inr (obj, segs, w') \<Rightarrow> Inr (obj, p\<lparr>shards := segs\<rparr>, w'))"

definition ShardedAtomicBasedPool_Put ::
  "ShardedAtomicBasedPool \<Rightarrow> ptr \<Rightarrow> heap \<Rightarrow> fault + (ShardedAtomicBasedPool \<times> heap)" where
  "ShardedAtomicBasedPool_Put p obj w =
     (case cached_Put AtomicBasedPool_Put (shards p) obj w of
        Inl e \<Rightarrow> Inl e
      | Inr (segs, w') \<Rightarrow> Inr (p\<lparr>shards := segs\<rparr>, w'))"

subsection \<open>ShardedCondBasedPool and ShardedRingBufferCondPool\<close>

text \<open>Both are built from \<^verbatim>\<open>RingBufferCondPool\<close> segments.\<close>

record ShardedCondBasedPool =
  shards :: "RingBufferCondPool list"

definition NewShardedCondBasedPool ::
  "int \<Rightarrow> int \<Rightarrow> int \<Rightarrow> allocator \<Rightarrow> cleaner \<Rightarrow> heap \<Rightarrow>
     fault + (ShardedCondBasedPool \<times> heap)" where
  "NewShardedCondBasedPool gomaxprocs cap numShards alloc clean w =
     (let numShards = (if numShards \<le> 0 then gomaxprocs else numShards) in
      if numShards < 0 then Inl MakeSliceLenOutOfRange
      else case go_quot cap numShards of
        Inl e \<Rightarrow> Inl e
      | Inr q \<Rightarrow>
          (let shardCapacity = (if q < 1 then 1 else q) in
           case make_shards (NewRingBufferCondPool shardCapacity alloc clean) (nat numShards) w of
             Inl e \<Rightarrow> Inl e
           | Inr (segs, w') \<Rightarrow> Inr (\<lparr>shards = segs\<rparr>, w')))"

definition ShardedCondBasedPool_Get ::
  "int \<Rightarrow> ShardedCondBasedPool \<Rightarrow> heap \<Rightarrow> fault + (ptr \<times> ShardedCondBasedPool \<times> heap)" where
  "ShardedCondBasedPool_Get pid p w =
     (case pinned_Get RingBufferCondPool_Get pid (shards p) w of
        Inl e \<Rightarrow> Inl e
      | Inr (obj, segs, w') \<Rightarrow> Inr (obj, p\<lparr>shards := segs\<rparr>, w'))"

definition ShardedCondBasedPool_Put ::
  "ShardedCondBasedPool \<Rightarrow> ptr \<Rightarrow> heap \<Rightarrow> fault + (ShardedCondBasedPool \<times> heap)" where
  "ShardedCondBasedPool_Put p obj w =
     (case cached_Put RingBufferCondPool_Put (shards p) obj w of
        Inl e \<Rightarrow> Inl e
      | Inr (segs, w') \<Rightarrow> Inr (p\<lparr>shards := segs\<rparr>, w'))"

record ShardedRingBufferCondPool =
  shards :: "RingBufferCondPool list"

definition NewShardedRingBufferCondPool ::
  "int \<Rightarrow> int \<Rightarrow> int \<Rightarrow> allocator \<Rightarrow> cleaner \<Rightarrow> heap \<Rightarrow>
     fault + (ShardedRingBufferCondPool \<times> heap)" where
  "NewShardedRingBufferCondPool gomaxprocs cap numShards alloc clean w =
     (let numShards = (if numShards \<le> 0 then gomaxprocs else numShards) in
      if numShards < 0 then Inl MakeSliceLenOutOfRange
      else case go_quot cap numShards of
        Inl e \<Rightarrow> Inl e
      | Inr q \<Rightarrow>
          (let shardCapacity = (if q < 1 then 1 else q) in
           case make_shards (NewRingBufferCondPool shardCapacity alloc clean) (nat numShards) w of
             Inl e \<Rightarrow> Inl e
           | Inr (segs, w') \<Rightarrow> Inr (\<lparr>shards = segs\<rparr>, w')))"

definition ShardedRingBufferCondPool_Get ::
  "int \<Rightarrow> ShardedRingBufferCondPool \<Rightarrow> heap \<Rightarrow>
     fault + (ptr \<times> ShardedRingBufferCondPool \<times> heap)" where
  "ShardedRingBufferCondPool_Get pid p w =
     (case pinned_Get RingBufferCondPool_Get pid (shards p) w of
        Inl e \<Rightarrow> Inl e
      | Inr (obj, segs, w') \<Rightarrow> Inr (obj, p\<lparr>shards := segs\<rparr>, w'))"

definition ShardedRingBufferCondPool_Put ::
  "ShardedRingBufferCondPool \<Rightarrow> ptr \<Rightarrow> heap \<Rightarrow> fault + (ShardedRingBufferCondPool \<times> heap)" where
  "ShardedRingBufferCondPool_Put p obj w =
     (case cached_Put RingBufferCondPool_Put (shards p) obj w of
        Inl e \<Rightarrow> Inl e
      | Inr (segs, w') \<Rightarrow> Inr (p\<lparr>shards := segs\<rparr>, w'))"

subsection \<open>ShardedGoroutineIDPool\<close>

text \<open>
  The pool that picks a segment from a stack address and does not use the cached
  index.
\<close>

record ShardedGoroutineIDPool =
  shards :: "MutexRingBufferPool list"
  numShards :: int

definition NewShardedGoroutineIDPool ::
  "int \<Rightarrow> int \<Rightarrow> int \<Rightarrow> allocator \<Rightarrow> cleaner \<Rightarrow> heap \<Rightarrow>
     fault + (ShardedGoroutineIDPool \<times> heap)" where
  "NewShardedGoroutineIDPool gomaxprocs cap n alloc clean w =
     (let n = (if n \<le> 0 then gomaxprocs else n) in
      if n < 0 then Inl MakeSliceLenOutOfRange
      else case go_quot cap n of
        Inl e \<Rightarrow> Inl e
      | Inr q \<Rightarrow>
          (let shardCapacity = max q 1 in
           case make_shards (NewMutexRingBufferPool shardCapacity alloc clean) (nat n) w of
             Inl e \<Rightarrow> Inl e
           | Inr (segs, w') \<Rightarrow> Inr (\<lparr>shards = segs, numShards = n\<rparr>, w')))"

text \<open>
  \<^verbatim>\<open>getShard\<close> takes the address of a local variable,
  \<^verbatim>\<open>id := int(addr>>12) & (p.numShards - 1)\<close>, and returns \<^verbatim>\<open>p.shards[id]\<close>. The
  address is a parameter of the model, an unsigned number; shifted right by 12 bits it
  is converted to \<^verbatim>\<open>int\<close> without loss. The model returns the index with the
  segment, so that \<^verbatim>\<open>Get\<close> can write the segment back after the call on it.
\<close>

unbundle bit_operations_syntax

definition getShard :: "nat \<Rightarrow> ShardedGoroutineIDPool \<Rightarrow> fault + (int \<times> MutexRingBufferPool)" where
  "getShard addr p =
     (let sid = int (drop_bit 12 addr) AND (numShards p - 1) in
      case at_index (ShardedGoroutineIDPool.shards p) sid of
        Inl e \<Rightarrow> Inl e
      | Inr shard \<Rightarrow> Inr (sid, shard))"

definition ShardedGoroutineIDPool_Get ::
  "nat \<Rightarrow> ShardedGoroutineIDPool \<Rightarrow> heap \<Rightarrow> fault + (ptr \<times> ShardedGoroutineIDPool \<times> heap)" where
  "ShardedGoroutineIDPool_Get addr p w =
     (case getShard addr p of
        Inl e \<Rightarrow> Inl e
      | Inr (sid, shard) \<Rightarrow>
          (case MutexRingBufferPool_Get shard w of
             Inl e \<Rightarrow> Inl e
           | Inr (obj, shard', w') \<Rightarrow>
               Inr (obj, p\<lparr>ShardedGoroutineIDPool.shards :=
                            (ShardedGoroutineIDPool.shards p)[nat sid := shard']\<rparr>, w')))"

section \<open>Sequences of calls and invariants of the pools\<close>

text \<open>\<open>n\<close> consecutive \<^verbatim>\<open>Get\<close> calls, collecting the objects returned in order.\<close>

fun repeat_Get ::
  "('p \<Rightarrow> heap \<Rightarrow> fault + (ptr \<times> 'p \<times> heap)) \<Rightarrow> nat \<Rightarrow> 'p \<Rightarrow> heap \<Rightarrow>
     fault + (ptr list \<times> 'p \<times> heap)" where
  "repeat_Get get 0 p w = Inr ([], p, w)"
| "repeat_Get get (Suc n) p w =
     (case get p w of
        Inl e \<Rightarrow> Inl e
      | Inr (obj, p', w') \<Rightarrow>
          (case repeat_Get get n p' w' of
             Inl e \<Rightarrow> Inl e
           | Inr (objs, p'', w'') \<Rightarrow> Inr (obj # objs, p'', w'')))"

text \<open>\<open>n\<close> repetitions of \<^verbatim>\<open>pool.Put(pool.Get())\<close>, the loop body of the benchmarks.\<close>

fun repeat_Put_Get ::
  "('p \<Rightarrow> heap \<Rightarrow> fault + (ptr \<times> 'p \<times> heap)) \<Rightarrow> ('p \<Rightarrow> ptr \<Rightarrow> heap \<Rightarrow> fault + ('p \<times> heap)) \<Rightarrow>
     nat \<Rightarrow> 'p \<Rightarrow> heap \<Rightarrow> fault + ('p \<times> heap)" where
  "repeat_Put_Get get put 0 p w = Inr (p, w)"
| "repeat_Put_Get get put (Suc n) p w =
     (case get p w of
        Inl e \<Rightarrow> Inl e
      | Inr (obj, p', w') \<Rightarrow>
          (case put p' obj w' of
             Inl e \<Rightarrow> Inl e
           | Inr (p'', w'') \<Rightarrow> repeat_Put_Get get put n p'' w''))"

text \<open>\<^verbatim>\<open>Put\<close> calls for the objects of a list, first to last.\<close>

fun repeat_Put ::
  "('p \<Rightarrow> ptr \<Rightarrow> heap \<Rightarrow> fault + ('p \<times> heap)) \<Rightarrow> ptr list \<Rightarrow> 'p \<Rightarrow> heap \<Rightarrow>
     fault + ('p \<times> heap)" where
  "repeat_Put put [] p w = Inr (p, w)"
| "repeat_Put put (x # xs) p w =
     (case put p x w of
        Inl e \<Rightarrow> Inl e
      | Inr (p', w') \<Rightarrow> repeat_Put put xs p' w')"


text \<open>Any sequence of \<^verbatim>\<open>Get\<close> and \<^verbatim>\<open>Put\<close> calls on one pool, results dropped.\<close>

datatype pool_op = DoGet | DoPut ptr

fun run_ops ::
  "('p \<Rightarrow> heap \<Rightarrow> fault + (ptr \<times> 'p \<times> heap)) \<Rightarrow> ('p \<Rightarrow> ptr \<Rightarrow> heap \<Rightarrow> fault + ('p \<times> heap)) \<Rightarrow>
     pool_op list \<Rightarrow> 'p \<Rightarrow> heap \<Rightarrow> fault + ('p \<times> heap)" where
  "run_ops get put [] p w = Inr (p, w)"
| "run_ops get put (DoGet # ops) p w =
     (case get p w of
        Inl e \<Rightarrow> Inl e
      | Inr (obj, p', w') \<Rightarrow> run_ops get put ops p' w')"
| "run_ops get put (DoPut x # ops) p w =
     (case put p x w of
        Inl e \<Rightarrow> Inl e
      | Inr (p', w') \<Rightarrow> run_ops get put ops p' w')"


text \<open>
  The invariant of the lock-free pool: the fill index is between 0 and the capacity,
  and the array has \<open>capacity\<close> slots.
\<close>

definition atomic_inv :: "AtomicBasedPool \<Rightarrow> bool" where
  "atomic_inv p \<longleftrightarrow>
     0 \<le> index p \<and> index p \<le> AtomicBasedPool.capacity p \<and>
     AtomicBasedPool.capacity p = int (length (AtomicBasedPool.objects p))"

text \<open>The objects a lock-free pool holds, in the order they were put in.\<close>

definition atomic_contents :: "AtomicBasedPool \<Rightarrow> ptr list" where
  "atomic_contents p = take (nat (index p)) (AtomicBasedPool.objects p)"

text \<open>The addresses \<open>a, a + 1, \<dots>, a + n - 1\<close> as pointers.\<close>

definition fresh_ptrs :: "nat \<Rightarrow> nat \<Rightarrow> ptr list" where
  "fresh_ptrs a n = map Ptr [a..<a + n]"


text \<open>\<open>n\<close> successive calls of an allocator: the pointers returned, and the heap left.\<close>

fun alloc_seq :: "allocator \<Rightarrow> nat \<Rightarrow> heap \<Rightarrow> ptr list \<times> heap" where
  "alloc_seq alloc 0 w = ([], w)"
| "alloc_seq alloc (Suc n) w =
     (case alloc w of (obj, w') \<Rightarrow>
        (case alloc_seq alloc n w' of (objs, w'') \<Rightarrow> (obj # objs, w'')))"


text \<open>
  An allocator that returns a new object at each call, as \<^verbatim>\<open>&testObject{...}\<close>
  does: the heap grows by one object and the pointer returned is its address.
\<close>

definition allocates_new :: "allocator \<Rightarrow> bool" where
  "allocates_new alloc \<longleftrightarrow> (\<forall>w. \<exists>x. alloc w = (Ptr (length w), w @ [x]))"

section \<open>Properties of the ring buffer\<close>

subsection \<open>Arithmetic of wrapped indices\<close>

lemma mod_wrap_once:
  fixes x c :: int
  assumes "0 \<le> x" "x < 2 * c"
  shows "x mod c = (if x < c then x else x - c)"
proof (cases "x < c")
  case True
  with assms show ?thesis by simp
next
  case False
  with assms have r: "0 \<le> x - c" "x - c < c" by simp_all
  have "x mod c = (x - c) mod c" by simp
  also from r have "\<dots> = x - c" by (rule mod_pos_pos_trivial)
  finally show ?thesis using False by simp
qed

lemma smod_nonneg:
  fixes a b :: int
  assumes "0 \<le> a" "0 < b"
  shows "a smod b = a mod b"
  using assms by (simp add: signed_modulo_int_def sgn_if)

lemma sdiv_nonneg:
  fixes a b :: int
  assumes "0 \<le> a" "0 < b"
  shows "a sdiv b = a div b"
  using assms by (simp add: signed_divide_int_def sgn_if)

lemma rb_inv_tail_bounds:
  assumes "rb_inv rb"
  shows "0 \<le> tail rb" "tail rb < max 1 (RingBuffer.capacity rb)"
  using assms unfolding rb_inv_def by simp_all

subsection \<open>Push and Pop on a buffer that satisfies the invariant\<close>

lemma Push_full:
  assumes "rb_inv rb" "size_rb rb = RingBuffer.capacity rb"
  shows "Push rb x = Inr (False, rb)"
  using assms by (simp add: Push_def)

lemma Push_room:
  assumes "rb_inv rb" "size_rb rb < RingBuffer.capacity rb"
  shows "Push rb x =
    Inr (True, rb\<lparr>buffer := (buffer rb)[nat (tail rb) := x],
                  tail := (tail rb + 1) mod RingBuffer.capacity rb,
                  size_rb := size_rb rb + 1\<rparr>)"
proof -
  from assms have c: "0 < RingBuffer.capacity rb" unfolding rb_inv_def by arith
  from rb_inv_tail_bounds[OF assms(1)] c
  have t: "0 \<le> tail rb" "tail rb < RingBuffer.capacity rb" by simp_all
  from assms(1) have len: "RingBuffer.capacity rb = int (length (buffer rb))"
    unfolding rb_inv_def by simp
  from t len have "set_index (buffer rb) (tail rb) x = Inr ((buffer rb)[nat (tail rb) := x])"
    by (simp add: set_index_def)
  moreover from t c have "go_rem (tail rb + 1) (RingBuffer.capacity rb) = Inr ((tail rb + 1) mod RingBuffer.capacity rb)"
    by (simp add: go_rem_def smod_nonneg)
  ultimately show ?thesis using assms(2) by (simp add: Push_def)
qed

lemma Pop_empty:
  assumes "rb_inv rb" "size_rb rb = 0"
  shows "Pop zero rb = Inr (zero, False, rb)"
  using assms by (simp add: Pop_def)

lemma Pop_some:
  assumes "rb_inv rb" "0 < size_rb rb"
  shows "Pop zero rb =
    Inr (buffer rb ! nat (head rb), True,
         rb\<lparr>head := (head rb + 1) mod RingBuffer.capacity rb, size_rb := size_rb rb - 1\<rparr>)"
proof -
  from assms have c: "0 < RingBuffer.capacity rb" unfolding rb_inv_def by arith
  from assms(1) c have h: "0 \<le> head rb" "head rb < RingBuffer.capacity rb"
    unfolding rb_inv_def by simp_all
  from assms(1) have len: "RingBuffer.capacity rb = int (length (buffer rb))"
    unfolding rb_inv_def by simp
  from h len have "at_index (buffer rb) (head rb) = Inr (buffer rb ! nat (head rb))"
    by (simp add: at_index_def)
  moreover from h c have "go_rem (head rb + 1) (RingBuffer.capacity rb) = Inr ((head rb + 1) mod RingBuffer.capacity rb)"
    by (simp add: go_rem_def smod_nonneg)
  ultimately show ?thesis using assms(2) by (simp add: Pop_def)
qed

lemma rb_inv_Push_room:
  assumes "rb_inv rb" "size_rb rb < RingBuffer.capacity rb"
  shows "rb_inv (rb\<lparr>buffer := (buffer rb)[nat (tail rb) := x],
                    tail := (tail rb + 1) mod RingBuffer.capacity rb,
                    size_rb := size_rb rb + 1\<rparr>)"
proof -
  from assms have c: "0 < RingBuffer.capacity rb" unfolding rb_inv_def by arith
  then have m: "max 1 (RingBuffer.capacity rb) = RingBuffer.capacity rb" by simp
  from assms(1) have "tail rb = (head rb + size_rb rb) mod RingBuffer.capacity rb"
    unfolding rb_inv_def m by simp
  then have "(tail rb + 1) mod RingBuffer.capacity rb = (head rb + (size_rb rb + 1)) mod RingBuffer.capacity rb"
    by (simp add: mod_add_left_eq add.assoc)
  with assms show ?thesis unfolding rb_inv_def m by simp
qed

lemma rb_inv_Pop_some:
  assumes "rb_inv rb" "0 < size_rb rb"
  shows "rb_inv (rb\<lparr>head := (head rb + 1) mod RingBuffer.capacity rb, size_rb := size_rb rb - 1\<rparr>)"
proof -
  from assms have c: "0 < RingBuffer.capacity rb" unfolding rb_inv_def by arith
  then have m: "max 1 (RingBuffer.capacity rb) = RingBuffer.capacity rb" by simp
  have "((head rb + 1) mod RingBuffer.capacity rb + (size_rb rb - 1)) mod RingBuffer.capacity rb
        = (head rb + 1 + (size_rb rb - 1)) mod RingBuffer.capacity rb"
    by (simp only: mod_add_left_eq)
  then have "((head rb + 1) mod RingBuffer.capacity rb + (size_rb rb - 1)) mod RingBuffer.capacity rb
        = (head rb + size_rb rb) mod RingBuffer.capacity rb"
    by simp
  with assms c show ?thesis unfolding rb_inv_def m by simp
qed

lemma Push_cases:
  assumes "rb_inv rb"
  obtains (full) "size_rb rb = RingBuffer.capacity rb" "Push rb x = Inr (False, rb)"
  | (room) rb' where "size_rb rb < RingBuffer.capacity rb" "Push rb x = Inr (True,
    rb')" "rb_inv rb'"
      "RingBuffer.capacity rb' = RingBuffer.capacity rb" "size_rb rb' = size_rb rb + 1"
proof (cases "size_rb rb = RingBuffer.capacity rb")
  case True
  show ?thesis by (rule full[OF True Push_full[OF assms True]])
next
  case False
  with assms have lt: "size_rb rb < RingBuffer.capacity rb" unfolding rb_inv_def by simp
  show ?thesis
    by (rule room[OF lt Push_room[OF assms lt] rb_inv_Push_room[OF assms lt]]) simp_all
qed

lemma Pop_cases:
  assumes "rb_inv rb"
  obtains (empty) "size_rb rb = 0" "Pop zero rb = Inr (zero, False, rb)"
  | (some) y rb' where "0 < size_rb rb" "Pop zero rb = Inr (y, True, rb')" "rb_inv rb'"
      "RingBuffer.capacity rb' = RingBuffer.capacity rb" "size_rb rb' = size_rb rb - 1"
proof (cases "size_rb rb = 0")
  case True
  show ?thesis by (rule empty[OF True Pop_empty[OF assms True]])
next
  case False
  with assms have gt: "0 < size_rb rb" unfolding rb_inv_def by simp
  show ?thesis
    by (rule some[OF gt Pop_some[OF assms gt] rb_inv_Pop_some[OF assms gt]]) simp_all
qed

lemma NewRingBuffer_ok:
  assumes "0 \<le> c"
  shows "NewRingBuffer zero c =
    Inr \<lparr>buffer = replicate (nat c) zero, head = 0, tail = 0, size_rb = 0, RingBuffer.capacity = c\<rparr>"
  using assms by (simp add: NewRingBuffer_def make_slice_def)

lemma NewRingBuffer_inv:
  assumes "NewRingBuffer zero c = Inr rb"
  shows "rb_inv rb" "RingBuffer.capacity rb = c" "size_rb rb = 0"
  using assms
  by (auto simp: NewRingBuffer_def make_slice_def rb_inv_def split: if_splits)

lemma rb_run_inv:
  assumes "rb_inv rb"
  shows "\<exists>rb'. rb_run zero ops rb = Inr rb' \<and> rb_inv rb' \<and> RingBuffer.capacity rb' = RingBuffer.capacity rb"
  using assms
proof (induction ops arbitrary: rb)
  case Nil
  then show ?case by simp
next
  case (Cons a ops)
  show ?case
  proof (cases a)
    case (DoPush x)
    from Cons.prems show ?thesis
    proof (cases rule: Push_cases[where x = x])
      case full
      with Cons.IH[OF Cons.prems] DoPush show ?thesis by simp
    next
      case (room rb1)
      with Cons.IH[OF room(3)] DoPush show ?thesis by simp
    qed
  next
    case DoPop
    from Cons.prems show ?thesis
    proof (cases rule: Pop_cases[where zero = zero])
      case empty
      with Cons.IH[OF Cons.prems] DoPop show ?thesis by simp
    next
      case (some y rb1)
      with Cons.IH[OF some(3)] DoPop show ?thesis by simp
    qed
  qed
qed

lemma wrap_distinct:
  fixes h c i j :: int
  assumes "0 \<le> h" "h < c" "0 \<le> i" "i < j" "j < c"
  shows "(h + i) mod c \<noteq> (h + j) mod c"
proof -
  from assms have "0 \<le> h + i" "h + i < 2 * c" "0 \<le> h + j" "h + j < 2 * c" by simp_all
  then have "(h + i) mod c = (if h + i < c then h + i else h + i - c)"
    "(h + j) mod c = (if h + j < c then h + j else h + j - c)"
    by (simp_all only: mod_wrap_once)
  with assms show ?thesis by (simp split: if_splits)
qed

lemma rb_contents_Push_room:
  assumes "rb_inv rb" "size_rb rb < RingBuffer.capacity rb"
  shows "rb_contents (rb\<lparr>buffer := (buffer rb)[nat (tail rb) := x],
                    tail := (tail rb + 1) mod RingBuffer.capacity rb,
                    size_rb := size_rb rb + 1\<rparr>) = rb_contents rb @ [x]"
proof -
  let ?c = "RingBuffer.capacity rb"
  from assms have c: "0 < ?c" unfolding rb_inv_def by arith
  from assms(1) c have h: "0 \<le> head rb" "head rb < ?c" and s: "0 \<le> size_rb rb"
    and len: "?c = int (length (buffer rb))"
    and t: "tail rb = (head rb + size_rb rb) mod ?c"
    unfolding rb_inv_def by simp_all
  from t c have tb: "0 \<le> tail rb" "tail rb < ?c" by simp_all
  have up: "[0..<nat (size_rb rb + 1)] = [0..<nat (size_rb rb)] @ [nat (size_rb rb)]"
    using s by (simp add: nat_add_distrib)
  have old: "(buffer rb)[nat (tail rb) := x] ! nat ((head rb + int i) mod ?c)
      = buffer rb ! nat ((head rb + int i) mod ?c)" if "i < nat (size_rb rb)" for i
  proof -
    from that s have "int i < size_rb rb" by simp
    with h assms(2) have "(head rb + int i) mod ?c \<noteq> (head rb + size_rb rb) mod ?c"
      by (intro wrap_distinct) simp_all
    with t c have "nat ((head rb + int i) mod ?c) \<noteq> nat (tail rb)"
      by (simp add: nat_eq_iff)
    then show ?thesis by simp
  qed
  have new: "(buffer rb)[nat (tail rb) := x] ! nat ((head rb + int (nat (size_rb rb))) mod ?c) = x"
    using s t tb len by simp
  show ?thesis
    unfolding rb_contents_def using old new by (simp add: up)
qed

lemma rb_contents_Pop_some:
  assumes "rb_inv rb" "0 < size_rb rb"
  shows "rb_contents rb = buffer rb ! nat (head rb) #
     rb_contents (rb\<lparr>head := (head rb + 1) mod RingBuffer.capacity rb, size_rb := size_rb rb - 1\<rparr>)"
proof -
  let ?c = "RingBuffer.capacity rb"
  from assms have c: "0 < ?c" unfolding rb_inv_def by arith
  from assms(1) c have h: "0 \<le> head rb" "head rb < ?c"
    unfolding rb_inv_def by simp_all
  from assms(2) obtain k where k: "nat (size_rb rb) = Suc k"
    by (metis Suc_pred' zero_less_nat_eq)
  then have k': "nat (size_rb rb - 1) = k" by simp
  have "[0..<Suc k] = 0 # map Suc [0..<k]"
    by (simp add: upt_conv_Cons map_Suc_upt del: upt_Suc)
  moreover have "((head rb + 1) mod ?c + int i) mod ?c = (head rb + int (Suc i)) mod ?c" for i
  proof -
    have "((head rb + 1) mod ?c + int i) mod ?c = (head rb + 1 + int i) mod ?c"
      by (rule mod_add_left_eq)
    also have "head rb + 1 + int i = head rb + int (Suc i)" by simp
    finally show ?thesis .
  qed
  moreover from h have "head rb mod ?c = head rb" by simp
  ultimately show ?thesis
    unfolding rb_contents_def k by (simp add: k' comp_def del: upt_Suc)
qed

lemma rb_contents_length:
  "0 \<le> size_rb rb \<Longrightarrow> int (length (rb_contents rb)) = size_rb rb"
  by (simp add: rb_contents_def)

lemma Push_contents:
  assumes "rb_inv rb" "size_rb rb < RingBuffer.capacity rb"
  obtains rb' where "Push rb x = Inr (True, rb')" "rb_inv rb'"
    "rb_contents rb' = rb_contents rb @ [x]"
    "RingBuffer.capacity rb' = RingBuffer.capacity rb" "size_rb rb' = size_rb rb + 1"
proof -
  let ?rb' = "rb\<lparr>buffer := (buffer rb)[nat (tail rb) := x],
                  tail := (tail rb + 1) mod RingBuffer.capacity rb,
                  size_rb := size_rb rb + 1\<rparr>"
  show ?thesis
    by (rule that[of ?rb', OF Push_room[OF assms] rb_inv_Push_room[OF assms]
          rb_contents_Push_room[OF assms]]) simp_all
qed

lemma Pop_contents:
  assumes "rb_inv rb" "0 < size_rb rb"
  obtains rb' where "Pop zero rb = Inr (hd (rb_contents rb), True, rb')" "rb_inv rb'"
    "rb_contents rb' = tl (rb_contents rb)"
    "RingBuffer.capacity rb' = RingBuffer.capacity rb" "size_rb rb' = size_rb rb - 1"
proof -
  let ?rb' = "rb\<lparr>head := (head rb + 1) mod RingBuffer.capacity rb, size_rb := size_rb rb - 1\<rparr>"
  note c = rb_contents_Pop_some[OF assms]
  have 1: "Pop zero rb = Inr (hd (rb_contents rb), True, ?rb')"
    using Pop_some[OF assms, of zero] by (subst c) simp
  have 2: "rb_contents ?rb' = tl (rb_contents rb)"
    using arg_cong[OF c, of tl] by simp
  show ?thesis
    by (rule that[of ?rb', OF 1 rb_inv_Pop_some[OF assms] 2]) simp_all
qed

lemma rb_contents_empty:
  "size_rb rb = 0 \<Longrightarrow> rb_contents rb = []"
  by (simp add: rb_contents_def)

lemma rb_contents_Nil_iff:
  "0 \<le> size_rb rb \<Longrightarrow> rb_contents rb = [] \<longleftrightarrow> size_rb rb = 0"
  by (simp add: rb_contents_def)

lemma alloc_seq_length:
  "length (fst (alloc_seq alloc n w)) = n"
proof (induction n arbitrary: w)
  case 0
  then show ?case by simp
next
  case (Suc n)
  obtain obj w1 where a: "alloc w = (obj, w1)" by (cases "alloc w")
  obtain objs w2 where b: "alloc_seq alloc n w1 = (objs, w2)"
    by (cases "alloc_seq alloc n w1")
  from Suc.IH[of w1] b have "length objs = n" by simp
  with a b show ?case by simp
qed

lemma testAllocator_apply:
  "testAllocator w = (Ptr (length w), w @ [\<lparr>ID = 0, Data = ''test'', shardIndex = - 1\<rparr>])"
  by (simp add: testAllocator_def)

lemma allocates_new_testAllocator: "allocates_new testAllocator"
  by (simp add: allocates_new_def testAllocator_def)

lemma alloc_seq_new:
  assumes "allocates_new alloc"
  shows "fst (alloc_seq alloc n w) = fresh_ptrs (length w) n \<and>
    length (snd (alloc_seq alloc n w)) = length w + n"
proof (induction n arbitrary: w)
  case 0
  then show ?case by (simp add: fresh_ptrs_def)
next
  case (Suc n)
  from assms obtain x where a: "alloc w = (Ptr (length w), w @ [x])"
    unfolding allocates_new_def by blast
  have u: "[length w..<Suc (length w + n)] = length w # [Suc (length w)..<Suc (length w + n)]"
    by (simp add: upt_conv_Cons del: upt_Suc)
  obtain objs w2 where b: "alloc_seq alloc n (w @ [x]) = (objs, w2)"
    by (cases "alloc_seq alloc n (w @ [x])")
  from Suc[of "w @ [x]"] a b u show ?case
    by (simp add: fresh_ptrs_def del: upt_Suc)
qed

lemma distinct_fresh_ptrs: "distinct (fresh_ptrs a n)"
  by (simp add: fresh_ptrs_def distinct_map inj_on_def)

lemma prepopulate_ring_contents:
  assumes "rb_inv rb" "size_rb rb + int n \<le> RingBuffer.capacity rb"
  obtains rb' where
    "prepopulate_ring alloc n rb w = Inr (rb', snd (alloc_seq alloc n w))" "rb_inv rb'"
    "rb_contents rb' = rb_contents rb @ fst (alloc_seq alloc n w)"
    "RingBuffer.capacity rb' = RingBuffer.capacity rb" "size_rb rb' = size_rb rb + int n"
proof -
  have "\<exists>rb'. prepopulate_ring alloc n rb w = Inr (rb', snd (alloc_seq alloc n w)) \<and> rb_inv rb' \<and>
    rb_contents rb' = rb_contents rb @ fst (alloc_seq alloc n w) \<and>
    RingBuffer.capacity rb' = RingBuffer.capacity rb \<and> size_rb rb' = size_rb rb + int n"
    using assms
  proof (induction n arbitrary: rb w)
    case 0
    then show ?case by simp
  next
    case (Suc n)
    obtain obj w1 where a: "alloc w = (obj, w1)" by (cases "alloc w")
    from Suc.prems have room: "size_rb rb < RingBuffer.capacity rb" by simp
    from Push_contents[OF Suc.prems(1) room, of obj]
    obtain rb1 where p: "Push rb obj = Inr (True, rb1)" "rb_inv rb1"
      "rb_contents rb1 = rb_contents rb @ [obj]"
      "RingBuffer.capacity rb1 = RingBuffer.capacity rb" "size_rb rb1 = size_rb rb + 1"
      by blast
    from Suc.prems p have "size_rb rb1 + int n \<le> RingBuffer.capacity rb1" by simp
    from Suc.IH[OF p(2) this, of w1] p a show ?case
      by (auto split: prod.splits)
  qed
  then show ?thesis using that by blast
qed

lemma repeat_Get_queue:
  fixes get :: "'p \<Rightarrow> heap \<Rightarrow> fault + (ptr \<times> 'p \<times> heap)"
  assumes step: "\<And>p w. I p \<Longrightarrow> cont p \<noteq> [] \<Longrightarrow>
      \<exists>p'. get p w = Inr (hd (cont p), p', w) \<and> I p' \<and> cont p' = tl (cont p)"
  assumes "I p" "n \<le> length (cont p)"
  shows "\<exists>p'. repeat_Get get n p w = Inr (take n (cont p), p', w) \<and> I p' \<and>
           cont p' = drop n (cont p)"
  using assms(2,3)
proof (induction n arbitrary: p)
  case 0
  then show ?case by simp
next
  case (Suc n)
  then have ne: "cont p \<noteq> []" by auto
  from step[OF Suc.prems(1) ne, of w]
  obtain p1 where g: "get p w = Inr (hd (cont p), p1, w)" "I p1" "cont p1 = tl (cont p)"
    by blast
  from Suc.prems g have "n \<le> length (cont p1)" by simp
  from Suc.IH[OF g(2) this] g ne show ?case
    by (auto simp: take_Suc drop_Suc)
qed

lemma new_ring_prepopulated:
  assumes "0 \<le> c"
  obtains rb rb' where "NewRingBuffer NilPtr c = Inr rb"
    "prepopulate_ring alloc (nat c) rb w = Inr (rb', snd (alloc_seq alloc (nat c) w))"
    "rb_inv rb'" "rb_contents rb' = fst (alloc_seq alloc (nat c) w)"
    "RingBuffer.capacity rb' = c" "size_rb rb' = c"
proof -
  from NewRingBuffer_ok[OF assms, of NilPtr]
  obtain rb where new: "NewRingBuffer NilPtr c = Inr rb" by blast
  note i = NewRingBuffer_inv[OF new]
  from i assms have "size_rb rb + int (nat c) \<le> RingBuffer.capacity rb" by simp
  from prepopulate_ring_contents[OF i(1) this, of alloc w]
  obtain rb' where "prepopulate_ring alloc (nat c) rb w = Inr (rb',
    snd (alloc_seq alloc (nat c) w))"
    "rb_inv rb'" "rb_contents rb' = rb_contents rb @ fst (alloc_seq alloc (nat c) w)"
    "RingBuffer.capacity rb' = RingBuffer.capacity rb" "size_rb rb' = size_rb rb + int (nat c)"
    by blast
  with i assms new that[of rb rb'] show ?thesis
    by (simp add: rb_contents_empty)
qed

subsection \<open>MutexRingBufferPool\<close>

lemma NewMutexRingBufferPool_ok:
  assumes "0 \<le> c"
  obtains p where
    "NewMutexRingBufferPool c alloc clean w = Inr (p, snd (alloc_seq alloc (nat c) w))"
    "rb_inv (MutexRingBufferPool.ringBuffer p)"
    "rb_contents (MutexRingBufferPool.ringBuffer p) = fst (alloc_seq alloc (nat c) w)"
    "RingBuffer.capacity (MutexRingBufferPool.ringBuffer p) = c"
    "size_rb (MutexRingBufferPool.ringBuffer p) = c"
    "MutexRingBufferPool.allocator p = alloc" "MutexRingBufferPool.cleaner p = clean"
proof -
  from new_ring_prepopulated[OF assms, of alloc w]
  obtain rb rb' where r: "NewRingBuffer NilPtr c = Inr rb"
    "prepopulate_ring alloc (nat c) rb w = Inr (rb', snd (alloc_seq alloc (nat c) w))"
    "rb_inv rb'" "rb_contents rb' = fst (alloc_seq alloc (nat c) w)"
    "RingBuffer.capacity rb' = c" "size_rb rb' = c"
    by blast
  show ?thesis
    by (rule that[of "\<lparr>MutexRingBufferPool.ringBuffer = rb',
          MutexRingBufferPool.allocator = alloc, MutexRingBufferPool.cleaner = clean\<rparr>"])
      (simp_all add: NewMutexRingBufferPool_def r)
qed

lemma MutexRingBufferPool_Get_some:
  assumes "rb_inv (MutexRingBufferPool.ringBuffer p)"
    "0 < size_rb (MutexRingBufferPool.ringBuffer p)"
  obtains rb' where "MutexRingBufferPool_Get p w =
      Inr (hd (rb_contents (MutexRingBufferPool.ringBuffer p)),
           p\<lparr>MutexRingBufferPool.ringBuffer := rb'\<rparr>, w)"
    "rb_inv rb'" "rb_contents rb' = tl (rb_contents (MutexRingBufferPool.ringBuffer p))"
    "RingBuffer.capacity rb' = RingBuffer.capacity (MutexRingBufferPool.ringBuffer p)"
    "size_rb rb' = size_rb (MutexRingBufferPool.ringBuffer p) - 1"
proof -
  from Pop_contents[OF assms, of NilPtr]
  obtain rb' where r: "Pop NilPtr (MutexRingBufferPool.ringBuffer p) =
      Inr (hd (rb_contents (MutexRingBufferPool.ringBuffer p)), True, rb')"
    "rb_inv rb'" "rb_contents rb' = tl (rb_contents (MutexRingBufferPool.ringBuffer p))"
    "RingBuffer.capacity rb' = RingBuffer.capacity (MutexRingBufferPool.ringBuffer p)"
    "size_rb rb' = size_rb (MutexRingBufferPool.ringBuffer p) - 1"
    by blast
  show ?thesis
    by (rule that[of rb']) (simp_all add: MutexRingBufferPool_Get_def r)
qed

lemma MutexRingBufferPool_Get_empty:
  assumes "rb_inv (MutexRingBufferPool.ringBuffer p)"
    "size_rb (MutexRingBufferPool.ringBuffer p) = 0"
  shows "MutexRingBufferPool_Get p w =
    Inr (fst (MutexRingBufferPool.allocator p w), p, snd (MutexRingBufferPool.allocator p w))"
  using Pop_empty[OF assms, of NilPtr]
  by (simp add: MutexRingBufferPool_Get_def split: prod.splits)

lemma MutexRingBufferPool_Put_room:
  assumes "rb_inv (MutexRingBufferPool.ringBuffer p)"
    "size_rb (MutexRingBufferPool.ringBuffer p) < RingBuffer.capacity (MutexRingBufferPool.ringBuffer p)"
  obtains rb' where "MutexRingBufferPool_Put p obj w =
      Inr (p\<lparr>MutexRingBufferPool.ringBuffer := rb'\<rparr>, w)"
    "rb_inv rb'" "rb_contents rb' = rb_contents (MutexRingBufferPool.ringBuffer p) @ [obj]"
    "RingBuffer.capacity rb' = RingBuffer.capacity (MutexRingBufferPool.ringBuffer p)"
    "size_rb rb' = size_rb (MutexRingBufferPool.ringBuffer p) + 1"
proof -
  from Push_contents[OF assms, of obj]
  obtain rb' where r: "Push (MutexRingBufferPool.ringBuffer p) obj = Inr (True, rb')"
    "rb_inv rb'" "rb_contents rb' = rb_contents (MutexRingBufferPool.ringBuffer p) @ [obj]"
    "RingBuffer.capacity rb' = RingBuffer.capacity (MutexRingBufferPool.ringBuffer p)"
    "size_rb rb' = size_rb (MutexRingBufferPool.ringBuffer p) + 1"
    by blast
  show ?thesis
    by (rule that[of rb']) (simp_all add: MutexRingBufferPool_Put_def r)
qed

lemma MutexRingBufferPool_Put_full:
  assumes "rb_inv (MutexRingBufferPool.ringBuffer p)"
    "size_rb (MutexRingBufferPool.ringBuffer p) = RingBuffer.capacity (MutexRingBufferPool.ringBuffer p)"
  shows "MutexRingBufferPool_Put p obj w = Inr (p, w)"
  using Push_full[OF assms, of obj] by (simp add: MutexRingBufferPool_Put_def)

subsection \<open>RWMutexRingBufferPool\<close>

lemma NewRWMutexRingBufferPool_ok:
  assumes "0 \<le> c"
  obtains p where
    "NewRWMutexRingBufferPool c alloc clean w = Inr (p, snd (alloc_seq alloc (nat c) w))"
    "rb_inv (RWMutexRingBufferPool.ringBuffer p)"
    "rb_contents (RWMutexRingBufferPool.ringBuffer p) = fst (alloc_seq alloc (nat c) w)"
    "RingBuffer.capacity (RWMutexRingBufferPool.ringBuffer p) = c"
    "size_rb (RWMutexRingBufferPool.ringBuffer p) = c"
    "RWMutexRingBufferPool.allocator p = alloc" "RWMutexRingBufferPool.cleaner p = clean"
proof -
  from new_ring_prepopulated[OF assms, of alloc w]
  obtain rb rb' where r: "NewRingBuffer NilPtr c = Inr rb"
    "prepopulate_ring alloc (nat c) rb w = Inr (rb', snd (alloc_seq alloc (nat c) w))"
    "rb_inv rb'" "rb_contents rb' = fst (alloc_seq alloc (nat c) w)"
    "RingBuffer.capacity rb' = c" "size_rb rb' = c"
    by blast
  show ?thesis
    by (rule that[of "\<lparr>RWMutexRingBufferPool.ringBuffer = rb',
          RWMutexRingBufferPool.allocator = alloc, RWMutexRingBufferPool.cleaner = clean\<rparr>"])
      (simp_all add: NewRWMutexRingBufferPool_def r)
qed

lemma RWMutexRingBufferPool_Get_some:
  assumes "rb_inv (RWMutexRingBufferPool.ringBuffer p)"
    "0 < size_rb (RWMutexRingBufferPool.ringBuffer p)"
  obtains rb' where "RWMutexRingBufferPool_Get p w =
      Inr (hd (rb_contents (RWMutexRingBufferPool.ringBuffer p)),
           p\<lparr>RWMutexRingBufferPool.ringBuffer := rb'\<rparr>, w)"
    "rb_inv rb'" "rb_contents rb' = tl (rb_contents (RWMutexRingBufferPool.ringBuffer p))"
    "RingBuffer.capacity rb' = RingBuffer.capacity (RWMutexRingBufferPool.ringBuffer p)"
    "size_rb rb' = size_rb (RWMutexRingBufferPool.ringBuffer p) - 1"
proof -
  from Pop_contents[OF assms, of NilPtr]
  obtain rb' where r: "Pop NilPtr (RWMutexRingBufferPool.ringBuffer p) =
      Inr (hd (rb_contents (RWMutexRingBufferPool.ringBuffer p)), True, rb')"
    "rb_inv rb'" "rb_contents rb' = tl (rb_contents (RWMutexRingBufferPool.ringBuffer p))"
    "RingBuffer.capacity rb' = RingBuffer.capacity (RWMutexRingBufferPool.ringBuffer p)"
    "size_rb rb' = size_rb (RWMutexRingBufferPool.ringBuffer p) - 1"
    by blast
  show ?thesis
    by (rule that[of rb']) (simp_all add: RWMutexRingBufferPool_Get_def r)
qed

lemma RWMutexRingBufferPool_Get_empty:
  assumes "rb_inv (RWMutexRingBufferPool.ringBuffer p)"
    "size_rb (RWMutexRingBufferPool.ringBuffer p) = 0"
  shows "RWMutexRingBufferPool_Get p w =
    Inr (fst (RWMutexRingBufferPool.allocator p w), p, snd (RWMutexRingBufferPool.allocator p w))"
  using Pop_empty[OF assms, of NilPtr]
  by (simp add: RWMutexRingBufferPool_Get_def split: prod.splits)

lemma RWMutexRingBufferPool_Put_room:
  assumes "rb_inv (RWMutexRingBufferPool.ringBuffer p)"
    "size_rb (RWMutexRingBufferPool.ringBuffer p) < RingBuffer.capacity (RWMutexRingBufferPool.ringBuffer p)"
  obtains rb' where "RWMutexRingBufferPool_Put p obj w =
      Inr (p\<lparr>RWMutexRingBufferPool.ringBuffer := rb'\<rparr>, w)"
    "rb_inv rb'" "rb_contents rb' = rb_contents (RWMutexRingBufferPool.ringBuffer p) @ [obj]"
    "RingBuffer.capacity rb' = RingBuffer.capacity (RWMutexRingBufferPool.ringBuffer p)"
    "size_rb rb' = size_rb (RWMutexRingBufferPool.ringBuffer p) + 1"
proof -
  from Push_contents[OF assms, of obj]
  obtain rb' where r: "Push (RWMutexRingBufferPool.ringBuffer p) obj = Inr (True, rb')"
    "rb_inv rb'" "rb_contents rb' = rb_contents (RWMutexRingBufferPool.ringBuffer p) @ [obj]"
    "RingBuffer.capacity rb' = RingBuffer.capacity (RWMutexRingBufferPool.ringBuffer p)"
    "size_rb rb' = size_rb (RWMutexRingBufferPool.ringBuffer p) + 1"
    by blast
  show ?thesis
    by (rule that[of rb']) (simp_all add: RWMutexRingBufferPool_Put_def r)
qed

lemma RWMutexRingBufferPool_Put_full:
  assumes "rb_inv (RWMutexRingBufferPool.ringBuffer p)"
    "size_rb (RWMutexRingBufferPool.ringBuffer p) = RingBuffer.capacity (RWMutexRingBufferPool.ringBuffer p)"
  shows "RWMutexRingBufferPool_Put p obj w = Inr (p, w)"
  using Push_full[OF assms, of obj] by (simp add: RWMutexRingBufferPool_Put_def)


subsection \<open>RingBufferCondPool\<close>

lemma NewRingBufferCondPool_ok:
  assumes "0 \<le> c"
  obtains p where
    "NewRingBufferCondPool c alloc clean w = Inr (p, snd (alloc_seq alloc (nat c) w))"
    "rb_inv (RingBufferCondPool.ringBuffer p)"
    "rb_contents (RingBufferCondPool.ringBuffer p) = fst (alloc_seq alloc (nat c) w)"
    "RingBuffer.capacity (RingBufferCondPool.ringBuffer p) = c"
    "size_rb (RingBufferCondPool.ringBuffer p) = c"
    "RingBufferCondPool.allocator p = alloc" "RingBufferCondPool.cleaner p = clean"
proof -
  from new_ring_prepopulated[OF assms, of alloc w]
  obtain rb rb' where r: "NewRingBuffer NilPtr c = Inr rb"
    "prepopulate_ring alloc (nat c) rb w = Inr (rb', snd (alloc_seq alloc (nat c) w))"
    "rb_inv rb'" "rb_contents rb' = fst (alloc_seq alloc (nat c) w)"
    "RingBuffer.capacity rb' = c" "size_rb rb' = c"
    by blast
  show ?thesis
    by (rule that[of "\<lparr>RingBufferCondPool.ringBuffer = rb',
          RingBufferCondPool.allocator = alloc, RingBufferCondPool.cleaner = clean\<rparr>"])
      (simp_all add: NewRingBufferCondPool_def r)
qed

lemma RingBufferCondPool_Get_some:
  assumes "rb_inv (RingBufferCondPool.ringBuffer p)"
    "0 < size_rb (RingBufferCondPool.ringBuffer p)"
  obtains rb' where "RingBufferCondPool_Get p w =
      Inr (hd (rb_contents (RingBufferCondPool.ringBuffer p)),
           p\<lparr>RingBufferCondPool.ringBuffer := rb'\<rparr>, w)"
    "rb_inv rb'" "rb_contents rb' = tl (rb_contents (RingBufferCondPool.ringBuffer p))"
    "RingBuffer.capacity rb' = RingBuffer.capacity (RingBufferCondPool.ringBuffer p)"
    "size_rb rb' = size_rb (RingBufferCondPool.ringBuffer p) - 1"
proof -
  from Pop_contents[OF assms, of NilPtr]
  obtain rb' where r: "Pop NilPtr (RingBufferCondPool.ringBuffer p) =
      Inr (hd (rb_contents (RingBufferCondPool.ringBuffer p)), True, rb')"
    "rb_inv rb'" "rb_contents rb' = tl (rb_contents (RingBufferCondPool.ringBuffer p))"
    "RingBuffer.capacity rb' = RingBuffer.capacity (RingBufferCondPool.ringBuffer p)"
    "size_rb rb' = size_rb (RingBufferCondPool.ringBuffer p) - 1"
    by blast
  show ?thesis
    by (rule that[of rb']) (use assms(2) in \<open>simp_all add: RingBufferCondPool_Get_def IsEmpty_def r\<close>)
qed

lemma RingBufferCondPool_Get_empty:
  assumes "size_rb (RingBufferCondPool.ringBuffer p) = 0"
  shows "RingBufferCondPool_Get p w = Inl Blocked"
  using assms by (simp add: RingBufferCondPool_Get_def IsEmpty_def)

lemma RingBufferCondPool_Put_room:
  assumes "rb_inv (RingBufferCondPool.ringBuffer p)"
    "size_rb (RingBufferCondPool.ringBuffer p) < RingBuffer.capacity (RingBufferCondPool.ringBuffer p)"
  obtains rb' where "RingBufferCondPool_Put p obj w =
      Inr (p\<lparr>RingBufferCondPool.ringBuffer := rb'\<rparr>, w)"
    "rb_inv rb'" "rb_contents rb' = rb_contents (RingBufferCondPool.ringBuffer p) @ [obj]"
    "RingBuffer.capacity rb' = RingBuffer.capacity (RingBufferCondPool.ringBuffer p)"
    "size_rb rb' = size_rb (RingBufferCondPool.ringBuffer p) + 1"
proof -
  from Push_contents[OF assms, of obj]
  obtain rb' where r: "Push (RingBufferCondPool.ringBuffer p) obj = Inr (True, rb')"
    "rb_inv rb'" "rb_contents rb' = rb_contents (RingBufferCondPool.ringBuffer p) @ [obj]"
    "RingBuffer.capacity rb' = RingBuffer.capacity (RingBufferCondPool.ringBuffer p)"
    "size_rb rb' = size_rb (RingBufferCondPool.ringBuffer p) + 1"
    by blast
  show ?thesis
    by (rule that[of rb']) (use assms(2) in \<open>simp_all add: RingBufferCondPool_Put_def IsFull_def r\<close>)
qed

lemma RingBufferCondPool_Put_full:
  assumes "rb_inv (RingBufferCondPool.ringBuffer p)"
    "size_rb (RingBufferCondPool.ringBuffer p) = RingBuffer.capacity (RingBufferCondPool.ringBuffer p)"
  shows "RingBufferCondPool_Put p obj w = Inr (p, w)"
  using assms(2) by (simp add: RingBufferCondPool_Put_def IsFull_def)

subsection \<open>ChannelBasedPool\<close>

lemma prepopulate_chan_ok:
  assumes "int (length (queue c)) + int n \<le> chan_cap c"
  shows "prepopulate_chan alloc n c w =
    Inr (c\<lparr>queue := queue c @ fst (alloc_seq alloc n w)\<rparr>, snd (alloc_seq alloc n w))"
  using assms
proof (induction n arbitrary: c w)
  case 0
  then show ?case by simp
next
  case (Suc n)
  obtain obj w1 where a: "alloc w = (obj, w1)" by (cases "alloc w")
  from Suc.prems have s: "chan_send c obj = Inr (c\<lparr>queue := queue c @ [obj]\<rparr>)"
    by (simp add: chan_send_def)
  from Suc.prems
  have "int (length (queue (c\<lparr>queue := queue c @ [obj]\<rparr>))) + int n
      \<le> chan_cap (c\<lparr>queue := queue c @ [obj]\<rparr>)"
    by simp
  from Suc.IH[OF this, of w1] a s show ?case
    by (simp split: prod.splits)
qed

lemma NewChannelBasedPool_ok:
  assumes "0 \<le> c"
  shows "NewChannelBasedPool c alloc clean w =
    Inr (\<lparr>ChannelBasedPool.objects = \<lparr>queue = fst (alloc_seq alloc (nat c) w), chan_cap = c\<rparr>,
          ChannelBasedPool.allocator = alloc, ChannelBasedPool.cleaner = clean\<rparr>,
         snd (alloc_seq alloc (nat c) w))"
proof -
  from assms have m: "make_chan c = Inr \<lparr>queue = [] :: ptr list, chan_cap = c\<rparr>"
    by (simp add: make_chan_def)
  from assms have "int (length (queue \<lparr>queue = [] :: ptr list, chan_cap = c\<rparr>)) + int (nat c)
      \<le> chan_cap \<lparr>queue = [] :: ptr list, chan_cap = c\<rparr>"
    by simp
  from prepopulate_chan_ok[OF this, of alloc w] m show ?thesis
    by (simp add: NewChannelBasedPool_def)
qed

lemma ChannelBasedPool_Get_some:
  assumes "queue (ChannelBasedPool.objects p) \<noteq> []"
  shows "ChannelBasedPool_Get p w =
    Inr (hd (queue (ChannelBasedPool.objects p)),
         p\<lparr>ChannelBasedPool.objects :=
             (ChannelBasedPool.objects p)\<lparr>queue := tl (queue (ChannelBasedPool.objects p))\<rparr>\<rparr>, w)"
  using assms
  by (cases "queue (ChannelBasedPool.objects p)")
     (simp_all add: ChannelBasedPool_Get_def chan_try_recv_def)

lemma ChannelBasedPool_Get_empty:
  assumes "queue (ChannelBasedPool.objects p) = []"
  shows "ChannelBasedPool_Get p w =
    Inr (fst (ChannelBasedPool.allocator p w), p, snd (ChannelBasedPool.allocator p w))"
  using assms
  by (simp add: ChannelBasedPool_Get_def chan_try_recv_def split: prod.splits)

lemma ChannelBasedPool_Put_room:
  assumes "ChannelBasedPool.cleaner p obj w = Inr w'"
    "int (length (queue (ChannelBasedPool.objects p))) < chan_cap (ChannelBasedPool.objects p)"
  shows "ChannelBasedPool_Put p obj w =
    Inr (p\<lparr>ChannelBasedPool.objects :=
             (ChannelBasedPool.objects p)\<lparr>queue := queue (ChannelBasedPool.objects p) @ [obj]\<rparr>\<rparr>,
               w')"
  using assms by (simp add: ChannelBasedPool_Put_def chan_send_def)

lemma ChannelBasedPool_Put_full:
  assumes "ChannelBasedPool.cleaner p obj w = Inr w'"
    "int (length (queue (ChannelBasedPool.objects p))) = chan_cap (ChannelBasedPool.objects p)"
  shows "ChannelBasedPool_Put p obj w = Inl Blocked"
  using assms by (simp add: ChannelBasedPool_Put_def chan_send_def)

subsection \<open>Slices\<close>

lemma prepopulate_slice_ok:
  assumes "len s + int n \<le> slice_cap s"
  shows "prepopulate_slice alloc n s w =
    (s\<lparr>elems := elems s @ fst (alloc_seq alloc n w)\<rparr>, snd (alloc_seq alloc n w))"
  using assms
proof (induction n arbitrary: s w)
  case 0
  then show ?case by simp
next
  case (Suc n)
  obtain obj w1 where a: "alloc w = (obj, w1)" by (cases "alloc w")
  from Suc.prems have s: "slice_append s obj = s\<lparr>elems := elems s @ [obj]\<rparr>"
    by (simp add: slice_append_def len_def)
  from Suc.prems
  have "len (s\<lparr>elems := elems s @ [obj]\<rparr>) + int n \<le> slice_cap (s\<lparr>elems := elems s @ [obj]\<rparr>)"
    by (simp add: len_def)
  from Suc.IH[OF this, of w1] a s show ?case
    by (simp split: prod.splits)
qed

lemma slice_pop_last:
  assumes "elems s \<noteq> []" "len s \<le> slice_cap s"
  shows "at_index (elems s) (len s - 1) = Inr (last (elems s))"
    "slice_to s (len s - 1) = Inr (s\<lparr>elems := butlast (elems s)\<rparr>)"
proof -
  from assms(1) have pos: "0 < length (elems s)" by simp
  then have n: "nat (int (length (elems s)) - 1) = length (elems s) - 1"
    by simp
  from pos show "at_index (elems s) (len s - 1) = Inr (last (elems s))"
    using assms(1) by (simp add: at_index_def len_def n last_conv_nth)
  from pos assms(2) show "slice_to s (len s - 1) = Inr (s\<lparr>elems := butlast (elems s)\<rparr>)"
    by (simp add: slice_to_def len_def n butlast_conv_take)
qed

subsection \<open>MutexBasedPool\<close>

lemma NewMutexBasedPool_ok:
  assumes "0 \<le> c"
  shows "NewMutexBasedPool c alloc clean w =
    Inr (\<lparr>MutexBasedPool.objects = \<lparr>elems = fst (alloc_seq alloc (nat c) w), slice_cap = c\<rparr>,
          MutexBasedPool.allocator = alloc, MutexBasedPool.cleaner = clean\<rparr>,
         snd (alloc_seq alloc (nat c) w))"
proof -
  from assms have m: "make_slice_cap c = Inr \<lparr>elems = [] :: ptr list, slice_cap = c\<rparr>"
    by (simp add: make_slice_cap_def)
  from assms have "len \<lparr>elems = [] :: ptr list, slice_cap = c\<rparr> + int (nat c)
      \<le> slice_cap \<lparr>elems = [] :: ptr list, slice_cap = c\<rparr>"
    by (simp add: len_def)
  from prepopulate_slice_ok[OF this, of alloc w] m show ?thesis
    by (simp add: NewMutexBasedPool_def)
qed

lemma MutexBasedPool_Get_some:
  assumes "elems (MutexBasedPool.objects p) \<noteq> []"
    "len (MutexBasedPool.objects p) \<le> slice_cap (MutexBasedPool.objects p)"
  shows "MutexBasedPool_Get p w =
    Inr (last (elems (MutexBasedPool.objects p)),
         p\<lparr>MutexBasedPool.objects :=
             (MutexBasedPool.objects p)\<lparr>elems := butlast (elems (MutexBasedPool.objects p))\<rparr>\<rparr>, w)"
proof -
  from assms(1) have "len (MutexBasedPool.objects p) \<noteq> 0" by (simp add: len_def)
  with slice_pop_last[OF assms] show ?thesis
    by (simp add: MutexBasedPool_Get_def)
qed

lemma MutexBasedPool_Get_empty:
  assumes "elems (MutexBasedPool.objects p) = []"
  shows "MutexBasedPool_Get p w =
    Inr (fst (MutexBasedPool.allocator p w), p, snd (MutexBasedPool.allocator p w))"
  using assms by (simp add: MutexBasedPool_Get_def len_def split: prod.splits)

lemma MutexBasedPool_Put_room:
  assumes "len (MutexBasedPool.objects p) < slice_cap (MutexBasedPool.objects p)"
  shows "MutexBasedPool_Put p obj w =
    Inr (p\<lparr>MutexBasedPool.objects :=
             (MutexBasedPool.objects p)\<lparr>elems := elems (MutexBasedPool.objects p) @ [obj]\<rparr>\<rparr>, w)"
  using assms by (simp add: MutexBasedPool_Put_def slice_append_def)

lemma MutexBasedPool_Put_full:
  assumes "len (MutexBasedPool.objects p) = slice_cap (MutexBasedPool.objects p)"
  shows "MutexBasedPool_Put p obj w = Inr (p, w)"
  using assms by (simp add: MutexBasedPool_Put_def)

subsection \<open>CondBasedPool\<close>

lemma NewCondBasedPool_ok:
  assumes "0 \<le> c"
  shows "NewCondBasedPool c alloc clean w =
    Inr (\<lparr>CondBasedPool.objects = \<lparr>elems = fst (alloc_seq alloc (nat c) w), slice_cap = c\<rparr>,
          CondBasedPool.allocator = alloc, CondBasedPool.cleaner = clean\<rparr>,
         snd (alloc_seq alloc (nat c) w))"
proof -
  from assms have m: "make_slice_cap c = Inr \<lparr>elems = [] :: ptr list, slice_cap = c\<rparr>"
    by (simp add: make_slice_cap_def)
  from assms have "len \<lparr>elems = [] :: ptr list, slice_cap = c\<rparr> + int (nat c)
      \<le> slice_cap \<lparr>elems = [] :: ptr list, slice_cap = c\<rparr>"
    by (simp add: len_def)
  from prepopulate_slice_ok[OF this, of alloc w] m show ?thesis
    by (simp add: NewCondBasedPool_def)
qed

lemma CondBasedPool_Get_some:
  assumes "elems (CondBasedPool.objects p) \<noteq> []"
    "len (CondBasedPool.objects p) \<le> slice_cap (CondBasedPool.objects p)"
  shows "CondBasedPool_Get p w =
    Inr (last (elems (CondBasedPool.objects p)),
         p\<lparr>CondBasedPool.objects :=
             (CondBasedPool.objects p)\<lparr>elems := butlast (elems (CondBasedPool.objects p))\<rparr>\<rparr>, w)"
proof -
  from assms(1) have "len (CondBasedPool.objects p) \<noteq> 0" by (simp add: len_def)
  with slice_pop_last[OF assms] show ?thesis
    by (simp add: CondBasedPool_Get_def)
qed

lemma CondBasedPool_Get_empty:
  assumes "elems (CondBasedPool.objects p) = []"
  shows "CondBasedPool_Get p w = Inl Blocked"
  using assms by (simp add: CondBasedPool_Get_def len_def)

lemma CondBasedPool_Put_room:
  assumes "len (CondBasedPool.objects p) < slice_cap (CondBasedPool.objects p)"
  shows "CondBasedPool_Put p obj w =
    Inr (p\<lparr>CondBasedPool.objects :=
             (CondBasedPool.objects p)\<lparr>elems := elems (CondBasedPool.objects p) @ [obj]\<rparr>\<rparr>, w)"
  using assms by (simp add: CondBasedPool_Put_def slice_append_def)

lemma CondBasedPool_Put_full:
  assumes "len (CondBasedPool.objects p) = slice_cap (CondBasedPool.objects p)"
  shows "CondBasedPool_Put p obj w = Inr (p, w)"
  using assms by (simp add: CondBasedPool_Put_def)

subsection \<open>AtomicBasedPool\<close>

lemma prepopulate_array_ok:
  assumes "i + n \<le> length objs"
  shows "prepopulate_array alloc n (int i) objs w =
    Inr (take i objs @ fst (alloc_seq alloc n w) @ drop (i + n) objs, snd (alloc_seq alloc n w))"
  using assms
proof (induction n arbitrary: i objs w)
  case 0
  then show ?case by simp
next
  case (Suc n)
  obtain obj w1 where a: "alloc w = (obj, w1)" by (cases "alloc w")
  obtain objs1 w2 where b: "alloc_seq alloc n w1 = (objs1, w2)" by (cases "alloc_seq alloc n w1")
  from Suc.prems have s: "set_index objs (int i) obj = Inr (objs[i := obj])"
    by (simp add: set_index_def)
  from Suc.prems have l: "Suc i + n \<le> length (objs[i := obj])" by simp
  from Suc.prems have i: "i < length objs" by simp
  have t: "take (Suc i) (objs[i := obj]) = take i objs @ [obj]"
    using i by (simp add: take_Suc_conv_app_nth)
  from Suc.IH[OF l, of w1] a b s t show ?case
    by (simp add: add.commute)
qed

lemma NewAtomicBasedPool_ok:
  assumes "0 \<le> c"
  shows "NewAtomicBasedPool c alloc clean w =
    Inr (\<lparr>AtomicBasedPool.objects = fst (alloc_seq alloc (nat c) w), index = c,
          AtomicBasedPool.capacity = c,
          AtomicBasedPool.allocator = alloc, AtomicBasedPool.cleaner = clean\<rparr>,
         snd (alloc_seq alloc (nat c) w))"
proof -
  from assms have m: "make_slice NilPtr c = Inr (replicate (nat c) NilPtr)"
    by (simp add: make_slice_def)
  have "0 + nat c \<le> length (replicate (nat c) NilPtr)" by simp
  from prepopulate_array_ok[OF this, of alloc w] m show ?thesis
    by (simp add: NewAtomicBasedPool_def Store_def alloc_seq_length case_prod_beta)
qed

lemma AtomicBasedPool_Get_some:
  assumes "atomic_inv p" "0 < index p"
  shows "AtomicBasedPool_Get p w =
    Inr (AtomicBasedPool.objects p ! nat (index p - 1), p\<lparr>index := index p - 1\<rparr>, w)"
  using assms
  by (subst AtomicBasedPool_Get.simps)
     (simp add: Load_def CompareAndSwap_def at_index_def atomic_inv_def Let_def)

lemma AtomicBasedPool_Get_empty:
  assumes "index p \<le> 0"
  shows "AtomicBasedPool_Get p w =
    Inr (fst (AtomicBasedPool.allocator p w), p, snd (AtomicBasedPool.allocator p w))"
  using assms
  by (subst AtomicBasedPool_Get.simps) (simp add: Load_def Let_def split: prod.splits)

lemma AtomicBasedPool_Put_room:
  assumes "atomic_inv p" "index p < AtomicBasedPool.capacity p"
  shows "AtomicBasedPool_Put p obj w =
    Inr (p\<lparr>AtomicBasedPool.objects := (AtomicBasedPool.objects p)[nat (index p) := obj],
           index := index p + 1\<rparr>, w)"
  using assms
  by (subst AtomicBasedPool_Put.simps)
     (simp add: Load_def CompareAndSwap_def set_index_def atomic_inv_def Let_def)

lemma AtomicBasedPool_Put_full:
  assumes "AtomicBasedPool.capacity p \<le> index p"
  shows "AtomicBasedPool_Put p obj w = Inr (p, w)"
  using assms
  by (subst AtomicBasedPool_Put.simps) (simp add: Load_def Let_def)

lemma atomic_contents_Get:
  assumes "atomic_inv p" "0 < index p"
  shows "AtomicBasedPool.objects p ! nat (index p - 1) = last (atomic_contents p)"
    "atomic_contents (p\<lparr>index := index p - 1\<rparr>) = butlast (atomic_contents p)"
    "atomic_inv (p\<lparr>index := index p - 1\<rparr>)"
proof -
  from assms have n: "nat (index p) \<le> length (AtomicBasedPool.objects p)" "0 < nat (index p)"
    unfolding atomic_inv_def by arith+
  then have ne: "take (nat (index p)) (AtomicBasedPool.objects p) \<noteq> []" by auto
  have m: "nat (index p - 1) = nat (index p) - 1" by simp
  from n ne show "AtomicBasedPool.objects p ! nat (index p - 1) = last (atomic_contents p)"
    by (simp add: atomic_contents_def last_conv_nth m)
  from n show "atomic_contents (p\<lparr>index := index p - 1\<rparr>) = butlast (atomic_contents p)"
    by (simp add: atomic_contents_def butlast_take m)
  from assms show "atomic_inv (p\<lparr>index := index p - 1\<rparr>)"
    by (simp add: atomic_inv_def)
qed

lemma atomic_contents_Put:
  assumes "atomic_inv p" "index p < AtomicBasedPool.capacity p"
  shows "atomic_contents
      (p\<lparr>AtomicBasedPool.objects := (AtomicBasedPool.objects p)[nat (index p) := obj],
         index := index p + 1\<rparr>) = atomic_contents p @ [obj]"
    "atomic_inv
      (p\<lparr>AtomicBasedPool.objects := (AtomicBasedPool.objects p)[nat (index p) := obj],
         index := index p + 1\<rparr>)"
proof -
  from assms have n: "nat (index p) < length (AtomicBasedPool.objects p)" "0 \<le> index p"
    unfolding atomic_inv_def by arith+
  then have m: "nat (index p + 1) = Suc (nat (index p))" by simp
  from n show "atomic_contents
      (p\<lparr>AtomicBasedPool.objects := (AtomicBasedPool.objects p)[nat (index p) := obj],
         index := index p + 1\<rparr>) = atomic_contents p @ [obj]"
    by (simp add: atomic_contents_def m take_Suc_conv_app_nth)
  from assms show "atomic_inv
      (p\<lparr>AtomicBasedPool.objects := (AtomicBasedPool.objects p)[nat (index p) := obj],
         index := index p + 1\<rparr>)"
    by (simp add: atomic_inv_def)
qed

subsection \<open>Sequences of calls\<close>

lemma run_ops_total:
  fixes get :: "'p \<Rightarrow> heap \<Rightarrow> fault + (ptr \<times> 'p \<times> heap)"
    and put :: "'p \<Rightarrow> ptr \<Rightarrow> heap \<Rightarrow> fault + ('p \<times> heap)"
  assumes g: "\<And>p w. I p \<Longrightarrow> \<exists>r p' w'. get p w = Inr (r, p', w') \<and> I p'"
    and pt: "\<And>p x w. I p \<Longrightarrow> \<exists>p' w'. put p x w = Inr (p', w') \<and> I p'"
    and "I p"
  shows "\<exists>p' w'. run_ops get put ops p w = Inr (p', w') \<and> I p'"
  using assms(3)
proof (induction ops arbitrary: p w)
  case Nil
  then show ?case by simp
next
  case (Cons a ops)
  show ?case
  proof (cases a)
    case DoGet
    from g[OF Cons.prems, of w] obtain r p1 w1 where "get p w = Inr (r, p1, w1)" "I p1"
      by blast
    with Cons.IH[of p1 w1] DoGet show ?thesis by simp
  next
    case (DoPut x)
    from pt[OF Cons.prems, of x w] obtain p1 w1 where "put p x w = Inr (p1, w1)" "I p1"
      by blast
    with Cons.IH[of p1 w1] DoPut show ?thesis by simp
  qed
qed

lemma run_ops_preserves:
  fixes get :: "'p \<Rightarrow> heap \<Rightarrow> fault + (ptr \<times> 'p \<times> heap)"
    and put :: "'p \<Rightarrow> ptr \<Rightarrow> heap \<Rightarrow> fault + ('p \<times> heap)"
  assumes g: "\<And>p w r p' w'. I p \<Longrightarrow> get p w = Inr (r, p', w') \<Longrightarrow> I p'"
    and pt: "\<And>p x w p' w'. I p \<Longrightarrow> put p x w = Inr (p', w') \<Longrightarrow> I p'"
    and "I p" "run_ops get put ops p w = Inr (p', w')"
  shows "I p'"
  using assms(3,4)
proof (induction ops arbitrary: p w)
  case Nil
  then show ?case by simp
next
  case (Cons a ops)
  show ?case
  proof (cases a)
    case DoGet
    with Cons.prems(2) obtain r p1 w1 where s: "get p w = Inr (r, p1, w1)"
      "run_ops get put ops p1 w1 = Inr (p', w')"
      by (auto split: sum.splits)
    from Cons.IH[OF g[OF Cons.prems(1) s(1)] s(2)] show ?thesis .
  next
    case (DoPut x)
    with Cons.prems(2) obtain p1 w1 where s: "put p x w = Inr (p1, w1)"
      "run_ops get put ops p1 w1 = Inr (p', w')"
      by (auto split: sum.splits)
    from Cons.IH[OF pt[OF Cons.prems(1) s(1)] s(2)] show ?thesis .
  qed
qed

lemma repeat_Put_Get_total:
  fixes get :: "'p \<Rightarrow> heap \<Rightarrow> fault + (ptr \<times> 'p \<times> heap)"
    and put :: "'p \<Rightarrow> ptr \<Rightarrow> heap \<Rightarrow> fault + ('p \<times> heap)"
  assumes step: "\<And>p w. I p \<Longrightarrow>
      \<exists>r p1 w1 p2 w2. get p w = Inr (r, p1, w1) \<and> put p1 r w1 = Inr (p2, w2) \<and> I p2"
    and "I p"
  shows "\<exists>p' w'. repeat_Put_Get get put n p w = Inr (p', w') \<and> I p'"
  using assms(2)
proof (induction n arbitrary: p w)
  case 0
  then show ?case by simp
next
  case (Suc n)
  from step[OF Suc.prems, of w] obtain r p1 w1 p2 w2 where
    "get p w = Inr (r, p1, w1)" "put p1 r w1 = Inr (p2, w2)" "I p2"
    by blast
  with Suc.IH[of p2 w2] show ?case by simp
qed

subsection \<open>The lock-free pool keeps its invariant\<close>

lemma AtomicBasedPool_Get_eq:
  assumes "atomic_inv p"
  shows "AtomicBasedPool_Get p w =
    (if index p \<le> 0
     then Inr (fst (AtomicBasedPool.allocator p w), p, snd (AtomicBasedPool.allocator p w))
     else Inr (AtomicBasedPool.objects p ! nat (index p - 1), p\<lparr>index := index p - 1\<rparr>, w))"
  using AtomicBasedPool_Get_some[OF assms] AtomicBasedPool_Get_empty[of p]
  by simp

lemma AtomicBasedPool_Put_eq:
  assumes "atomic_inv p"
  shows "AtomicBasedPool_Put p obj w =
    (if index p \<ge> AtomicBasedPool.capacity p then Inr (p, w)
     else Inr (p\<lparr>AtomicBasedPool.objects := (AtomicBasedPool.objects p)[nat (index p) := obj],
                index := index p + 1\<rparr>, w))"
  using AtomicBasedPool_Put_room[OF assms] AtomicBasedPool_Put_full[of p]
  by simp

lemma AtomicBasedPool_Get_inv:
  assumes "atomic_inv p"
  obtains r p' w' where "AtomicBasedPool_Get p w = Inr (r, p', w')" "atomic_inv p'"
    "AtomicBasedPool.capacity p' = AtomicBasedPool.capacity p"
    "AtomicBasedPool.allocator p' = AtomicBasedPool.allocator p"
proof (cases "index p \<le> 0")
  case True
  show ?thesis
    by (rule that[OF AtomicBasedPool_Get_empty[OF True] assms]) simp_all
next
  case False
  then have pos: "0 < index p" by simp
  show ?thesis
    by (rule that[OF AtomicBasedPool_Get_some[OF assms pos] atomic_contents_Get(3)[OF assms pos]])
       simp_all
qed

lemma AtomicBasedPool_Put_inv:
  assumes "atomic_inv p"
  obtains p' w' where "AtomicBasedPool_Put p obj w = Inr (p', w')" "atomic_inv p'"
    "AtomicBasedPool.capacity p' = AtomicBasedPool.capacity p"
    "AtomicBasedPool.allocator p' = AtomicBasedPool.allocator p"
proof (cases "AtomicBasedPool.capacity p \<le> index p")
  case True
  show ?thesis
    by (rule that[OF AtomicBasedPool_Put_full[OF True] assms]) simp_all
next
  case False
  then have room: "index p < AtomicBasedPool.capacity p" by simp
  show ?thesis
    by (rule that[OF AtomicBasedPool_Put_room[OF assms room] atomic_contents_Put(2)[OF assms room]])
       simp_all
qed

lemma NewAtomicBasedPool_inv:
  assumes "0 \<le> c"
  obtains p where
    "NewAtomicBasedPool c alloc clean w = Inr (p, snd (alloc_seq alloc (nat c) w))"
    "atomic_inv p" "index p = c" "AtomicBasedPool.capacity p = c"
    "atomic_contents p = fst (alloc_seq alloc (nat c) w)"
    "AtomicBasedPool.allocator p = alloc" "AtomicBasedPool.cleaner p = clean"
  using assms
  by (intro that[OF NewAtomicBasedPool_ok[OF assms]])
     (simp_all add: atomic_inv_def atomic_contents_def alloc_seq_length)

lemma AtomicBasedPool_run_ops:
  assumes "atomic_inv p"
  shows "\<exists>p' w'. run_ops AtomicBasedPool_Get AtomicBasedPool_Put ops p w = Inr (p', w') \<and>
    atomic_inv p' \<and> AtomicBasedPool.capacity p' = AtomicBasedPool.capacity p"
proof -
  let ?I = "\<lambda>q. atomic_inv q \<and> AtomicBasedPool.capacity q = AtomicBasedPool.capacity p"
  have "\<exists>p' w'. run_ops AtomicBasedPool_Get AtomicBasedPool_Put ops p w = Inr (p', w') \<and> ?I p'"
  proof (rule run_ops_total[where I = ?I])
    fix q w assume "?I q"
    then show "\<exists>r p' w'. AtomicBasedPool_Get q w = Inr (r, p', w') \<and> ?I p'"
      using AtomicBasedPool_Get_inv[of q w] by metis
  next
    fix q x w assume "?I q"
    then show "\<exists>p' w'. AtomicBasedPool_Put q x w = Inr (p', w') \<and> ?I p'"
      using AtomicBasedPool_Put_inv[of q x w] by metis
  next
    from assms show "?I p" by simp
  qed
  then show ?thesis by blast
qed

lemma NewAtomicBasedPool_Inr_nonneg:
  assumes "NewAtomicBasedPool c alloc clean w = Inr (p, w')"
  shows "0 \<le> c"
  using assms by (cases "c < 0") (simp_all add: NewAtomicBasedPool_def make_slice_def)

subsection \<open>MutexRingBufferPool keeps the invariant of its ring buffer\<close>

lemma NewMutexRingBufferPool_Inr_nonneg:
  assumes "NewMutexRingBufferPool c alloc clean w = Inr (p, w')"
  shows "0 \<le> c"
  using assms
  by (cases "c < 0") (simp_all add: NewMutexRingBufferPool_def NewRingBuffer_def make_slice_def)

lemma MutexRingBufferPool_Get_inv:
  assumes "rb_inv (MutexRingBufferPool.ringBuffer p)"
  obtains r p' w' where "MutexRingBufferPool_Get p w = Inr (r, p', w')"
    "rb_inv (MutexRingBufferPool.ringBuffer p')"
    "RingBuffer.capacity (MutexRingBufferPool.ringBuffer p') = RingBuffer.capacity (MutexRingBufferPool.ringBuffer p)"
    "MutexRingBufferPool.allocator p' = MutexRingBufferPool.allocator p"
proof (cases "size_rb (MutexRingBufferPool.ringBuffer p) = 0")
  case True
  show ?thesis
    by (rule that[OF MutexRingBufferPool_Get_empty[OF assms True] assms]) simp_all
next
  case False
  with assms have pos: "0 < size_rb (MutexRingBufferPool.ringBuffer p)"
    unfolding rb_inv_def by arith
  from MutexRingBufferPool_Get_some[OF assms pos, of w] that show ?thesis
    by (metis MutexRingBufferPool.select_convs(1,2) MutexRingBufferPool.surjective MutexRingBufferPool.update_convs(1))
qed

lemma MutexRingBufferPool_Put_inv:
  assumes "rb_inv (MutexRingBufferPool.ringBuffer p)"
  obtains p' where "MutexRingBufferPool_Put p obj w = Inr (p', w)"
    "rb_inv (MutexRingBufferPool.ringBuffer p')"
    "RingBuffer.capacity (MutexRingBufferPool.ringBuffer p') = RingBuffer.capacity (MutexRingBufferPool.ringBuffer p)"
    "MutexRingBufferPool.allocator p' = MutexRingBufferPool.allocator p"
proof (cases "size_rb (MutexRingBufferPool.ringBuffer p) = RingBuffer.capacity (MutexRingBufferPool.ringBuffer p)")
  case True
  show ?thesis
    by (rule that[OF MutexRingBufferPool_Put_full[OF assms True] assms]) simp_all
next
  case False
  with assms have room: "size_rb (MutexRingBufferPool.ringBuffer p) < RingBuffer.capacity (MutexRingBufferPool.ringBuffer p)"
    unfolding rb_inv_def by arith
  from MutexRingBufferPool_Put_room[OF assms room, of obj w] that show ?thesis
    by (metis MutexRingBufferPool.select_convs(1,2) MutexRingBufferPool.surjective MutexRingBufferPool.update_convs(1))
qed

lemma MutexRingBufferPool_run_ops:
  assumes "rb_inv (MutexRingBufferPool.ringBuffer p)"
  shows "\<exists>p' w'. run_ops MutexRingBufferPool_Get MutexRingBufferPool_Put ops p w = Inr (p', w') \<and>
    rb_inv (MutexRingBufferPool.ringBuffer p') \<and>
    RingBuffer.capacity (MutexRingBufferPool.ringBuffer p') = RingBuffer.capacity (MutexRingBufferPool.ringBuffer p)"
proof -
  let ?I = "\<lambda>q :: MutexRingBufferPool. rb_inv (MutexRingBufferPool.ringBuffer q) \<and>
    RingBuffer.capacity (MutexRingBufferPool.ringBuffer q) = RingBuffer.capacity (MutexRingBufferPool.ringBuffer p)"
  have "\<exists>p' w'. run_ops MutexRingBufferPool_Get MutexRingBufferPool_Put ops p w = Inr (p',
    w') \<and> ?I p'"
  proof (rule run_ops_total[where I = ?I])
    fix q w assume "?I q"
    then show "\<exists>r p' w'. MutexRingBufferPool_Get q w = Inr (r, p', w') \<and> ?I p'"
      using MutexRingBufferPool_Get_inv[of q w] by metis
  next
    fix q x w assume "?I q"
    then show "\<exists>p' w'. MutexRingBufferPool_Put q x w = Inr (p', w') \<and> ?I p'"
      using MutexRingBufferPool_Put_inv[of q x w] by metis
  next
    from assms show "?I p" by simp
  qed
  then show ?thesis by blast
qed

subsection \<open>RWMutexRingBufferPool keeps the invariant of its ring buffer\<close>

lemma NewRWMutexRingBufferPool_Inr_nonneg:
  assumes "NewRWMutexRingBufferPool c alloc clean w = Inr (p, w')"
  shows "0 \<le> c"
  using assms
  by (cases "c < 0") (simp_all add: NewRWMutexRingBufferPool_def NewRingBuffer_def make_slice_def)

lemma RWMutexRingBufferPool_Get_inv:
  assumes "rb_inv (RWMutexRingBufferPool.ringBuffer p)"
  obtains r p' w' where "RWMutexRingBufferPool_Get p w = Inr (r, p', w')"
    "rb_inv (RWMutexRingBufferPool.ringBuffer p')"
    "RingBuffer.capacity (RWMutexRingBufferPool.ringBuffer p') = RingBuffer.capacity (RWMutexRingBufferPool.ringBuffer p)"
    "RWMutexRingBufferPool.allocator p' = RWMutexRingBufferPool.allocator p"
proof (cases "size_rb (RWMutexRingBufferPool.ringBuffer p) = 0")
  case True
  show ?thesis
    by (rule that[OF RWMutexRingBufferPool_Get_empty[OF assms True] assms]) simp_all
next
  case False
  with assms have pos: "0 < size_rb (RWMutexRingBufferPool.ringBuffer p)"
    unfolding rb_inv_def by arith
  from RWMutexRingBufferPool_Get_some[OF assms pos, of w] that show ?thesis
    by (metis RWMutexRingBufferPool.select_convs(1,2) RWMutexRingBufferPool.surjective RWMutexRingBufferPool.update_convs(1))
qed

lemma RWMutexRingBufferPool_Put_inv:
  assumes "rb_inv (RWMutexRingBufferPool.ringBuffer p)"
  obtains p' where "RWMutexRingBufferPool_Put p obj w = Inr (p', w)"
    "rb_inv (RWMutexRingBufferPool.ringBuffer p')"
    "RingBuffer.capacity (RWMutexRingBufferPool.ringBuffer p') = RingBuffer.capacity (RWMutexRingBufferPool.ringBuffer p)"
    "RWMutexRingBufferPool.allocator p' = RWMutexRingBufferPool.allocator p"
proof (cases "size_rb (RWMutexRingBufferPool.ringBuffer p) = RingBuffer.capacity (RWMutexRingBufferPool.ringBuffer p)")
  case True
  show ?thesis
    by (rule that[OF RWMutexRingBufferPool_Put_full[OF assms True] assms]) simp_all
next
  case False
  with assms have room: "size_rb (RWMutexRingBufferPool.ringBuffer p) < RingBuffer.capacity (RWMutexRingBufferPool.ringBuffer p)"
    unfolding rb_inv_def by arith
  from RWMutexRingBufferPool_Put_room[OF assms room, of obj w] that show ?thesis
    by (metis RWMutexRingBufferPool.select_convs(1,2) RWMutexRingBufferPool.surjective RWMutexRingBufferPool.update_convs(1))
qed

lemma RWMutexRingBufferPool_run_ops:
  assumes "rb_inv (RWMutexRingBufferPool.ringBuffer p)"
  shows "\<exists>p' w'. run_ops RWMutexRingBufferPool_Get RWMutexRingBufferPool_Put ops p w = Inr (p',
    w') \<and>
    rb_inv (RWMutexRingBufferPool.ringBuffer p') \<and>
    RingBuffer.capacity (RWMutexRingBufferPool.ringBuffer p') = RingBuffer.capacity (RWMutexRingBufferPool.ringBuffer p)"
proof -
  let ?I = "\<lambda>q :: RWMutexRingBufferPool. rb_inv (RWMutexRingBufferPool.ringBuffer q) \<and>
    RingBuffer.capacity (RWMutexRingBufferPool.ringBuffer q) = RingBuffer.capacity (RWMutexRingBufferPool.ringBuffer p)"
  have "\<exists>p' w'. run_ops RWMutexRingBufferPool_Get RWMutexRingBufferPool_Put ops p w = Inr (p',
    w') \<and> ?I p'"
  proof (rule run_ops_total[where I = ?I])
    fix q w assume "?I q"
    then show "\<exists>r p' w'. RWMutexRingBufferPool_Get q w = Inr (r, p', w') \<and> ?I p'"
      using RWMutexRingBufferPool_Get_inv[of q w] by metis
  next
    fix q x w assume "?I q"
    then show "\<exists>p' w'. RWMutexRingBufferPool_Put q x w = Inr (p', w') \<and> ?I p'"
      using RWMutexRingBufferPool_Put_inv[of q x w] by metis
  next
    from assms show "?I p" by simp
  qed
  then show ?thesis by blast
qed

subsection \<open>MutexBasedPool keeps its length within its capacity\<close>

lemma NewMutexBasedPool_Inr_nonneg:
  assumes "NewMutexBasedPool c alloc clean w = Inr (p, w')"
  shows "0 \<le> c"
  using assms
  by (cases "c < 0") (simp_all add: NewMutexBasedPool_def make_slice_cap_def)

lemma MutexBasedPool_Get_inv:
  assumes "len (MutexBasedPool.objects p) \<le> slice_cap (MutexBasedPool.objects p)"
  obtains r p' w' where "MutexBasedPool_Get p w = Inr (r, p', w')"
    "len (MutexBasedPool.objects p') \<le> slice_cap (MutexBasedPool.objects p')"
proof (cases "elems (MutexBasedPool.objects p) = []")
  case True
  show ?thesis
    by (rule that[OF MutexBasedPool_Get_empty[OF True] assms])
next
  case False
  from assms have "len ((MutexBasedPool.objects p)\<lparr>elems := butlast (elems (MutexBasedPool.objects p))\<rparr>)
      \<le> slice_cap ((MutexBasedPool.objects p)\<lparr>elems := butlast (elems (MutexBasedPool.objects p))\<rparr>)"
    by (simp add: len_def)
  then show ?thesis
    by (intro that[OF MutexBasedPool_Get_some[OF False assms]]) simp
qed

lemma MutexBasedPool_Put_inv:
  assumes "len (MutexBasedPool.objects p) \<le> slice_cap (MutexBasedPool.objects p)"
  obtains p' where "MutexBasedPool_Put p obj w = Inr (p', w)"
    "len (MutexBasedPool.objects p') \<le> slice_cap (MutexBasedPool.objects p')"
proof (cases "len (MutexBasedPool.objects p) = slice_cap (MutexBasedPool.objects p)")
  case True
  show ?thesis
    by (rule that[OF MutexBasedPool_Put_full[OF True] assms])
next
  case False
  with assms have room: "len (MutexBasedPool.objects p) < slice_cap (MutexBasedPool.objects p)"
    by simp
  then have "len ((MutexBasedPool.objects p)\<lparr>elems := elems (MutexBasedPool.objects p) @ [obj]\<rparr>)
      \<le> slice_cap ((MutexBasedPool.objects p)\<lparr>elems := elems (MutexBasedPool.objects p) @ [obj]\<rparr>)"
    by (simp add: len_def)
  then show ?thesis
    by (intro that[OF MutexBasedPool_Put_room[OF room]]) simp
qed

lemma MutexBasedPool_run_ops:
  assumes "len (MutexBasedPool.objects p) \<le> slice_cap (MutexBasedPool.objects p)"
  shows "\<exists>p' w'. run_ops MutexBasedPool_Get MutexBasedPool_Put ops p w = Inr (p', w') \<and>
    len (MutexBasedPool.objects p') \<le> slice_cap (MutexBasedPool.objects p')"
proof (rule run_ops_total[where I = "\<lambda>q :: MutexBasedPool.
    len (MutexBasedPool.objects q) \<le> slice_cap (MutexBasedPool.objects q)"])
  fix q :: MutexBasedPool and w
  assume "len (MutexBasedPool.objects q) \<le> slice_cap (MutexBasedPool.objects q)"
  then show "\<exists>r p' w'. MutexBasedPool_Get q w = Inr (r, p', w') \<and>
      len (MutexBasedPool.objects p') \<le> slice_cap (MutexBasedPool.objects p')"
    using MutexBasedPool_Get_inv[of q w] by metis
next
  fix q :: MutexBasedPool and x w
  assume "len (MutexBasedPool.objects q) \<le> slice_cap (MutexBasedPool.objects q)"
  then show "\<exists>p' w'. MutexBasedPool_Put q x w = Inr (p', w') \<and>
      len (MutexBasedPool.objects p') \<le> slice_cap (MutexBasedPool.objects p')"
    using MutexBasedPool_Put_inv[of q x w] by metis
next
  from assms show "len (MutexBasedPool.objects p) \<le> slice_cap (MutexBasedPool.objects p)" .
qed

lemma NewMutexBasedPool_inv:
  assumes "NewMutexBasedPool c alloc clean w = Inr (p, w')"
  shows "len (MutexBasedPool.objects p) \<le> slice_cap (MutexBasedPool.objects p)"
  using assms NewMutexBasedPool_ok[OF NewMutexBasedPool_Inr_nonneg[OF assms], of alloc clean w]
    NewMutexBasedPool_Inr_nonneg[OF assms]
  by (auto simp: len_def alloc_seq_length)

lemma NewMutexRingBufferPool_inv:
  assumes "NewMutexRingBufferPool c alloc clean w = Inr (p, w')"
  shows "rb_inv (MutexRingBufferPool.ringBuffer p)"
    "RingBuffer.capacity (MutexRingBufferPool.ringBuffer p) = c"
    "size_rb (MutexRingBufferPool.ringBuffer p) = c"
  using assms NewMutexRingBufferPool_ok[OF NewMutexRingBufferPool_Inr_nonneg[OF assms],
    of alloc clean w]
  by auto

lemma NewRWMutexRingBufferPool_inv:
  assumes "NewRWMutexRingBufferPool c alloc clean w = Inr (p, w')"
  shows "rb_inv (RWMutexRingBufferPool.ringBuffer p)"
    "RingBuffer.capacity (RWMutexRingBufferPool.ringBuffer p) = c"
    "size_rb (RWMutexRingBufferPool.ringBuffer p) = c"
  using assms NewRWMutexRingBufferPool_ok[OF NewRWMutexRingBufferPool_Inr_nonneg[OF assms],
    of alloc clean w]
  by auto

lemma NewAtomicBasedPool_inv':
  assumes "NewAtomicBasedPool c alloc clean w = Inr (p, w')"
  shows "atomic_inv p" "AtomicBasedPool.capacity p = c" "index p = c"
  using assms NewAtomicBasedPool_inv[OF NewAtomicBasedPool_Inr_nonneg[OF assms], of alloc clean w]
  by auto

subsection \<open>Get returns in every reachable state\<close>

lemma MutexRingBufferPool_Get_reachable:
  assumes "NewMutexRingBufferPool c alloc clean w0 = Inr (p0, w1)"
  shows "\<exists>p w. run_ops MutexRingBufferPool_Get MutexRingBufferPool_Put ops p0 w1 = Inr (p, w) \<and>
    (\<exists>r p' w'. MutexRingBufferPool_Get p w = Inr (r, p', w')) \<and>
    (size_rb (MutexRingBufferPool.ringBuffer p) = 0 \<longrightarrow>
       MutexRingBufferPool_Get p w =
         Inr (fst (MutexRingBufferPool.allocator p w), p, snd (MutexRingBufferPool.allocator p w)))"
proof -
  from MutexRingBufferPool_run_ops[OF NewMutexRingBufferPool_inv(1)[OF assms], of ops w1]
  obtain p w where run: "run_ops MutexRingBufferPool_Get MutexRingBufferPool_Put ops p0 w1 = Inr (p,
    w)"
    and inv: "rb_inv (MutexRingBufferPool.ringBuffer p)"
    by blast
  from MutexRingBufferPool_Get_inv[OF inv, of w]
  have "\<exists>r p' w'. MutexRingBufferPool_Get p w = Inr (r, p', w')" by metis
  with run MutexRingBufferPool_Get_empty[OF inv, of w] show ?thesis by blast
qed

lemma RWMutexRingBufferPool_Get_reachable:
  assumes "NewRWMutexRingBufferPool c alloc clean w0 = Inr (p0, w1)"
  shows "\<exists>p w. run_ops RWMutexRingBufferPool_Get RWMutexRingBufferPool_Put ops p0 w1 = Inr (p, w) \<and>
    (\<exists>r p' w'. RWMutexRingBufferPool_Get p w = Inr (r, p', w')) \<and>
    (size_rb (RWMutexRingBufferPool.ringBuffer p) = 0 \<longrightarrow>
       RWMutexRingBufferPool_Get p w =
         Inr (fst (RWMutexRingBufferPool.allocator p w), p,
           snd (RWMutexRingBufferPool.allocator p w)))"
proof -
  from RWMutexRingBufferPool_run_ops[OF NewRWMutexRingBufferPool_inv(1)[OF assms], of ops w1]
  obtain p w where run: "run_ops RWMutexRingBufferPool_Get RWMutexRingBufferPool_Put ops p0 w1 = Inr (p,
    w)"
    and inv: "rb_inv (RWMutexRingBufferPool.ringBuffer p)"
    by blast
  from RWMutexRingBufferPool_Get_inv[OF inv, of w]
  have "\<exists>r p' w'. RWMutexRingBufferPool_Get p w = Inr (r, p', w')" by metis
  with run RWMutexRingBufferPool_Get_empty[OF inv, of w] show ?thesis by blast
qed

lemma MutexBasedPool_Get_reachable:
  assumes "NewMutexBasedPool c alloc clean w0 = Inr (p0, w1)"
  shows "\<exists>p w. run_ops MutexBasedPool_Get MutexBasedPool_Put ops p0 w1 = Inr (p, w) \<and>
    (\<exists>r p' w'. MutexBasedPool_Get p w = Inr (r, p', w')) \<and>
    (len (MutexBasedPool.objects p) = 0 \<longrightarrow>
       MutexBasedPool_Get p w =
         Inr (fst (MutexBasedPool.allocator p w), p, snd (MutexBasedPool.allocator p w)))"
proof -
  from MutexBasedPool_run_ops[OF NewMutexBasedPool_inv[OF assms], of ops w1]
  obtain p w where run: "run_ops MutexBasedPool_Get MutexBasedPool_Put ops p0 w1 = Inr (p, w)"
    and inv: "len (MutexBasedPool.objects p) \<le> slice_cap (MutexBasedPool.objects p)"
    by blast
  from MutexBasedPool_Get_inv[OF inv, of w]
  have "\<exists>r p' w'. MutexBasedPool_Get p w = Inr (r, p', w')" by metis
  moreover have "MutexBasedPool_Get p w =
      Inr (fst (MutexBasedPool.allocator p w), p, snd (MutexBasedPool.allocator p w))"
    if "len (MutexBasedPool.objects p) = 0"
    using that by (intro MutexBasedPool_Get_empty) (simp add: len_def)
  ultimately show ?thesis using run by blast
qed

lemma AtomicBasedPool_Get_reachable:
  assumes "NewAtomicBasedPool c alloc clean w0 = Inr (p0, w1)"
  shows "\<exists>p w. run_ops AtomicBasedPool_Get AtomicBasedPool_Put ops p0 w1 = Inr (p, w) \<and>
    (\<exists>r p' w'. AtomicBasedPool_Get p w = Inr (r, p', w')) \<and>
    (index p \<le> 0 \<longrightarrow>
       AtomicBasedPool_Get p w =
         Inr (fst (AtomicBasedPool.allocator p w), p, snd (AtomicBasedPool.allocator p w)))"
proof -
  from AtomicBasedPool_run_ops[OF NewAtomicBasedPool_inv'(1)[OF assms], of ops w1]
  obtain p w where run: "run_ops AtomicBasedPool_Get AtomicBasedPool_Put ops p0 w1 = Inr (p, w)"
    and inv: "atomic_inv p"
    by blast
  from AtomicBasedPool_Get_inv[OF inv, of w]
  have "\<exists>r p' w'. AtomicBasedPool_Get p w = Inr (r, p', w')" by metis
  with run AtomicBasedPool_Get_empty[of p w] show ?thesis by blast
qed

lemma ChannelBasedPool_Get_total:
  "(\<exists>r p' w'. ChannelBasedPool_Get p w = Inr (r, p', w')) \<and>
   (queue (ChannelBasedPool.objects p) = [] \<longrightarrow>
      ChannelBasedPool_Get p w =
        Inr (fst (ChannelBasedPool.allocator p w), p, snd (ChannelBasedPool.allocator p w)))"
  using ChannelBasedPool_Get_some[of p w] ChannelBasedPool_Get_empty[of p w]
  by (cases "queue (ChannelBasedPool.objects p) = []") simp_all

subsection \<open>Unfolding the model on concrete inputs\<close>

text \<open>The equations that evaluate a call on a concrete pool.\<close>

lemmas eval_defs =
  NewMutexRingBufferPool_def NewRWMutexRingBufferPool_def NewMutexBasedPool_def
  NewAtomicBasedPool_def NewChannelBasedPool_def
  NewRingBuffer_def make_slice_def make_slice_cap_def make_chan_def
  Push_def Pop_def set_index_def at_index_def go_rem_def go_quot_def
  signed_modulo_int_def signed_divide_int_def
  testAllocator_apply slice_append_def slice_to_def len_def chan_send_def chan_try_recv_def
  MutexRingBufferPool_Get_def MutexRingBufferPool_Put_def
  RWMutexRingBufferPool_Get_def RWMutexRingBufferPool_Put_def
  MutexBasedPool_Get_def MutexBasedPool_Put_def
  ChannelBasedPool_Get_def ChannelBasedPool_Put_def
  AtomicBasedPool_Get.simps AtomicBasedPool_Put.simps Load_def Store_def CompareAndSwap_def
  Let_def

subsection \<open>Put after Get on a full pool\<close>

lemma MutexRingBufferPool_Put_Get_full:
  assumes "rb_inv (MutexRingBufferPool.ringBuffer p)"
    "size_rb (MutexRingBufferPool.ringBuffer p) = RingBuffer.capacity (MutexRingBufferPool.ringBuffer p)"
  shows "\<exists>r p1 w1 p2 w2. MutexRingBufferPool_Get p w = Inr (r, p1, w1) \<and>
    MutexRingBufferPool_Put p1 r w1 = Inr (p2, w2) \<and> rb_inv (MutexRingBufferPool.ringBuffer p2) \<and>
    size_rb (MutexRingBufferPool.ringBuffer p2) = RingBuffer.capacity (MutexRingBufferPool.ringBuffer p2) \<and>
    RingBuffer.capacity (MutexRingBufferPool.ringBuffer p2) = RingBuffer.capacity (MutexRingBufferPool.ringBuffer p)"
proof (cases "size_rb (MutexRingBufferPool.ringBuffer p) = 0")
  case True
  from MutexRingBufferPool_Get_empty[OF assms(1) True,
    of w] MutexRingBufferPool_Put_full[OF assms] assms
  show ?thesis by blast
next
  case False
  with assms(1) have pos: "0 < size_rb (MutexRingBufferPool.ringBuffer p)"
    unfolding rb_inv_def by arith
  from MutexRingBufferPool_Get_some[OF assms(1) pos, of w]
  obtain rb1 where g: "MutexRingBufferPool_Get p w =
      Inr (hd (rb_contents (MutexRingBufferPool.ringBuffer p)),
        p\<lparr>MutexRingBufferPool.ringBuffer := rb1\<rparr>, w)"
    "rb_inv rb1"
    "RingBuffer.capacity rb1 = RingBuffer.capacity (MutexRingBufferPool.ringBuffer p)"
    "size_rb rb1 = size_rb (MutexRingBufferPool.ringBuffer p) - 1"
    by blast
  let ?p1 = "p\<lparr>MutexRingBufferPool.ringBuffer := rb1\<rparr>"
  from g assms(2) have inv1: "rb_inv (MutexRingBufferPool.ringBuffer ?p1)"
    and room: "size_rb (MutexRingBufferPool.ringBuffer ?p1) < RingBuffer.capacity (MutexRingBufferPool.ringBuffer ?p1)"
    by simp_all
  from MutexRingBufferPool_Put_room[OF inv1 room,
    of "hd (rb_contents (MutexRingBufferPool.ringBuffer p))" w]
  obtain rb2 where pt: "MutexRingBufferPool_Put ?p1 (hd (rb_contents (MutexRingBufferPool.ringBuffer p))) w =
      Inr (?p1\<lparr>MutexRingBufferPool.ringBuffer := rb2\<rparr>, w)"
    "rb_inv rb2"
    "RingBuffer.capacity rb2 = RingBuffer.capacity (MutexRingBufferPool.ringBuffer ?p1)"
    "size_rb rb2 = size_rb (MutexRingBufferPool.ringBuffer ?p1) + 1"
    by blast
  from g pt assms(2) show ?thesis by simp
qed

lemma MutexRingBufferPool_round_trips:
  assumes "NewMutexRingBufferPool c alloc clean w0 = Inr (p0, w1)"
  shows "\<exists>p w. repeat_Put_Get MutexRingBufferPool_Get MutexRingBufferPool_Put n p0 w1 = Inr (p, w) \<and>
    size_rb (MutexRingBufferPool.ringBuffer p) = size_rb (MutexRingBufferPool.ringBuffer p0)"
proof -
  note new = NewMutexRingBufferPool_inv[OF assms]
  let ?I = "\<lambda>q :: MutexRingBufferPool. rb_inv (MutexRingBufferPool.ringBuffer q) \<and>
    size_rb (MutexRingBufferPool.ringBuffer q) = RingBuffer.capacity (MutexRingBufferPool.ringBuffer q) \<and>
    RingBuffer.capacity (MutexRingBufferPool.ringBuffer q) = c"
  have "\<exists>p w. repeat_Put_Get MutexRingBufferPool_Get MutexRingBufferPool_Put n p0 w1 = Inr (p,
    w) \<and> ?I p"
  proof (rule repeat_Put_Get_total[where I = ?I])
    fix q :: MutexRingBufferPool and w assume "?I q"
    then show "\<exists>r p1 w1 p2 w2. MutexRingBufferPool_Get q w = Inr (r, p1, w1) \<and>
        MutexRingBufferPool_Put p1 r w1 = Inr (p2, w2) \<and> ?I p2"
      using MutexRingBufferPool_Put_Get_full[of q w] by metis
  next
    from new show "?I p0" by simp
  qed
  with new show ?thesis by auto
qed

lemma RWMutexRingBufferPool_Put_Get_full:
  assumes "rb_inv (RWMutexRingBufferPool.ringBuffer p)"
    "size_rb (RWMutexRingBufferPool.ringBuffer p) = RingBuffer.capacity (RWMutexRingBufferPool.ringBuffer p)"
  shows "\<exists>r p1 w1 p2 w2. RWMutexRingBufferPool_Get p w = Inr (r, p1, w1) \<and>
    RWMutexRingBufferPool_Put p1 r w1 = Inr (p2,
      w2) \<and> rb_inv (RWMutexRingBufferPool.ringBuffer p2) \<and>
    size_rb (RWMutexRingBufferPool.ringBuffer p2) = RingBuffer.capacity (RWMutexRingBufferPool.ringBuffer p2) \<and>
    RingBuffer.capacity (RWMutexRingBufferPool.ringBuffer p2) = RingBuffer.capacity (RWMutexRingBufferPool.ringBuffer p)"
proof (cases "size_rb (RWMutexRingBufferPool.ringBuffer p) = 0")
  case True
  from RWMutexRingBufferPool_Get_empty[OF assms(1) True,
    of w] RWMutexRingBufferPool_Put_full[OF assms] assms
  show ?thesis by blast
next
  case False
  with assms(1) have pos: "0 < size_rb (RWMutexRingBufferPool.ringBuffer p)"
    unfolding rb_inv_def by arith
  from RWMutexRingBufferPool_Get_some[OF assms(1) pos, of w]
  obtain rb1 where g: "RWMutexRingBufferPool_Get p w =
      Inr (hd (rb_contents (RWMutexRingBufferPool.ringBuffer p)),
        p\<lparr>RWMutexRingBufferPool.ringBuffer := rb1\<rparr>, w)"
    "rb_inv rb1"
    "RingBuffer.capacity rb1 = RingBuffer.capacity (RWMutexRingBufferPool.ringBuffer p)"
    "size_rb rb1 = size_rb (RWMutexRingBufferPool.ringBuffer p) - 1"
    by blast
  let ?p1 = "p\<lparr>RWMutexRingBufferPool.ringBuffer := rb1\<rparr>"
  from g assms(2) have inv1: "rb_inv (RWMutexRingBufferPool.ringBuffer ?p1)"
    and room: "size_rb (RWMutexRingBufferPool.ringBuffer ?p1) < RingBuffer.capacity (RWMutexRingBufferPool.ringBuffer ?p1)"
    by simp_all
  from RWMutexRingBufferPool_Put_room[OF inv1 room,
    of "hd (rb_contents (RWMutexRingBufferPool.ringBuffer p))" w]
  obtain rb2 where pt: "RWMutexRingBufferPool_Put ?p1 (hd (rb_contents (RWMutexRingBufferPool.ringBuffer p))) w =
      Inr (?p1\<lparr>RWMutexRingBufferPool.ringBuffer := rb2\<rparr>, w)"
    "rb_inv rb2"
    "RingBuffer.capacity rb2 = RingBuffer.capacity (RWMutexRingBufferPool.ringBuffer ?p1)"
    "size_rb rb2 = size_rb (RWMutexRingBufferPool.ringBuffer ?p1) + 1"
    by blast
  from g pt assms(2) show ?thesis by simp
qed

lemma RWMutexRingBufferPool_round_trips:
  assumes "NewRWMutexRingBufferPool c alloc clean w0 = Inr (p0, w1)"
  shows "\<exists>p w. repeat_Put_Get RWMutexRingBufferPool_Get RWMutexRingBufferPool_Put n p0 w1 = Inr (p,
    w) \<and>
    size_rb (RWMutexRingBufferPool.ringBuffer p) = size_rb (RWMutexRingBufferPool.ringBuffer p0)"
proof -
  note new = NewRWMutexRingBufferPool_inv[OF assms]
  let ?I = "\<lambda>q :: RWMutexRingBufferPool. rb_inv (RWMutexRingBufferPool.ringBuffer q) \<and>
    size_rb (RWMutexRingBufferPool.ringBuffer q) = RingBuffer.capacity (RWMutexRingBufferPool.ringBuffer q) \<and>
    RingBuffer.capacity (RWMutexRingBufferPool.ringBuffer q) = c"
  have "\<exists>p w. repeat_Put_Get RWMutexRingBufferPool_Get RWMutexRingBufferPool_Put n p0 w1 = Inr (p,
    w) \<and> ?I p"
  proof (rule repeat_Put_Get_total[where I = ?I])
    fix q :: RWMutexRingBufferPool and w assume "?I q"
    then show "\<exists>r p1 w1 p2 w2. RWMutexRingBufferPool_Get q w = Inr (r, p1, w1) \<and>
        RWMutexRingBufferPool_Put p1 r w1 = Inr (p2, w2) \<and> ?I p2"
      using RWMutexRingBufferPool_Put_Get_full[of q w] by metis
  next
    from new show "?I p0" by simp
  qed
  with new show ?thesis by auto
qed

lemma AtomicBasedPool_Put_Get_full:
  assumes "atomic_inv p" "index p = AtomicBasedPool.capacity p"
  shows "\<exists>r p1 w1 p2 w2. AtomicBasedPool_Get p w = Inr (r, p1, w1) \<and>
    AtomicBasedPool_Put p1 r w1 = Inr (p2, w2) \<and> atomic_inv p2 \<and>
    index p2 = AtomicBasedPool.capacity p2 \<and>
    AtomicBasedPool.capacity p2 = AtomicBasedPool.capacity p"
proof (cases "index p \<le> 0")
  case True
  from assms(2) have "AtomicBasedPool.capacity p \<le> index p" by simp
  from AtomicBasedPool_Get_empty[OF True, of w] AtomicBasedPool_Put_full[OF this] assms
  show ?thesis by blast
next
  case False
  then have pos: "0 < index p" by simp
  let ?p1 = "p\<lparr>index := index p - 1\<rparr>"
  note g = AtomicBasedPool_Get_some[OF assms(1) pos, of w]
  from atomic_contents_Get(3)[OF assms(1) pos] assms(2)
  have inv1: "atomic_inv ?p1" and room: "index ?p1 < AtomicBasedPool.capacity ?p1"
    by simp_all
  note pt = AtomicBasedPool_Put_room[OF inv1 room,
    of "AtomicBasedPool.objects p ! nat (index p - 1)" w]
  note inv2 = atomic_contents_Put(2)[OF inv1 room,
    of "AtomicBasedPool.objects p ! nat (index p - 1)"]
  from g pt inv2 assms(2) show ?thesis by simp
qed

lemma AtomicBasedPool_round_trips:
  assumes "NewAtomicBasedPool c alloc clean w0 = Inr (p0, w1)"
  shows "\<exists>p w. repeat_Put_Get AtomicBasedPool_Get AtomicBasedPool_Put n p0 w1 = Inr (p, w) \<and>
    index p = index p0"
proof -
  note new = NewAtomicBasedPool_inv'[OF assms]
  let ?I = "\<lambda>q :: AtomicBasedPool. atomic_inv q \<and> index q = AtomicBasedPool.capacity q \<and>
    AtomicBasedPool.capacity q = c"
  have "\<exists>p w. repeat_Put_Get AtomicBasedPool_Get AtomicBasedPool_Put n p0 w1 = Inr (p, w) \<and> ?I p"
  proof (rule repeat_Put_Get_total[where I = ?I])
    fix q :: AtomicBasedPool and w assume "?I q"
    then show "\<exists>r p1 w1 p2 w2. AtomicBasedPool_Get q w = Inr (r, p1, w1) \<and>
        AtomicBasedPool_Put p1 r w1 = Inr (p2, w2) \<and> ?I p2"
      using AtomicBasedPool_Put_Get_full[of q w] by metis
  next
    from new show "?I p0" by simp
  qed
  with new show ?thesis by auto
qed

subsection \<open>Queues and stacks\<close>

lemma repeat_Put_append:
  fixes put :: "'p \<Rightarrow> ptr \<Rightarrow> heap \<Rightarrow> fault + ('p \<times> heap)" and cap :: int
  assumes step: "\<And>p x w. I p \<Longrightarrow> int (length (cont p)) < cap \<Longrightarrow>
      \<exists>p'. put p x w = Inr (p', w) \<and> I p' \<and> cont p' = cont p @ [x]"
  assumes "I p" "int (length (cont p)) + int (length xs) \<le> cap"
  shows "\<exists>p'. repeat_Put put xs p w = Inr (p', w) \<and> I p' \<and> cont p' = cont p @ xs"
  using assms(2,3)
proof (induction xs arbitrary: p)
  case Nil
  then show ?case by simp
next
  case (Cons x xs)
  then have "int (length (cont p)) < cap" by simp
  from step[OF Cons.prems(1) this, of x w]
  obtain p1 where s: "put p x w = Inr (p1, w)" "I p1" "cont p1 = cont p @ [x]"
    by blast
  from Cons.prems s have "int (length (cont p1)) + int (length xs) \<le> cap" by simp
  from Cons.IH[OF s(2) this] s show ?case by auto
qed

subsection \<open>MutexRingBufferPool is a queue\<close>

lemma MutexRingBufferPool_Get_step:
  assumes "rb_inv (MutexRingBufferPool.ringBuffer p)" "rb_contents (MutexRingBufferPool.ringBuffer p) \<noteq> []"
  shows "\<exists>p'. MutexRingBufferPool_Get p w = Inr (hd (rb_contents (MutexRingBufferPool.ringBuffer p)),
    p', w) \<and>
    (rb_inv (MutexRingBufferPool.ringBuffer p') \<and>
     RingBuffer.capacity (MutexRingBufferPool.ringBuffer p') = RingBuffer.capacity (MutexRingBufferPool.ringBuffer p)) \<and>
    rb_contents (MutexRingBufferPool.ringBuffer p') = tl (rb_contents (MutexRingBufferPool.ringBuffer p))"
proof -
  from assms have pos: "0 < size_rb (MutexRingBufferPool.ringBuffer p)"
    by (cases "size_rb (MutexRingBufferPool.ringBuffer p) = 0") (auto simp: rb_contents_empty rb_inv_def)
  from MutexRingBufferPool_Get_some[OF assms(1) pos, of w] show ?thesis
    by (metis MutexRingBufferPool.select_convs(1) MutexRingBufferPool.surjective MutexRingBufferPool.update_convs(1))
qed

lemma MutexRingBufferPool_Put_step:
  assumes "rb_inv (MutexRingBufferPool.ringBuffer p)"
    "int (length (rb_contents (MutexRingBufferPool.ringBuffer p))) < RingBuffer.capacity (MutexRingBufferPool.ringBuffer p)"
  shows "\<exists>p'. MutexRingBufferPool_Put p x w = Inr (p', w) \<and>
    (rb_inv (MutexRingBufferPool.ringBuffer p') \<and>
     RingBuffer.capacity (MutexRingBufferPool.ringBuffer p') = RingBuffer.capacity (MutexRingBufferPool.ringBuffer p)) \<and>
    rb_contents (MutexRingBufferPool.ringBuffer p') = rb_contents (MutexRingBufferPool.ringBuffer p) @ [x]"
proof -
  from assms have room: "size_rb (MutexRingBufferPool.ringBuffer p) < RingBuffer.capacity (MutexRingBufferPool.ringBuffer p)"
    by (simp add: rb_contents_length rb_inv_def)
  from MutexRingBufferPool_Put_room[OF assms(1) room, of x w] show ?thesis
    by (metis MutexRingBufferPool.select_convs(1) MutexRingBufferPool.surjective MutexRingBufferPool.update_convs(1))
qed

lemma MutexRingBufferPool_repeat_Get:
  assumes "rb_inv (MutexRingBufferPool.ringBuffer p)" "n \<le> length (rb_contents (MutexRingBufferPool.ringBuffer p))"
  shows "\<exists>p'. repeat_Get MutexRingBufferPool_Get n p w =
      Inr (take n (rb_contents (MutexRingBufferPool.ringBuffer p)), p', w) \<and>
    rb_inv (MutexRingBufferPool.ringBuffer p') \<and>
    rb_contents (MutexRingBufferPool.ringBuffer p') = drop n (rb_contents (MutexRingBufferPool.ringBuffer p))"
proof -
  let ?I = "\<lambda>q :: MutexRingBufferPool. rb_inv (MutexRingBufferPool.ringBuffer q) \<and>
    RingBuffer.capacity (MutexRingBufferPool.ringBuffer q) = RingBuffer.capacity (MutexRingBufferPool.ringBuffer p)"
  let ?cont = "\<lambda>q :: MutexRingBufferPool. rb_contents (MutexRingBufferPool.ringBuffer q)"
  have "\<exists>p'. repeat_Get MutexRingBufferPool_Get n p w = Inr (take n (?cont p), p', w) \<and> ?I p' \<and>
      ?cont p' = drop n (?cont p)"
  proof (rule repeat_Get_queue[where I = ?I and cont = ?cont])
    fix q :: MutexRingBufferPool and w assume "?I q" "?cont q \<noteq> []"
    then show "\<exists>p'. MutexRingBufferPool_Get q w = Inr (hd (?cont q), p',
      w) \<and> ?I p' \<and> ?cont p' = tl (?cont q)"
      using MutexRingBufferPool_Get_step[of q w] by auto
  next
    from assms show "?I p" "n \<le> length (?cont p)" by simp_all
  qed
  then show ?thesis by blast
qed

lemma MutexRingBufferPool_repeat_Put:
  assumes "rb_inv (MutexRingBufferPool.ringBuffer p)"
    "int (length (rb_contents (MutexRingBufferPool.ringBuffer p))) + int (length xs)
       \<le> RingBuffer.capacity (MutexRingBufferPool.ringBuffer p)"
  shows "\<exists>p'. repeat_Put MutexRingBufferPool_Put xs p w = Inr (p', w) \<and>
    rb_inv (MutexRingBufferPool.ringBuffer p') \<and>
    rb_contents (MutexRingBufferPool.ringBuffer p') = rb_contents (MutexRingBufferPool.ringBuffer p) @ xs"
proof -
  let ?I = "\<lambda>q :: MutexRingBufferPool. rb_inv (MutexRingBufferPool.ringBuffer q) \<and>
    RingBuffer.capacity (MutexRingBufferPool.ringBuffer q) = RingBuffer.capacity (MutexRingBufferPool.ringBuffer p)"
  let ?cont = "\<lambda>q :: MutexRingBufferPool. rb_contents (MutexRingBufferPool.ringBuffer q)"
  have "\<exists>p'. repeat_Put MutexRingBufferPool_Put xs p w = Inr (p',
    w) \<and> ?I p' \<and> ?cont p' = ?cont p @ xs"
  proof (rule repeat_Put_append[where I = ?I and cont = ?cont
        and cap = "RingBuffer.capacity (MutexRingBufferPool.ringBuffer p)"])
    fix q :: MutexRingBufferPool and x w
    assume "?I q" "int (length (?cont q)) < RingBuffer.capacity (MutexRingBufferPool.ringBuffer p)"
    then show "\<exists>p'. MutexRingBufferPool_Put q x w = Inr (p', w) \<and> ?I p' \<and> ?cont p' = ?cont q @ [x]"
      using MutexRingBufferPool_Put_step[of q x w] by auto
  next
    from assms show "?I p"
      "int (length (?cont p)) + int (length xs) \<le> RingBuffer.capacity (MutexRingBufferPool.ringBuffer p)"
      by simp_all
  qed
  then show ?thesis by blast
qed

subsection \<open>RWMutexRingBufferPool is a queue\<close>

lemma RWMutexRingBufferPool_Get_step:
  assumes "rb_inv (RWMutexRingBufferPool.ringBuffer p)" "rb_contents (RWMutexRingBufferPool.ringBuffer p) \<noteq> []"
  shows "\<exists>p'. RWMutexRingBufferPool_Get p w = Inr (hd (rb_contents (RWMutexRingBufferPool.ringBuffer p)),
    p', w) \<and>
    (rb_inv (RWMutexRingBufferPool.ringBuffer p') \<and>
     RingBuffer.capacity (RWMutexRingBufferPool.ringBuffer p') = RingBuffer.capacity (RWMutexRingBufferPool.ringBuffer p)) \<and>
    rb_contents (RWMutexRingBufferPool.ringBuffer p') = tl (rb_contents (RWMutexRingBufferPool.ringBuffer p))"
proof -
  from assms have pos: "0 < size_rb (RWMutexRingBufferPool.ringBuffer p)"
    by (cases "size_rb (RWMutexRingBufferPool.ringBuffer p) = 0") (auto simp: rb_contents_empty rb_inv_def)
  from RWMutexRingBufferPool_Get_some[OF assms(1) pos, of w] show ?thesis
    by (metis RWMutexRingBufferPool.select_convs(1) RWMutexRingBufferPool.surjective RWMutexRingBufferPool.update_convs(1))
qed

lemma RWMutexRingBufferPool_Put_step:
  assumes "rb_inv (RWMutexRingBufferPool.ringBuffer p)"
    "int (length (rb_contents (RWMutexRingBufferPool.ringBuffer p))) < RingBuffer.capacity (RWMutexRingBufferPool.ringBuffer p)"
  shows "\<exists>p'. RWMutexRingBufferPool_Put p x w = Inr (p', w) \<and>
    (rb_inv (RWMutexRingBufferPool.ringBuffer p') \<and>
     RingBuffer.capacity (RWMutexRingBufferPool.ringBuffer p') = RingBuffer.capacity (RWMutexRingBufferPool.ringBuffer p)) \<and>
    rb_contents (RWMutexRingBufferPool.ringBuffer p') = rb_contents (RWMutexRingBufferPool.ringBuffer p) @ [x]"
proof -
  from assms have room: "size_rb (RWMutexRingBufferPool.ringBuffer p) < RingBuffer.capacity (RWMutexRingBufferPool.ringBuffer p)"
    by (simp add: rb_contents_length rb_inv_def)
  from RWMutexRingBufferPool_Put_room[OF assms(1) room, of x w] show ?thesis
    by (metis RWMutexRingBufferPool.select_convs(1) RWMutexRingBufferPool.surjective RWMutexRingBufferPool.update_convs(1))
qed

lemma RWMutexRingBufferPool_repeat_Get:
  assumes "rb_inv (RWMutexRingBufferPool.ringBuffer p)" "n \<le> length (rb_contents (RWMutexRingBufferPool.ringBuffer p))"
  shows "\<exists>p'. repeat_Get RWMutexRingBufferPool_Get n p w =
      Inr (take n (rb_contents (RWMutexRingBufferPool.ringBuffer p)), p', w) \<and>
    rb_inv (RWMutexRingBufferPool.ringBuffer p') \<and>
    rb_contents (RWMutexRingBufferPool.ringBuffer p') = drop n (rb_contents (RWMutexRingBufferPool.ringBuffer p))"
proof -
  let ?I = "\<lambda>q :: RWMutexRingBufferPool. rb_inv (RWMutexRingBufferPool.ringBuffer q) \<and>
    RingBuffer.capacity (RWMutexRingBufferPool.ringBuffer q) = RingBuffer.capacity (RWMutexRingBufferPool.ringBuffer p)"
  let ?cont = "\<lambda>q :: RWMutexRingBufferPool. rb_contents (RWMutexRingBufferPool.ringBuffer q)"
  have "\<exists>p'. repeat_Get RWMutexRingBufferPool_Get n p w = Inr (take n (?cont p), p', w) \<and> ?I p' \<and>
      ?cont p' = drop n (?cont p)"
  proof (rule repeat_Get_queue[where I = ?I and cont = ?cont])
    fix q :: RWMutexRingBufferPool and w assume "?I q" "?cont q \<noteq> []"
    then show "\<exists>p'. RWMutexRingBufferPool_Get q w = Inr (hd (?cont q), p',
      w) \<and> ?I p' \<and> ?cont p' = tl (?cont q)"
      using RWMutexRingBufferPool_Get_step[of q w] by auto
  next
    from assms show "?I p" "n \<le> length (?cont p)" by simp_all
  qed
  then show ?thesis by blast
qed

lemma RWMutexRingBufferPool_repeat_Put:
  assumes "rb_inv (RWMutexRingBufferPool.ringBuffer p)"
    "int (length (rb_contents (RWMutexRingBufferPool.ringBuffer p))) + int (length xs)
       \<le> RingBuffer.capacity (RWMutexRingBufferPool.ringBuffer p)"
  shows "\<exists>p'. repeat_Put RWMutexRingBufferPool_Put xs p w = Inr (p', w) \<and>
    rb_inv (RWMutexRingBufferPool.ringBuffer p') \<and>
    rb_contents (RWMutexRingBufferPool.ringBuffer p') = rb_contents (RWMutexRingBufferPool.ringBuffer p) @ xs"
proof -
  let ?I = "\<lambda>q :: RWMutexRingBufferPool. rb_inv (RWMutexRingBufferPool.ringBuffer q) \<and>
    RingBuffer.capacity (RWMutexRingBufferPool.ringBuffer q) = RingBuffer.capacity (RWMutexRingBufferPool.ringBuffer p)"
  let ?cont = "\<lambda>q :: RWMutexRingBufferPool. rb_contents (RWMutexRingBufferPool.ringBuffer q)"
  have "\<exists>p'. repeat_Put RWMutexRingBufferPool_Put xs p w = Inr (p',
    w) \<and> ?I p' \<and> ?cont p' = ?cont p @ xs"
  proof (rule repeat_Put_append[where I = ?I and cont = ?cont
        and cap = "RingBuffer.capacity (RWMutexRingBufferPool.ringBuffer p)"])
    fix q :: RWMutexRingBufferPool and x w
    assume "?I q" "int (length (?cont q)) < RingBuffer.capacity (RWMutexRingBufferPool.ringBuffer p)"
    then show "\<exists>p'. RWMutexRingBufferPool_Put q x w = Inr (p',
      w) \<and> ?I p' \<and> ?cont p' = ?cont q @ [x]"
      using RWMutexRingBufferPool_Put_step[of q x w] by auto
  next
    from assms show "?I p"
      "int (length (?cont p)) + int (length xs) \<le> RingBuffer.capacity (RWMutexRingBufferPool.ringBuffer p)"
      by simp_all
  qed
  then show ?thesis by blast
qed

subsection \<open>RingBufferCondPool is a queue\<close>

lemma RingBufferCondPool_Get_step:
  assumes "rb_inv (RingBufferCondPool.ringBuffer p)" "rb_contents (RingBufferCondPool.ringBuffer p) \<noteq> []"
  shows "\<exists>p'. RingBufferCondPool_Get p w = Inr (hd (rb_contents (RingBufferCondPool.ringBuffer p)),
    p', w) \<and>
    (rb_inv (RingBufferCondPool.ringBuffer p') \<and>
     RingBuffer.capacity (RingBufferCondPool.ringBuffer p') = RingBuffer.capacity (RingBufferCondPool.ringBuffer p)) \<and>
    rb_contents (RingBufferCondPool.ringBuffer p') = tl (rb_contents (RingBufferCondPool.ringBuffer p))"
proof -
  from assms have pos: "0 < size_rb (RingBufferCondPool.ringBuffer p)"
    by (cases "size_rb (RingBufferCondPool.ringBuffer p) = 0") (auto simp: rb_contents_empty rb_inv_def)
  from RingBufferCondPool_Get_some[OF assms(1) pos, of w] show ?thesis
    by (metis RingBufferCondPool.select_convs(1) RingBufferCondPool.surjective RingBufferCondPool.update_convs(1))
qed

lemma RingBufferCondPool_Put_step:
  assumes "rb_inv (RingBufferCondPool.ringBuffer p)"
    "int (length (rb_contents (RingBufferCondPool.ringBuffer p))) < RingBuffer.capacity (RingBufferCondPool.ringBuffer p)"
  shows "\<exists>p'. RingBufferCondPool_Put p x w = Inr (p', w) \<and>
    (rb_inv (RingBufferCondPool.ringBuffer p') \<and>
     RingBuffer.capacity (RingBufferCondPool.ringBuffer p') = RingBuffer.capacity (RingBufferCondPool.ringBuffer p)) \<and>
    rb_contents (RingBufferCondPool.ringBuffer p') = rb_contents (RingBufferCondPool.ringBuffer p) @ [x]"
proof -
  from assms have room: "size_rb (RingBufferCondPool.ringBuffer p) < RingBuffer.capacity (RingBufferCondPool.ringBuffer p)"
    by (simp add: rb_contents_length rb_inv_def)
  from RingBufferCondPool_Put_room[OF assms(1) room, of x w] show ?thesis
    by (metis RingBufferCondPool.select_convs(1) RingBufferCondPool.surjective RingBufferCondPool.update_convs(1))
qed

lemma RingBufferCondPool_repeat_Get:
  assumes "rb_inv (RingBufferCondPool.ringBuffer p)" "n \<le> length (rb_contents (RingBufferCondPool.ringBuffer p))"
  shows "\<exists>p'. repeat_Get RingBufferCondPool_Get n p w =
      Inr (take n (rb_contents (RingBufferCondPool.ringBuffer p)), p', w) \<and>
    rb_inv (RingBufferCondPool.ringBuffer p') \<and>
    rb_contents (RingBufferCondPool.ringBuffer p') = drop n (rb_contents (RingBufferCondPool.ringBuffer p))"
proof -
  let ?I = "\<lambda>q :: RingBufferCondPool. rb_inv (RingBufferCondPool.ringBuffer q) \<and>
    RingBuffer.capacity (RingBufferCondPool.ringBuffer q) = RingBuffer.capacity (RingBufferCondPool.ringBuffer p)"
  let ?cont = "\<lambda>q :: RingBufferCondPool. rb_contents (RingBufferCondPool.ringBuffer q)"
  have "\<exists>p'. repeat_Get RingBufferCondPool_Get n p w = Inr (take n (?cont p), p', w) \<and> ?I p' \<and>
      ?cont p' = drop n (?cont p)"
  proof (rule repeat_Get_queue[where I = ?I and cont = ?cont])
    fix q :: RingBufferCondPool and w assume "?I q" "?cont q \<noteq> []"
    then show "\<exists>p'. RingBufferCondPool_Get q w = Inr (hd (?cont q), p',
      w) \<and> ?I p' \<and> ?cont p' = tl (?cont q)"
      using RingBufferCondPool_Get_step[of q w] by auto
  next
    from assms show "?I p" "n \<le> length (?cont p)" by simp_all
  qed
  then show ?thesis by blast
qed

lemma RingBufferCondPool_repeat_Put:
  assumes "rb_inv (RingBufferCondPool.ringBuffer p)"
    "int (length (rb_contents (RingBufferCondPool.ringBuffer p))) + int (length xs)
       \<le> RingBuffer.capacity (RingBufferCondPool.ringBuffer p)"
  shows "\<exists>p'. repeat_Put RingBufferCondPool_Put xs p w = Inr (p', w) \<and>
    rb_inv (RingBufferCondPool.ringBuffer p') \<and>
    rb_contents (RingBufferCondPool.ringBuffer p') = rb_contents (RingBufferCondPool.ringBuffer p) @ xs"
proof -
  let ?I = "\<lambda>q :: RingBufferCondPool. rb_inv (RingBufferCondPool.ringBuffer q) \<and>
    RingBuffer.capacity (RingBufferCondPool.ringBuffer q) = RingBuffer.capacity (RingBufferCondPool.ringBuffer p)"
  let ?cont = "\<lambda>q :: RingBufferCondPool. rb_contents (RingBufferCondPool.ringBuffer q)"
  have "\<exists>p'. repeat_Put RingBufferCondPool_Put xs p w = Inr (p',
    w) \<and> ?I p' \<and> ?cont p' = ?cont p @ xs"
  proof (rule repeat_Put_append[where I = ?I and cont = ?cont
        and cap = "RingBuffer.capacity (RingBufferCondPool.ringBuffer p)"])
    fix q :: RingBufferCondPool and x w
    assume "?I q" "int (length (?cont q)) < RingBuffer.capacity (RingBufferCondPool.ringBuffer p)"
    then show "\<exists>p'. RingBufferCondPool_Put q x w = Inr (p', w) \<and> ?I p' \<and> ?cont p' = ?cont q @ [x]"
      using RingBufferCondPool_Put_step[of q x w] by auto
  next
    from assms show "?I p"
      "int (length (?cont p)) + int (length xs) \<le> RingBuffer.capacity (RingBufferCondPool.ringBuffer p)"
      by simp_all
  qed
  then show ?thesis by blast
qed

lemma rev_butlast_tl: "rev (butlast xs) = tl (rev xs)"
  using butlast_rev[of "rev xs"] by (simp add: rev_swap)

subsection \<open>ChannelBasedPool is a queue\<close>

lemma ChannelBasedPool_repeat_Get:
  assumes "n \<le> length (queue (ChannelBasedPool.objects p))"
  shows "\<exists>p'. repeat_Get ChannelBasedPool_Get n p w =
      Inr (take n (queue (ChannelBasedPool.objects p)), p', w) \<and>
    queue (ChannelBasedPool.objects p') = drop n (queue (ChannelBasedPool.objects p))"
proof -
  let ?cont = "\<lambda>q :: ChannelBasedPool. queue (ChannelBasedPool.objects q)"
  have "\<exists>p'. repeat_Get ChannelBasedPool_Get n p w = Inr (take n (?cont p), p', w) \<and> True \<and>
      ?cont p' = drop n (?cont p)"
  proof (rule repeat_Get_queue[where I = "\<lambda>q. True" and cont = ?cont])
    fix q :: ChannelBasedPool and w assume "?cont q \<noteq> []"
    then show "\<exists>p'. ChannelBasedPool_Get q w = Inr (hd (?cont q), p', w) \<and> True \<and>
        ?cont p' = tl (?cont q)"
      using ChannelBasedPool_Get_some[of q w] by simp
  next
    from assms show "n \<le> length (?cont p)" by simp
  qed simp
  then show ?thesis by blast
qed

lemma ChannelBasedPool_Put_Inr:
  assumes "ChannelBasedPool_Put p x w = Inr (p', w')"
  shows "queue (ChannelBasedPool.objects p') = queue (ChannelBasedPool.objects p) @ [x]"
    "chan_cap (ChannelBasedPool.objects p') = chan_cap (ChannelBasedPool.objects p)"
    "ChannelBasedPool.cleaner p x w = Inr w'"
    "int (length (queue (ChannelBasedPool.objects p))) < chan_cap (ChannelBasedPool.objects p)"
  using assms
  by (auto simp: ChannelBasedPool_Put_def chan_send_def split: sum.splits if_splits)

lemma ChannelBasedPool_repeat_Put:
  assumes "repeat_Put ChannelBasedPool_Put xs p w = Inr (p', w')"
  shows "queue (ChannelBasedPool.objects p') = queue (ChannelBasedPool.objects p) @ xs"
  using assms
proof (induction xs arbitrary: p w)
  case Nil
  then show ?case by simp
next
  case (Cons x xs)
  then obtain p1 w1 where s: "ChannelBasedPool_Put p x w = Inr (p1, w1)"
    "repeat_Put ChannelBasedPool_Put xs p1 w1 = Inr (p', w')"
    by (auto split: sum.splits)
  from Cons.IH[OF s(2)] ChannelBasedPool_Put_Inr(1)[OF s(1)] show ?case by simp
qed

subsection \<open>MutexBasedPool is a stack\<close>

lemma MutexBasedPool_repeat_Get:
  assumes "len (MutexBasedPool.objects p) \<le> slice_cap (MutexBasedPool.objects p)"
    "n \<le> length (elems (MutexBasedPool.objects p))"
  shows "\<exists>p'. repeat_Get MutexBasedPool_Get n p w =
      Inr (take n (rev (elems (MutexBasedPool.objects p))), p', w) \<and>
    len (MutexBasedPool.objects p') \<le> slice_cap (MutexBasedPool.objects p') \<and>
    rev (elems (MutexBasedPool.objects p')) = drop n (rev (elems (MutexBasedPool.objects p)))"
proof -
  let ?I = "\<lambda>q :: MutexBasedPool. len (MutexBasedPool.objects q) \<le> slice_cap (MutexBasedPool.objects q)"
  let ?cont = "\<lambda>q :: MutexBasedPool. rev (elems (MutexBasedPool.objects q))"
  show ?thesis
  proof (rule repeat_Get_queue[where I = ?I and cont = ?cont])
    fix q :: MutexBasedPool and w assume i: "?I q" and ne: "?cont q \<noteq> []"
    then have ne': "elems (MutexBasedPool.objects q) \<noteq> []" by simp
    from i have "len ((MutexBasedPool.objects q)\<lparr>elems := butlast (elems (MutexBasedPool.objects q))\<rparr>)
        \<le> slice_cap ((MutexBasedPool.objects q)\<lparr>elems := butlast (elems (MutexBasedPool.objects q))\<rparr>)"
      by (simp add: len_def)
    with MutexBasedPool_Get_some[OF ne' i, of w] ne'
    show "\<exists>p'. MutexBasedPool_Get q w = Inr (hd (?cont q), p', w) \<and> ?I p' \<and> ?cont p' = tl (?cont q)"
      by (simp add: hd_rev rev_butlast_tl)
  next
    from assms show "?I p" "n \<le> length (?cont p)" by simp_all
  qed
qed

lemma MutexBasedPool_repeat_Put:
  assumes "len (MutexBasedPool.objects p) + int (length xs) \<le> slice_cap (MutexBasedPool.objects p)"
  shows "\<exists>p'. repeat_Put MutexBasedPool_Put xs p w = Inr (p', w) \<and>
    slice_cap (MutexBasedPool.objects p') = slice_cap (MutexBasedPool.objects p) \<and>
    elems (MutexBasedPool.objects p') = elems (MutexBasedPool.objects p) @ xs"
proof -
  let ?I = "\<lambda>q :: MutexBasedPool. slice_cap (MutexBasedPool.objects q) = slice_cap (MutexBasedPool.objects p)"
  let ?cont = "\<lambda>q :: MutexBasedPool. elems (MutexBasedPool.objects q)"
  show ?thesis
  proof (rule repeat_Put_append[where I = ?I and cont = ?cont
        and cap = "slice_cap (MutexBasedPool.objects p)"])
    fix q :: MutexBasedPool and x w
    assume "?I q" "int (length (?cont q)) < slice_cap (MutexBasedPool.objects p)"
    then have room: "len (MutexBasedPool.objects q) < slice_cap (MutexBasedPool.objects q)"
      and i: "?I q"
      by (simp_all add: len_def)
    from MutexBasedPool_Put_room[OF room, of x w] i
    show "\<exists>p'. MutexBasedPool_Put q x w = Inr (p', w) \<and> ?I p' \<and> ?cont p' = ?cont q @ [x]"
      by simp
  next
    from assms show "?I p"
      "int (length (?cont p)) + int (length xs) \<le> slice_cap (MutexBasedPool.objects p)"
      by (simp_all add: len_def)
  qed
qed

subsection \<open>CondBasedPool is a stack\<close>

lemma CondBasedPool_repeat_Get:
  assumes "len (CondBasedPool.objects p) \<le> slice_cap (CondBasedPool.objects p)"
    "n \<le> length (elems (CondBasedPool.objects p))"
  shows "\<exists>p'. repeat_Get CondBasedPool_Get n p w =
      Inr (take n (rev (elems (CondBasedPool.objects p))), p', w) \<and>
    len (CondBasedPool.objects p') \<le> slice_cap (CondBasedPool.objects p') \<and>
    rev (elems (CondBasedPool.objects p')) = drop n (rev (elems (CondBasedPool.objects p)))"
proof -
  let ?I = "\<lambda>q :: CondBasedPool. len (CondBasedPool.objects q) \<le> slice_cap (CondBasedPool.objects q)"
  let ?cont = "\<lambda>q :: CondBasedPool. rev (elems (CondBasedPool.objects q))"
  show ?thesis
  proof (rule repeat_Get_queue[where I = ?I and cont = ?cont])
    fix q :: CondBasedPool and w assume i: "?I q" and ne: "?cont q \<noteq> []"
    then have ne': "elems (CondBasedPool.objects q) \<noteq> []" by simp
    from i have "len ((CondBasedPool.objects q)\<lparr>elems := butlast (elems (CondBasedPool.objects q))\<rparr>)
        \<le> slice_cap ((CondBasedPool.objects q)\<lparr>elems := butlast (elems (CondBasedPool.objects q))\<rparr>)"
      by (simp add: len_def)
    with CondBasedPool_Get_some[OF ne' i, of w] ne'
    show "\<exists>p'. CondBasedPool_Get q w = Inr (hd (?cont q), p', w) \<and> ?I p' \<and> ?cont p' = tl (?cont q)"
      by (simp add: hd_rev rev_butlast_tl)
  next
    from assms show "?I p" "n \<le> length (?cont p)" by simp_all
  qed
qed

lemma CondBasedPool_repeat_Put:
  assumes "len (CondBasedPool.objects p) + int (length xs) \<le> slice_cap (CondBasedPool.objects p)"
  shows "\<exists>p'. repeat_Put CondBasedPool_Put xs p w = Inr (p', w) \<and>
    slice_cap (CondBasedPool.objects p') = slice_cap (CondBasedPool.objects p) \<and>
    elems (CondBasedPool.objects p') = elems (CondBasedPool.objects p) @ xs"
proof -
  let ?I = "\<lambda>q :: CondBasedPool. slice_cap (CondBasedPool.objects q) = slice_cap (CondBasedPool.objects p)"
  let ?cont = "\<lambda>q :: CondBasedPool. elems (CondBasedPool.objects q)"
  show ?thesis
  proof (rule repeat_Put_append[where I = ?I and cont = ?cont
        and cap = "slice_cap (CondBasedPool.objects p)"])
    fix q :: CondBasedPool and x w
    assume "?I q" "int (length (?cont q)) < slice_cap (CondBasedPool.objects p)"
    then have room: "len (CondBasedPool.objects q) < slice_cap (CondBasedPool.objects q)"
      and i: "?I q"
      by (simp_all add: len_def)
    from CondBasedPool_Put_room[OF room, of x w] i
    show "\<exists>p'. CondBasedPool_Put q x w = Inr (p', w) \<and> ?I p' \<and> ?cont p' = ?cont q @ [x]"
      by simp
  next
    from assms show "?I p"
      "int (length (?cont p)) + int (length xs) \<le> slice_cap (CondBasedPool.objects p)"
      by (simp_all add: len_def)
  qed
qed

subsection \<open>AtomicBasedPool is a stack\<close>

lemma atomic_contents_length:
  assumes "atomic_inv p"
  shows "int (length (atomic_contents p)) = index p"
proof -
  from assms have "nat (index p) \<le> length (AtomicBasedPool.objects p)" "0 \<le> index p"
    unfolding atomic_inv_def by arith+
  then show ?thesis by (simp add: atomic_contents_def)
qed

lemma AtomicBasedPool_repeat_Get:
  assumes "atomic_inv p" "n \<le> length (atomic_contents p)"
  shows "\<exists>p'. repeat_Get AtomicBasedPool_Get n p w =
      Inr (take n (rev (atomic_contents p)), p', w) \<and>
    (atomic_inv p' \<and> AtomicBasedPool.capacity p' = AtomicBasedPool.capacity p) \<and>
    rev (atomic_contents p') = drop n (rev (atomic_contents p))"
proof -
  let ?I = "\<lambda>q :: AtomicBasedPool. atomic_inv q \<and>
    AtomicBasedPool.capacity q = AtomicBasedPool.capacity p"
  let ?cont = "\<lambda>q :: AtomicBasedPool. rev (atomic_contents q)"
  show ?thesis
  proof (rule repeat_Get_queue[where I = ?I and cont = ?cont])
    fix q :: AtomicBasedPool and w assume i: "?I q" and ne: "?cont q \<noteq> []"
    then have inv: "atomic_inv q" and ne': "atomic_contents q \<noteq> []" by simp_all
    from atomic_contents_length[OF inv] ne' have pos: "0 < index q"
      by (cases "atomic_contents q") auto
    from AtomicBasedPool_Get_some[OF inv pos, of w] atomic_contents_Get[OF inv pos] i ne'
    show "\<exists>p'. AtomicBasedPool_Get q w = Inr (hd (?cont q), p', w) \<and> ?I p' \<and>
        ?cont p' = tl (?cont q)"
      by (simp add: hd_rev rev_butlast_tl)
  next
    from assms show "?I p" "n \<le> length (?cont p)" by simp_all
  qed
qed

lemma AtomicBasedPool_repeat_Put:
  assumes "atomic_inv p"
    "int (length (atomic_contents p)) + int (length xs) \<le> AtomicBasedPool.capacity p"
  shows "\<exists>p'. repeat_Put AtomicBasedPool_Put xs p w = Inr (p', w) \<and>
    (atomic_inv p' \<and> AtomicBasedPool.capacity p' = AtomicBasedPool.capacity p) \<and>
    atomic_contents p' = atomic_contents p @ xs"
proof -
  let ?I = "\<lambda>q :: AtomicBasedPool. atomic_inv q \<and>
    AtomicBasedPool.capacity q = AtomicBasedPool.capacity p"
  show ?thesis
  proof (rule repeat_Put_append[where I = ?I and cont = atomic_contents
        and cap = "AtomicBasedPool.capacity p"])
    fix q :: AtomicBasedPool and x w
    assume i: "?I q" and "int (length (atomic_contents q)) < AtomicBasedPool.capacity p"
    then have inv: "atomic_inv q" and room: "index q < AtomicBasedPool.capacity q"
      by (simp_all add: atomic_contents_length)
    from AtomicBasedPool_Put_room[OF inv room, of x w] atomic_contents_Put[OF inv room, of x] i
    show "\<exists>p'. AtomicBasedPool_Put q x w = Inr (p', w) \<and> ?I p' \<and>
        atomic_contents p' = atomic_contents q @ [x]"
      by simp
  next
    from assms show "?I p"
      "int (length (atomic_contents p)) + int (length xs) \<le> AtomicBasedPool.capacity p"
      by simp_all
  qed
qed

subsection \<open>Draining a freshly constructed pool\<close>

lemma length_fresh_ptrs: "length (fresh_ptrs a n) = n"
  by (simp add: fresh_ptrs_def)

lemma NewRingBufferCondPool_Inr_nonneg:
  assumes "NewRingBufferCondPool c alloc clean w = Inr (p, w')"
  shows "0 \<le> c"
  using assms
  by (cases "c < 0") (simp_all add: NewRingBufferCondPool_def NewRingBuffer_def make_slice_def)

lemma NewCondBasedPool_Inr_nonneg:
  assumes "NewCondBasedPool c alloc clean w = Inr (p, w')"
  shows "0 \<le> c"
  using assms
  by (cases "c < 0") (simp_all add: NewCondBasedPool_def make_slice_cap_def)

lemma NewChannelBasedPool_Inr_nonneg:
  assumes "NewChannelBasedPool c alloc clean w = Inr (p, w')"
  shows "0 \<le> c"
  using assms
  by (cases "c < 0") (simp_all add: NewChannelBasedPool_def make_chan_def)

lemma MutexRingBufferPool_fresh_Gets:
  assumes "allocates_new alloc" "NewMutexRingBufferPool c alloc clean w0 = Inr (p0, w1)"
  shows "length w1 = length w0 + nat c \<and>
    (\<exists>p'. repeat_Get MutexRingBufferPool_Get (nat c) p0 w1 = Inr (fresh_ptrs (length w0) (nat c),
      p', w1))"
proof -
  from assms(2) have c: "0 \<le> c" by (rule NewMutexRingBufferPool_Inr_nonneg)
  from NewMutexRingBufferPool_ok[OF c, of alloc clean w0] assms(2)
    alloc_seq_new[OF assms(1), of "nat c" w0]
  have inv: "rb_inv (MutexRingBufferPool.ringBuffer p0)"
    and cont: "rb_contents (MutexRingBufferPool.ringBuffer p0) = fresh_ptrs (length w0) (nat c)"
    and w1: "length w1 = length w0 + nat c"
    by auto
  from cont have "nat c \<le> length (rb_contents (MutexRingBufferPool.ringBuffer p0))"
    by (simp add: length_fresh_ptrs)
  from MutexRingBufferPool_repeat_Get[OF inv this, of w1] cont w1 show ?thesis
    by (auto simp: length_fresh_ptrs)
qed

lemma RWMutexRingBufferPool_fresh_Gets:
  assumes "allocates_new alloc" "NewRWMutexRingBufferPool c alloc clean w0 = Inr (p0, w1)"
  shows "length w1 = length w0 + nat c \<and>
    (\<exists>p'. repeat_Get RWMutexRingBufferPool_Get (nat c) p0 w1 = Inr (fresh_ptrs (length w0) (nat c),
      p', w1))"
proof -
  from assms(2) have c: "0 \<le> c" by (rule NewRWMutexRingBufferPool_Inr_nonneg)
  from NewRWMutexRingBufferPool_ok[OF c, of alloc clean w0] assms(2)
    alloc_seq_new[OF assms(1), of "nat c" w0]
  have inv: "rb_inv (RWMutexRingBufferPool.ringBuffer p0)"
    and cont: "rb_contents (RWMutexRingBufferPool.ringBuffer p0) = fresh_ptrs (length w0) (nat c)"
    and w1: "length w1 = length w0 + nat c"
    by auto
  from cont have "nat c \<le> length (rb_contents (RWMutexRingBufferPool.ringBuffer p0))"
    by (simp add: length_fresh_ptrs)
  from RWMutexRingBufferPool_repeat_Get[OF inv this, of w1] cont w1 show ?thesis
    by (auto simp: length_fresh_ptrs)
qed

lemma RingBufferCondPool_fresh_Gets:
  assumes "allocates_new alloc" "NewRingBufferCondPool c alloc clean w0 = Inr (p0, w1)"
  shows "length w1 = length w0 + nat c \<and>
    (\<exists>p'. repeat_Get RingBufferCondPool_Get (nat c) p0 w1 = Inr (fresh_ptrs (length w0) (nat c),
      p', w1))"
proof -
  from assms(2) have c: "0 \<le> c" by (rule NewRingBufferCondPool_Inr_nonneg)
  from NewRingBufferCondPool_ok[OF c, of alloc clean w0] assms(2)
    alloc_seq_new[OF assms(1), of "nat c" w0]
  have inv: "rb_inv (RingBufferCondPool.ringBuffer p0)"
    and cont: "rb_contents (RingBufferCondPool.ringBuffer p0) = fresh_ptrs (length w0) (nat c)"
    and w1: "length w1 = length w0 + nat c"
    by auto
  from cont have "nat c \<le> length (rb_contents (RingBufferCondPool.ringBuffer p0))"
    by (simp add: length_fresh_ptrs)
  from RingBufferCondPool_repeat_Get[OF inv this, of w1] cont w1 show ?thesis
    by (auto simp: length_fresh_ptrs)
qed

lemma MutexBasedPool_fresh_Gets:
  assumes "allocates_new alloc" "NewMutexBasedPool c alloc clean w0 = Inr (p0, w1)"
  shows "length w1 = length w0 + nat c \<and>
    (\<exists>p'. repeat_Get MutexBasedPool_Get (nat c) p0 w1 = Inr (rev (fresh_ptrs (length w0) (nat c)),
      p', w1))"
proof -
  from assms(2) have c: "0 \<le> c" by (rule NewMutexBasedPool_Inr_nonneg)
  from NewMutexBasedPool_ok[OF c, of alloc clean w0] assms(2)
    alloc_seq_new[OF assms(1), of "nat c" w0]
  have cont: "elems (MutexBasedPool.objects p0) = fresh_ptrs (length w0) (nat c)"
    and cap: "slice_cap (MutexBasedPool.objects p0) = c"
    and w1: "length w1 = length w0 + nat c"
    by auto
  from cont cap c have inv: "len (MutexBasedPool.objects p0) \<le> slice_cap (MutexBasedPool.objects p0)"
    and n: "nat c \<le> length (elems (MutexBasedPool.objects p0))"
    by (simp_all add: len_def length_fresh_ptrs)
  from MutexBasedPool_repeat_Get[OF inv n, of w1] cont w1 show ?thesis
    by (auto simp: length_fresh_ptrs)
qed

lemma CondBasedPool_fresh_Gets:
  assumes "allocates_new alloc" "NewCondBasedPool c alloc clean w0 = Inr (p0, w1)"
  shows "length w1 = length w0 + nat c \<and>
    (\<exists>p'. repeat_Get CondBasedPool_Get (nat c) p0 w1 = Inr (rev (fresh_ptrs (length w0) (nat c)),
      p', w1))"
proof -
  from assms(2) have c: "0 \<le> c" by (rule NewCondBasedPool_Inr_nonneg)
  from NewCondBasedPool_ok[OF c, of alloc clean w0] assms(2)
    alloc_seq_new[OF assms(1), of "nat c" w0]
  have cont: "elems (CondBasedPool.objects p0) = fresh_ptrs (length w0) (nat c)"
    and cap: "slice_cap (CondBasedPool.objects p0) = c"
    and w1: "length w1 = length w0 + nat c"
    by auto
  from cont cap c have inv: "len (CondBasedPool.objects p0) \<le> slice_cap (CondBasedPool.objects p0)"
    and n: "nat c \<le> length (elems (CondBasedPool.objects p0))"
    by (simp_all add: len_def length_fresh_ptrs)
  from CondBasedPool_repeat_Get[OF inv n, of w1] cont w1 show ?thesis
    by (auto simp: length_fresh_ptrs)
qed

lemma ChannelBasedPool_fresh_Gets:
  assumes "allocates_new alloc" "NewChannelBasedPool c alloc clean w0 = Inr (p0, w1)"
  shows "length w1 = length w0 + nat c \<and>
    (\<exists>p'. repeat_Get ChannelBasedPool_Get (nat c) p0 w1 =
       Inr (fresh_ptrs (length w0) (nat c), p', w1))"
proof -
  from assms(2) have c: "0 \<le> c" by (rule NewChannelBasedPool_Inr_nonneg)
  from NewChannelBasedPool_ok[OF c, of alloc clean w0] assms(2)
    alloc_seq_new[OF assms(1), of "nat c" w0]
  have cont: "queue (ChannelBasedPool.objects p0) = fresh_ptrs (length w0) (nat c)"
    and w1: "length w1 = length w0 + nat c"
    by auto
  from cont have "nat c \<le> length (queue (ChannelBasedPool.objects p0))"
    by (simp add: length_fresh_ptrs)
  from ChannelBasedPool_repeat_Get[OF this, of w1] cont w1 show ?thesis
    by (auto simp: length_fresh_ptrs)
qed

lemma AtomicBasedPool_fresh_Gets:
  assumes "allocates_new alloc" "NewAtomicBasedPool c alloc clean w0 = Inr (p0, w1)"
  shows "length w1 = length w0 + nat c \<and>
    (\<exists>p'. repeat_Get AtomicBasedPool_Get (nat c) p0 w1 =
       Inr (rev (fresh_ptrs (length w0) (nat c)), p', w1))"
proof -
  from assms(2) have c: "0 \<le> c" by (rule NewAtomicBasedPool_Inr_nonneg)
  from NewAtomicBasedPool_inv[OF c, of alloc clean w0] assms(2)
    alloc_seq_new[OF assms(1), of "nat c" w0]
  have inv: "atomic_inv p0"
    and cont: "atomic_contents p0 = fresh_ptrs (length w0) (nat c)"
    and w1: "length w1 = length w0 + nat c"
    by auto
  from cont have "nat c \<le> length (atomic_contents p0)"
    by (simp add: length_fresh_ptrs)
  from AtomicBasedPool_repeat_Get[OF inv this, of w1] cont w1 show ?thesis
    by (auto simp: length_fresh_ptrs)
qed

lemmas eval_sharded_defs =
  NewShardedMutexRingBufferPool_def NewShardedChannelBasedPool_def
  NewShardedAtomicBasedPool_def NewShardedCondBasedPool_def
  NewShardedRingBufferCondPool_def NewShardedGoroutineIDPool_def
  NewCondBasedPool_def NewRingBufferCondPool_def
  CondBasedPool_Get_def CondBasedPool_Put_def
  RingBufferCondPool_Get_def RingBufferCondPool_Put_def IsEmpty_def IsFull_def
  pinned_Get_def cached_Put_def deref_def assign_def testCleaner_def
  ShardedMutexRingBufferPool_Get_def ShardedMutexRingBufferPool_Put_def
  ShardedChannelBasedPool_Get_def ShardedChannelBasedPool_Put_def
  ShardedAtomicBasedPool_Get_def ShardedAtomicBasedPool_Put_def
  ShardedCondBasedPool_Get_def ShardedCondBasedPool_Put_def
  ShardedRingBufferCondPool_Get_def ShardedRingBufferCondPool_Put_def

subsection \<open>Invariants in the states a pool can reach\<close>

lemma MutexRingBufferPool_reachable_inv:
  assumes "NewMutexRingBufferPool c alloc clean w0 = Inr (p0, w1)"
    "run_ops MutexRingBufferPool_Get MutexRingBufferPool_Put ops p0 w1 = Inr (p, w)"
  shows "rb_inv (MutexRingBufferPool.ringBuffer p)" "RingBuffer.capacity (MutexRingBufferPool.ringBuffer p) = c"
proof -
  note new = NewMutexRingBufferPool_inv[OF assms(1)]
  from MutexRingBufferPool_run_ops[OF new(1), of ops w1] assms(2) new(2)
  show "rb_inv (MutexRingBufferPool.ringBuffer p)" "RingBuffer.capacity (MutexRingBufferPool.ringBuffer p) = c"
    by auto
qed

lemma RWMutexRingBufferPool_reachable_inv:
  assumes "NewRWMutexRingBufferPool c alloc clean w0 = Inr (p0, w1)"
    "run_ops RWMutexRingBufferPool_Get RWMutexRingBufferPool_Put ops p0 w1 = Inr (p, w)"
  shows "rb_inv (RWMutexRingBufferPool.ringBuffer p)" "RingBuffer.capacity (RWMutexRingBufferPool.ringBuffer p) = c"
proof -
  note new = NewRWMutexRingBufferPool_inv[OF assms(1)]
  from RWMutexRingBufferPool_run_ops[OF new(1), of ops w1] assms(2) new(2)
  show "rb_inv (RWMutexRingBufferPool.ringBuffer p)" "RingBuffer.capacity (RWMutexRingBufferPool.ringBuffer p) = c"
    by auto
qed

lemma AtomicBasedPool_reachable_inv:
  assumes "NewAtomicBasedPool c alloc clean w0 = Inr (p0, w1)"
    "run_ops AtomicBasedPool_Get AtomicBasedPool_Put ops p0 w1 = Inr (p, w)"
  shows "atomic_inv p" "AtomicBasedPool.capacity p = c"
proof -
  note new = NewAtomicBasedPool_inv'[OF assms(1)]
  from AtomicBasedPool_run_ops[OF new(1), of ops w1] assms(2) new(2)
  show "atomic_inv p" "AtomicBasedPool.capacity p = c"
    by auto
qed

lemma MutexBasedPool_reachable_inv:
  assumes "NewMutexBasedPool c alloc clean w0 = Inr (p0, w1)"
    "run_ops MutexBasedPool_Get MutexBasedPool_Put ops p0 w1 = Inr (p, w)"
  shows "len (MutexBasedPool.objects p) \<le> slice_cap (MutexBasedPool.objects p)"
  using MutexBasedPool_run_ops[OF NewMutexBasedPool_inv[OF assms(1)], of ops w1] assms(2)
  by auto

lemma NewRingBufferCondPool_inv:
  assumes "NewRingBufferCondPool c alloc clean w = Inr (p, w')"
  shows "rb_inv (RingBufferCondPool.ringBuffer p)"
    "RingBuffer.capacity (RingBufferCondPool.ringBuffer p) = c"
    "size_rb (RingBufferCondPool.ringBuffer p) = c"
  using assms NewRingBufferCondPool_ok[OF NewRingBufferCondPool_Inr_nonneg[OF assms],
    of alloc clean w]
  by auto

lemma RingBufferCondPool_reachable_inv:
  assumes "NewRingBufferCondPool c alloc clean w0 = Inr (p0, w1)"
    "run_ops RingBufferCondPool_Get RingBufferCondPool_Put ops p0 w1 = Inr (p, w)"
  shows "rb_inv (RingBufferCondPool.ringBuffer p) \<and>
    RingBuffer.capacity (RingBufferCondPool.ringBuffer p) = c"
proof -
  let ?I = "\<lambda>q :: RingBufferCondPool. rb_inv (RingBufferCondPool.ringBuffer q) \<and>
    RingBuffer.capacity (RingBufferCondPool.ringBuffer q) = c"
  show ?thesis
  proof (rule run_ops_preserves[where I = ?I, OF _ _ _ assms(2)])
    fix q :: RingBufferCondPool and w r q' w'
    assume i: "?I q" and g: "RingBufferCondPool_Get q w = Inr (r, q', w')"
    show "?I q'"
    proof (cases "size_rb (RingBufferCondPool.ringBuffer q) = 0")
      case True
      with g RingBufferCondPool_Get_empty[OF True, of w] show ?thesis by simp
    next
      case False
      with i have pos: "0 < size_rb (RingBufferCondPool.ringBuffer q)"
        unfolding rb_inv_def by arith
      from i have inv: "rb_inv (RingBufferCondPool.ringBuffer q)" by simp
      from RingBufferCondPool_Get_some[OF inv pos, of w] g i show ?thesis
        by (metis Inr_inject Pair_inject RingBufferCondPool.select_convs(1)
            RingBufferCondPool.surjective RingBufferCondPool.update_convs(1))
    qed
  next
    fix q :: RingBufferCondPool and x w q' w'
    assume i: "?I q" and pt: "RingBufferCondPool_Put q x w = Inr (q', w')"
    then have inv: "rb_inv (RingBufferCondPool.ringBuffer q)" by simp
    show "?I q'"
    proof (cases "size_rb (RingBufferCondPool.ringBuffer q)
        = RingBuffer.capacity (RingBufferCondPool.ringBuffer q)")
      case True
      with pt RingBufferCondPool_Put_full[OF inv True, of x w] i show ?thesis by simp
    next
      case False
      with inv have room: "size_rb (RingBufferCondPool.ringBuffer q)
          < RingBuffer.capacity (RingBufferCondPool.ringBuffer q)"
        unfolding rb_inv_def by arith
      from RingBufferCondPool_Put_room[OF inv room, of x w] pt i show ?thesis
        by (metis Inr_inject Pair_inject RingBufferCondPool.select_convs(1)
            RingBufferCondPool.surjective RingBufferCondPool.update_convs(1))
    qed
  next
    from NewRingBufferCondPool_inv[OF assms(1)] show "?I p0" by simp
  qed
qed

lemma CondBasedPool_reachable_inv:
  assumes "NewCondBasedPool c alloc clean w0 = Inr (p0, w1)"
    "run_ops CondBasedPool_Get CondBasedPool_Put ops p0 w1 = Inr (p, w)"
  shows "len (CondBasedPool.objects p) \<le> slice_cap (CondBasedPool.objects p)"
proof -
  let ?I = "\<lambda>q :: CondBasedPool. len (CondBasedPool.objects q) \<le> slice_cap (CondBasedPool.objects q)"
  show ?thesis
  proof (rule run_ops_preserves[where I = ?I, OF _ _ _ assms(2)])
    fix q :: CondBasedPool and w r q' w'
    assume i: "?I q" and g: "CondBasedPool_Get q w = Inr (r, q', w')"
    show "?I q'"
    proof (cases "elems (CondBasedPool.objects q) = []")
      case True
      with g CondBasedPool_Get_empty[OF True, of w] show ?thesis by simp
    next
      case False
      from CondBasedPool_Get_some[OF False i, of w] g i show ?thesis
        by (auto simp: len_def)
    qed
  next
    fix q :: CondBasedPool and x w q' w'
    assume i: "?I q" and pt: "CondBasedPool_Put q x w = Inr (q', w')"
    show "?I q'"
    proof (cases "len (CondBasedPool.objects q) = slice_cap (CondBasedPool.objects q)")
      case True
      with pt CondBasedPool_Put_full[OF True, of x w] i show ?thesis by simp
    next
      case False
      with i have room: "len (CondBasedPool.objects q) < slice_cap (CondBasedPool.objects q)"
        by simp
      from CondBasedPool_Put_room[OF room, of x w] pt room show ?thesis
        by (auto simp: len_def)
    qed
  next
    from NewCondBasedPool_ok[OF NewCondBasedPool_Inr_nonneg[OF assms(1)], of alloc clean w0]
      assms(1) NewCondBasedPool_Inr_nonneg[OF assms(1)]
    show "?I p0" by (auto simp: len_def alloc_seq_length)
  qed
qed

subsection \<open>The order in which objects come back\<close>

lemma MutexRingBufferPool_order:
  assumes "rb_inv (MutexRingBufferPool.ringBuffer p)"
    "size_rb (MutexRingBufferPool.ringBuffer p) + int (length xs) \<le> RingBuffer.capacity (MutexRingBufferPool.ringBuffer p)"
    "n \<le> nat (size_rb (MutexRingBufferPool.ringBuffer p)) + length xs"
  shows "\<exists>p1. repeat_Put MutexRingBufferPool_Put xs p w = Inr (p1, w) \<and>
    (\<exists>p2. repeat_Get MutexRingBufferPool_Get n p1 w =
       Inr (take n (rb_contents (MutexRingBufferPool.ringBuffer p) @ xs), p2, w))"
proof -
  from assms(1) have s: "0 \<le> size_rb (MutexRingBufferPool.ringBuffer p)" by (simp add: rb_inv_def)
  note l = rb_contents_length[OF s]
  from assms(2) l have "int (length (rb_contents (MutexRingBufferPool.ringBuffer p))) + int (length xs)
      \<le> RingBuffer.capacity (MutexRingBufferPool.ringBuffer p)"
    by simp
  from MutexRingBufferPool_repeat_Put[OF assms(1) this, of w]
  obtain p1 where p1: "repeat_Put MutexRingBufferPool_Put xs p w = Inr (p1, w)"
    "rb_inv (MutexRingBufferPool.ringBuffer p1)"
    "rb_contents (MutexRingBufferPool.ringBuffer p1) = rb_contents (MutexRingBufferPool.ringBuffer p) @ xs"
    by blast
  from l have "length (rb_contents (MutexRingBufferPool.ringBuffer p)) = nat (size_rb (MutexRingBufferPool.ringBuffer p))"
    by simp
  with assms(3) p1(3) have "n \<le> length (rb_contents (MutexRingBufferPool.ringBuffer p1))" by simp
  from MutexRingBufferPool_repeat_Get[OF p1(2) this, of w] p1 show ?thesis by auto
qed

lemma RWMutexRingBufferPool_order:
  assumes "rb_inv (RWMutexRingBufferPool.ringBuffer p)"
    "size_rb (RWMutexRingBufferPool.ringBuffer p) + int (length xs) \<le> RingBuffer.capacity (RWMutexRingBufferPool.ringBuffer p)"
    "n \<le> nat (size_rb (RWMutexRingBufferPool.ringBuffer p)) + length xs"
  shows "\<exists>p1. repeat_Put RWMutexRingBufferPool_Put xs p w = Inr (p1, w) \<and>
    (\<exists>p2. repeat_Get RWMutexRingBufferPool_Get n p1 w =
       Inr (take n (rb_contents (RWMutexRingBufferPool.ringBuffer p) @ xs), p2, w))"
proof -
  from assms(1) have s: "0 \<le> size_rb (RWMutexRingBufferPool.ringBuffer p)" by (simp add: rb_inv_def)
  note l = rb_contents_length[OF s]
  from assms(2) l have "int (length (rb_contents (RWMutexRingBufferPool.ringBuffer p))) + int (length xs)
      \<le> RingBuffer.capacity (RWMutexRingBufferPool.ringBuffer p)"
    by simp
  from RWMutexRingBufferPool_repeat_Put[OF assms(1) this, of w]
  obtain p1 where p1: "repeat_Put RWMutexRingBufferPool_Put xs p w = Inr (p1, w)"
    "rb_inv (RWMutexRingBufferPool.ringBuffer p1)"
    "rb_contents (RWMutexRingBufferPool.ringBuffer p1) = rb_contents (RWMutexRingBufferPool.ringBuffer p) @ xs"
    by blast
  from l have "length (rb_contents (RWMutexRingBufferPool.ringBuffer p)) = nat (size_rb (RWMutexRingBufferPool.ringBuffer p))"
    by simp
  with assms(3) p1(3) have "n \<le> length (rb_contents (RWMutexRingBufferPool.ringBuffer p1))" by simp
  from RWMutexRingBufferPool_repeat_Get[OF p1(2) this, of w] p1 show ?thesis by auto
qed

lemma RingBufferCondPool_order:
  assumes "rb_inv (RingBufferCondPool.ringBuffer p)"
    "size_rb (RingBufferCondPool.ringBuffer p) + int (length xs) \<le> RingBuffer.capacity (RingBufferCondPool.ringBuffer p)"
    "n \<le> nat (size_rb (RingBufferCondPool.ringBuffer p)) + length xs"
  shows "\<exists>p1. repeat_Put RingBufferCondPool_Put xs p w = Inr (p1, w) \<and>
    (\<exists>p2. repeat_Get RingBufferCondPool_Get n p1 w =
       Inr (take n (rb_contents (RingBufferCondPool.ringBuffer p) @ xs), p2, w))"
proof -
  from assms(1) have s: "0 \<le> size_rb (RingBufferCondPool.ringBuffer p)" by (simp add: rb_inv_def)
  note l = rb_contents_length[OF s]
  from assms(2) l have "int (length (rb_contents (RingBufferCondPool.ringBuffer p))) + int (length xs)
      \<le> RingBuffer.capacity (RingBufferCondPool.ringBuffer p)"
    by simp
  from RingBufferCondPool_repeat_Put[OF assms(1) this, of w]
  obtain p1 where p1: "repeat_Put RingBufferCondPool_Put xs p w = Inr (p1, w)"
    "rb_inv (RingBufferCondPool.ringBuffer p1)"
    "rb_contents (RingBufferCondPool.ringBuffer p1) = rb_contents (RingBufferCondPool.ringBuffer p) @ xs"
    by blast
  from l have "length (rb_contents (RingBufferCondPool.ringBuffer p)) = nat (size_rb (RingBufferCondPool.ringBuffer p))"
    by simp
  with assms(3) p1(3) have "n \<le> length (rb_contents (RingBufferCondPool.ringBuffer p1))" by simp
  from RingBufferCondPool_repeat_Get[OF p1(2) this, of w] p1 show ?thesis by auto
qed

lemma MutexBasedPool_order:
  assumes "len (MutexBasedPool.objects p) + int (length xs) \<le> slice_cap (MutexBasedPool.objects p)"
    "n \<le> length (elems (MutexBasedPool.objects p)) + length xs"
  shows "\<exists>p1. repeat_Put MutexBasedPool_Put xs p w = Inr (p1, w) \<and>
    (\<exists>p2. repeat_Get MutexBasedPool_Get n p1 w =
       Inr (take n (rev (elems (MutexBasedPool.objects p) @ xs)), p2, w))"
proof -
  from MutexBasedPool_repeat_Put[OF assms(1), of w]
  obtain p1 where p1: "repeat_Put MutexBasedPool_Put xs p w = Inr (p1, w)"
    "slice_cap (MutexBasedPool.objects p1) = slice_cap (MutexBasedPool.objects p)"
    "elems (MutexBasedPool.objects p1) = elems (MutexBasedPool.objects p) @ xs"
    by blast
  from assms(1) p1 have inv: "len (MutexBasedPool.objects p1) \<le> slice_cap (MutexBasedPool.objects p1)"
    by (simp add: len_def)
  from assms(2) p1(3) have "n \<le> length (elems (MutexBasedPool.objects p1))" by simp
  from MutexBasedPool_repeat_Get[OF inv this, of w] p1 show ?thesis by auto
qed

lemma CondBasedPool_order:
  assumes "len (CondBasedPool.objects p) + int (length xs) \<le> slice_cap (CondBasedPool.objects p)"
    "n \<le> length (elems (CondBasedPool.objects p)) + length xs"
  shows "\<exists>p1. repeat_Put CondBasedPool_Put xs p w = Inr (p1, w) \<and>
    (\<exists>p2. repeat_Get CondBasedPool_Get n p1 w =
       Inr (take n (rev (elems (CondBasedPool.objects p) @ xs)), p2, w))"
proof -
  from CondBasedPool_repeat_Put[OF assms(1), of w]
  obtain p1 where p1: "repeat_Put CondBasedPool_Put xs p w = Inr (p1, w)"
    "slice_cap (CondBasedPool.objects p1) = slice_cap (CondBasedPool.objects p)"
    "elems (CondBasedPool.objects p1) = elems (CondBasedPool.objects p) @ xs"
    by blast
  from assms(1) p1 have inv: "len (CondBasedPool.objects p1) \<le> slice_cap (CondBasedPool.objects p1)"
    by (simp add: len_def)
  from assms(2) p1(3) have "n \<le> length (elems (CondBasedPool.objects p1))" by simp
  from CondBasedPool_repeat_Get[OF inv this, of w] p1 show ?thesis by auto
qed

lemma AtomicBasedPool_order:
  assumes "atomic_inv p" "index p + int (length xs) \<le> AtomicBasedPool.capacity p"
    "n \<le> nat (index p) + length xs"
  shows "\<exists>p1. repeat_Put AtomicBasedPool_Put xs p w = Inr (p1, w) \<and>
    (\<exists>p2. repeat_Get AtomicBasedPool_Get n p1 w =
       Inr (take n (rev (atomic_contents p @ xs)), p2, w))"
proof -
  note l = atomic_contents_length[OF assms(1)]
  from assms(2) l have "int (length (atomic_contents p)) + int (length xs)
      \<le> AtomicBasedPool.capacity p"
    by simp
  from AtomicBasedPool_repeat_Put[OF assms(1) this, of w]
  obtain p1 where p1: "repeat_Put AtomicBasedPool_Put xs p w = Inr (p1, w)"
    "atomic_inv p1" "atomic_contents p1 = atomic_contents p @ xs"
    by blast
  from l have "length (atomic_contents p) = nat (index p)" by simp
  with assms(3) p1(3) have "n \<le> length (atomic_contents p1)" by simp
  from AtomicBasedPool_repeat_Get[OF p1(2) this, of w] p1 show ?thesis by auto
qed

lemma ChannelBasedPool_order:
  assumes "repeat_Put ChannelBasedPool_Put xs p w = Inr (p1, w1)"
    "n \<le> length (queue (ChannelBasedPool.objects p)) + length xs"
  shows "\<exists>p2. repeat_Get ChannelBasedPool_Get n p1 w1 =
    Inr (take n (queue (ChannelBasedPool.objects p) @ xs), p2, w1)"
proof -
  note q = ChannelBasedPool_repeat_Put[OF assms(1)]
  with assms(2) have "n \<le> length (queue (ChannelBasedPool.objects p1))" by simp
  from ChannelBasedPool_repeat_Get[OF this, of w1] q show ?thesis by auto
qed


lemma MutexRingBufferPool_order_reachable:
  assumes "NewMutexRingBufferPool c alloc clean w0 = Inr (p0, w1)"
    "run_ops MutexRingBufferPool_Get MutexRingBufferPool_Put ops p0 w1 = Inr (p, w)"
    "size_rb (MutexRingBufferPool.ringBuffer p) + int (length xs) \<le> c"
    "n \<le> nat (size_rb (MutexRingBufferPool.ringBuffer p)) + length xs"
  shows "\<exists>p1. repeat_Put MutexRingBufferPool_Put xs p w = Inr (p1, w) \<and>
    (\<exists>p2. repeat_Get MutexRingBufferPool_Get n p1 w =
       Inr (take n (rb_contents (MutexRingBufferPool.ringBuffer p) @ xs), p2, w))"
proof -
  note r = MutexRingBufferPool_reachable_inv[OF assms(1,2)]
  have inv: "rb_inv (MutexRingBufferPool.ringBuffer p)"
    and cap: "RingBuffer.capacity (MutexRingBufferPool.ringBuffer p) = c"
    by (rule r)+
  from assms(3) cap
  have "size_rb (MutexRingBufferPool.ringBuffer p) + int (length xs) \<le> RingBuffer.capacity (MutexRingBufferPool.ringBuffer p)"
    by simp
  from MutexRingBufferPool_order[OF inv this assms(4)] show ?thesis .
qed

lemma RWMutexRingBufferPool_order_reachable:
  assumes "NewRWMutexRingBufferPool c alloc clean w0 = Inr (p0, w1)"
    "run_ops RWMutexRingBufferPool_Get RWMutexRingBufferPool_Put ops p0 w1 = Inr (p, w)"
    "size_rb (RWMutexRingBufferPool.ringBuffer p) + int (length xs) \<le> c"
    "n \<le> nat (size_rb (RWMutexRingBufferPool.ringBuffer p)) + length xs"
  shows "\<exists>p1. repeat_Put RWMutexRingBufferPool_Put xs p w = Inr (p1, w) \<and>
    (\<exists>p2. repeat_Get RWMutexRingBufferPool_Get n p1 w =
       Inr (take n (rb_contents (RWMutexRingBufferPool.ringBuffer p) @ xs), p2, w))"
proof -
  note r = RWMutexRingBufferPool_reachable_inv[OF assms(1,2)]
  have inv: "rb_inv (RWMutexRingBufferPool.ringBuffer p)"
    and cap: "RingBuffer.capacity (RWMutexRingBufferPool.ringBuffer p) = c"
    by (rule r)+
  from assms(3) cap
  have "size_rb (RWMutexRingBufferPool.ringBuffer p) + int (length xs) \<le> RingBuffer.capacity (RWMutexRingBufferPool.ringBuffer p)"
    by simp
  from RWMutexRingBufferPool_order[OF inv this assms(4)] show ?thesis .
qed

lemma RingBufferCondPool_order_reachable:
  assumes "NewRingBufferCondPool c alloc clean w0 = Inr (p0, w1)"
    "run_ops RingBufferCondPool_Get RingBufferCondPool_Put ops p0 w1 = Inr (p, w)"
    "size_rb (RingBufferCondPool.ringBuffer p) + int (length xs) \<le> c"
    "n \<le> nat (size_rb (RingBufferCondPool.ringBuffer p)) + length xs"
  shows "\<exists>p1. repeat_Put RingBufferCondPool_Put xs p w = Inr (p1, w) \<and>
    (\<exists>p2. repeat_Get RingBufferCondPool_Get n p1 w =
       Inr (take n (rb_contents (RingBufferCondPool.ringBuffer p) @ xs), p2, w))"
proof -
  from RingBufferCondPool_reachable_inv[OF assms(1,2)]
  have inv: "rb_inv (RingBufferCondPool.ringBuffer p)"
    and cap: "RingBuffer.capacity (RingBufferCondPool.ringBuffer p) = c"
    by simp_all
  from assms(3) cap
  have "size_rb (RingBufferCondPool.ringBuffer p) + int (length xs) \<le> RingBuffer.capacity (RingBufferCondPool.ringBuffer p)"
    by simp
  from RingBufferCondPool_order[OF inv this assms(4)] show ?thesis .
qed

lemma AtomicBasedPool_order_reachable:
  assumes "NewAtomicBasedPool c alloc clean w0 = Inr (p0, w1)"
    "run_ops AtomicBasedPool_Get AtomicBasedPool_Put ops p0 w1 = Inr (p, w)"
    "index p + int (length xs) \<le> c" "n \<le> nat (index p) + length xs"
  shows "\<exists>p1. repeat_Put AtomicBasedPool_Put xs p w = Inr (p1, w) \<and>
    (\<exists>p2. repeat_Get AtomicBasedPool_Get n p1 w =
       Inr (take n (rev (atomic_contents p @ xs)), p2, w))"
proof -
  note r = AtomicBasedPool_reachable_inv[OF assms(1,2)]
  from assms(3) r(2) have "index p + int (length xs) \<le> AtomicBasedPool.capacity p" by simp
  from AtomicBasedPool_order[OF r(1) this assms(4)] show ?thesis .
qed

subsection \<open>What Put does in the states a pool can reach\<close>

lemma MutexRingBufferPool_Put_reachable:
  assumes "NewMutexRingBufferPool c alloc clean w0 = Inr (p0, w1)"
    "run_ops MutexRingBufferPool_Get MutexRingBufferPool_Put ops p0 w1 = Inr (p, w)"
  shows "\<exists>p'. MutexRingBufferPool_Put p obj w = Inr (p', w) \<and>
    (if size_rb (MutexRingBufferPool.ringBuffer p) = c then p' = p
     else rb_contents (MutexRingBufferPool.ringBuffer p') = rb_contents (MutexRingBufferPool.ringBuffer p) @ [obj] \<and>
          size_rb (MutexRingBufferPool.ringBuffer p') = size_rb (MutexRingBufferPool.ringBuffer p) + 1)"
proof -
  note r = MutexRingBufferPool_reachable_inv[OF assms]
  have inv: "rb_inv (MutexRingBufferPool.ringBuffer p)"
    and cap: "RingBuffer.capacity (MutexRingBufferPool.ringBuffer p) = c"
    by (rule r)+
  show ?thesis
  proof (cases "size_rb (MutexRingBufferPool.ringBuffer p) = c")
    case True
    with cap have "size_rb (MutexRingBufferPool.ringBuffer p) = RingBuffer.capacity (MutexRingBufferPool.ringBuffer p)"
      by simp
    from MutexRingBufferPool_Put_full[OF inv this, of obj w] True show ?thesis by simp
  next
    case False
    with inv cap have room: "size_rb (MutexRingBufferPool.ringBuffer p) < RingBuffer.capacity (MutexRingBufferPool.ringBuffer p)"
      unfolding rb_inv_def by arith
    from MutexRingBufferPool_Put_room[OF inv room, of obj w] False show ?thesis
      by (metis MutexRingBufferPool.select_convs(1) MutexRingBufferPool.surjective MutexRingBufferPool.update_convs(1))
  qed
qed

lemma RWMutexRingBufferPool_Put_reachable:
  assumes "NewRWMutexRingBufferPool c alloc clean w0 = Inr (p0, w1)"
    "run_ops RWMutexRingBufferPool_Get RWMutexRingBufferPool_Put ops p0 w1 = Inr (p, w)"
  shows "\<exists>p'. RWMutexRingBufferPool_Put p obj w = Inr (p', w) \<and>
    (if size_rb (RWMutexRingBufferPool.ringBuffer p) = c then p' = p
     else rb_contents (RWMutexRingBufferPool.ringBuffer p') = rb_contents (RWMutexRingBufferPool.ringBuffer p) @ [obj] \<and>
          size_rb (RWMutexRingBufferPool.ringBuffer p') = size_rb (RWMutexRingBufferPool.ringBuffer p) + 1)"
proof -
  note r = RWMutexRingBufferPool_reachable_inv[OF assms]
  have inv: "rb_inv (RWMutexRingBufferPool.ringBuffer p)"
    and cap: "RingBuffer.capacity (RWMutexRingBufferPool.ringBuffer p) = c"
    by (rule r)+
  show ?thesis
  proof (cases "size_rb (RWMutexRingBufferPool.ringBuffer p) = c")
    case True
    with cap have "size_rb (RWMutexRingBufferPool.ringBuffer p) = RingBuffer.capacity (RWMutexRingBufferPool.ringBuffer p)"
      by simp
    from RWMutexRingBufferPool_Put_full[OF inv this, of obj w] True show ?thesis by simp
  next
    case False
    with inv cap have room: "size_rb (RWMutexRingBufferPool.ringBuffer p) < RingBuffer.capacity (RWMutexRingBufferPool.ringBuffer p)"
      unfolding rb_inv_def by arith
    from RWMutexRingBufferPool_Put_room[OF inv room, of obj w] False show ?thesis
      by (metis RWMutexRingBufferPool.select_convs(1) RWMutexRingBufferPool.surjective RWMutexRingBufferPool.update_convs(1))
  qed
qed

lemma RingBufferCondPool_Put_reachable:
  assumes "NewRingBufferCondPool c alloc clean w0 = Inr (p0, w1)"
    "run_ops RingBufferCondPool_Get RingBufferCondPool_Put ops p0 w1 = Inr (p, w)"
  shows "\<exists>p'. RingBufferCondPool_Put p obj w = Inr (p', w) \<and>
    (if size_rb (RingBufferCondPool.ringBuffer p) = c then p' = p
     else rb_contents (RingBufferCondPool.ringBuffer p') = rb_contents (RingBufferCondPool.ringBuffer p) @ [obj] \<and>
          size_rb (RingBufferCondPool.ringBuffer p') = size_rb (RingBufferCondPool.ringBuffer p) + 1)"
proof -
  from RingBufferCondPool_reachable_inv[OF assms]
  have inv: "rb_inv (RingBufferCondPool.ringBuffer p)"
    and cap: "RingBuffer.capacity (RingBufferCondPool.ringBuffer p) = c"
    by simp_all
  show ?thesis
  proof (cases "size_rb (RingBufferCondPool.ringBuffer p) = c")
    case True
    with cap have "size_rb (RingBufferCondPool.ringBuffer p) = RingBuffer.capacity (RingBufferCondPool.ringBuffer p)"
      by simp
    from RingBufferCondPool_Put_full[OF inv this, of obj w] True show ?thesis by simp
  next
    case False
    with inv cap have room: "size_rb (RingBufferCondPool.ringBuffer p) < RingBuffer.capacity (RingBufferCondPool.ringBuffer p)"
      unfolding rb_inv_def by arith
    from RingBufferCondPool_Put_room[OF inv room, of obj w] False show ?thesis
      by (metis RingBufferCondPool.select_convs(1) RingBufferCondPool.surjective RingBufferCondPool.update_convs(1))
  qed
qed

lemma MutexBasedPool_Put_cases:
  "\<exists>p'. MutexBasedPool_Put p obj w = Inr (p', w) \<and>
    (if len (MutexBasedPool.objects p) < slice_cap (MutexBasedPool.objects p)
     then elems (MutexBasedPool.objects p') = elems (MutexBasedPool.objects p) @ [obj] \<and>
          slice_cap (MutexBasedPool.objects p') = slice_cap (MutexBasedPool.objects p)
     else p' = p)"
  by (simp add: MutexBasedPool_Put_def slice_append_def)

lemma CondBasedPool_Put_cases:
  "\<exists>p'. CondBasedPool_Put p obj w = Inr (p', w) \<and>
    (if len (CondBasedPool.objects p) < slice_cap (CondBasedPool.objects p)
     then elems (CondBasedPool.objects p') = elems (CondBasedPool.objects p) @ [obj] \<and>
          slice_cap (CondBasedPool.objects p') = slice_cap (CondBasedPool.objects p)
     else p' = p)"
  by (simp add: CondBasedPool_Put_def slice_append_def)

lemma AtomicBasedPool_Put_reachable:
  assumes "NewAtomicBasedPool c alloc clean w0 = Inr (p0, w1)"
    "run_ops AtomicBasedPool_Get AtomicBasedPool_Put ops p0 w1 = Inr (p, w)"
  shows "\<exists>p'. AtomicBasedPool_Put p obj w = Inr (p', w) \<and>
    (if index p = c then p' = p
     else atomic_contents p' = atomic_contents p @ [obj] \<and> index p' = index p + 1)"
proof -
  note r = AtomicBasedPool_reachable_inv[OF assms]
  show ?thesis
  proof (cases "index p = c")
    case True
    with r(2) have "AtomicBasedPool.capacity p \<le> index p" by simp
    from AtomicBasedPool_Put_full[OF this, of obj w] True show ?thesis by simp
  next
    case False
    with r have room: "index p < AtomicBasedPool.capacity p"
      unfolding atomic_inv_def by arith
    from AtomicBasedPool_Put_room[OF r(1) room, of obj w] atomic_contents_Put(1)[OF r(1) room,
      of obj]
      False
    show ?thesis by simp
  qed
qed

lemma ChannelBasedPool_Put_cases:
  assumes "ChannelBasedPool.cleaner p obj w = Inr w'"
  shows "ChannelBasedPool_Put p obj w =
    (if int (length (queue (ChannelBasedPool.objects p))) < chan_cap (ChannelBasedPool.objects p)
     then Inr (p\<lparr>ChannelBasedPool.objects :=
                  (ChannelBasedPool.objects p)\<lparr>queue := queue (ChannelBasedPool.objects p) @ [obj]\<rparr>\<rparr>,
               w')
     else Inl Blocked)"
  using assms by (simp add: ChannelBasedPool_Put_def chan_send_def)

subsection \<open>Segments of a sharded pool\<close>

lemma make_shards_all:
  assumes "\<And>w. \<exists>s w'. new w = Inr (s, w') \<and> P s"
  shows "\<exists>segs w'. make_shards new k w = Inr (segs, w') \<and> length segs = k \<and> (\<forall>s\<in>set segs. P s)"
proof (induction k arbitrary: w)
  case 0
  then show ?case by simp
next
  case (Suc k)
  from assms[of w] obtain s w1 where s: "new w = Inr (s, w1)" "P s" by blast
  from Suc[of w1] obtain segs w2 where
    r: "make_shards new k w1 = Inr (segs, w2)" "length segs = k" "\<forall>s\<in>set segs. P s"
    by blast
  from s r show ?case by simp
qed

lemma sum_list_all_equal:
  fixes f :: "'a \<Rightarrow> int"
  assumes "\<forall>s\<in>set segs. f s = k"
  shows "sum_list (map f segs) = int (length segs) * k"
  using assms by (induction segs) (simp_all add: algebra_simps)

lemma shard_capacity_bounds:
  fixes c m :: int
  assumes "1 \<le> m" "m \<le> c"
  shows "m \<le> m * max (c sdiv m) 1" "m * max (c sdiv m) 1 \<le> c"
proof -
  from assms have q: "c sdiv m = c div m" by (simp add: sdiv_nonneg)
  from assms have "m div m \<le> c div m" by (intro zdiv_mono1) simp_all
  with assms have one: "1 \<le> c div m" by simp
  then have mx: "max (c sdiv m) 1 = c div m" using q by simp
  from assms one have "m * 1 \<le> m * (c div m)" by (intro mult_left_mono) simp_all
  then show "m \<le> m * max (c sdiv m) 1" using mx by simp
  have "m * (c div m) \<le> c"
    using mult_div_mod_eq[of m c] pos_mod_sign[of m c] assms by linarith
  then show "m * max (c sdiv m) 1 \<le> c" using mx by simp
qed

lemma NewMutexRingBufferPool_cap:
  assumes "0 \<le> c"
  shows "\<exists>s w'. NewMutexRingBufferPool c alloc clean w = Inr (s, w') \<and>
    RingBuffer.capacity (MutexRingBufferPool.ringBuffer s) = c"
  using NewMutexRingBufferPool_ok[OF assms, of alloc clean w] by metis

lemma NewRingBufferCondPool_cap:
  assumes "0 \<le> c"
  shows "\<exists>s w'. NewRingBufferCondPool c alloc clean w = Inr (s, w') \<and>
    RingBuffer.capacity (RingBufferCondPool.ringBuffer s) = c"
  using NewRingBufferCondPool_ok[OF assms, of alloc clean w] by metis

lemma NewChannelBasedPool_cap:
  assumes "0 \<le> c"
  shows "\<exists>s w'. NewChannelBasedPool c alloc clean w = Inr (s, w') \<and>
    chan_cap (ChannelBasedPool.objects s) = c"
  using NewChannelBasedPool_ok[OF assms, of alloc clean w] by simp

lemma NewAtomicBasedPool_cap:
  assumes "0 \<le> c"
  shows "\<exists>s w'. NewAtomicBasedPool c alloc clean w = Inr (s, w') \<and> AtomicBasedPool.capacity s = c"
  using NewAtomicBasedPool_ok[OF assms, of alloc clean w] by simp

lemma NewShardedMutexRingBufferPool_shards:
  assumes "1 \<le> m" "m = (if n \<le> 0 then g else n)"
  shows "\<exists>p w'. NewShardedMutexRingBufferPool g c n alloc clean w = Inr (p, w') \<and>
    int (length (ShardedMutexRingBufferPool.shards p)) = m \<and>
    (\<forall>s\<in>set (ShardedMutexRingBufferPool.shards p). RingBuffer.capacity (MutexRingBufferPool.ringBuffer s) = max (c sdiv m) 1) \<and>
    sum_list (map (\<lambda>s. RingBuffer.capacity (MutexRingBufferPool.ringBuffer s)) (ShardedMutexRingBufferPool.shards p)) = m * max (c sdiv m) 1"
proof -
  let ?k = "max (c sdiv m) 1"
  have k: "0 \<le> ?k" by simp
  from make_shards_all[where new = "NewMutexRingBufferPool ?k alloc clean"
      and P = "\<lambda>s. RingBuffer.capacity (MutexRingBufferPool.ringBuffer s) = ?k" and k = "nat m" and w = w,
        OF NewMutexRingBufferPool_cap[OF k]]
  obtain segs w' where r: "make_shards (NewMutexRingBufferPool ?k alloc clean) (nat m) w = Inr (segs,
    w')"
    "length segs = nat m" "\<forall>s\<in>set segs. RingBuffer.capacity (MutexRingBufferPool.ringBuffer s) = ?k"
    by blast
  from assms have m: "(if n \<le> 0 then g else n) = m" "\<not> m < 0" "m \<noteq> 0" by simp_all
  have q: "go_quot c m = Inr (c sdiv m)" using m by (simp add: go_quot_def)
  have new: "NewShardedMutexRingBufferPool g c n alloc clean w = Inr (\<lparr>ShardedMutexRingBufferPool.shards = segs\<rparr>,
    w')"
    unfolding NewShardedMutexRingBufferPool_def Let_def m q using m r(1) by (auto simp: max_def)
  from sum_list_all_equal[OF r(3)] r(2) assms(1)
  have "sum_list (map (\<lambda>s. RingBuffer.capacity (MutexRingBufferPool.ringBuffer s)) segs) = m * ?k" by simp
  with new r assms(1) show ?thesis by simp
qed

lemma NewShardedChannelBasedPool_shards:
  assumes "1 \<le> m" "m = (if n \<le> 0 then g else n)"
  shows "\<exists>p w'. NewShardedChannelBasedPool g c n alloc clean w = Inr (p, w') \<and>
    int (length (ShardedChannelBasedPool.shards p)) = m \<and>
    (\<forall>s\<in>set (ShardedChannelBasedPool.shards p). chan_cap (ChannelBasedPool.objects s) = max (c sdiv m) 1) \<and>
    sum_list (map (\<lambda>s. chan_cap (ChannelBasedPool.objects s)) (ShardedChannelBasedPool.shards p)) = m * max (c sdiv m) 1"
proof -
  let ?k = "max (c sdiv m) 1"
  have k: "0 \<le> ?k" by simp
  from make_shards_all[where new = "NewChannelBasedPool ?k alloc clean"
      and P = "\<lambda>s. chan_cap (ChannelBasedPool.objects s) = ?k" and k = "nat m" and w = w,
        OF NewChannelBasedPool_cap[OF k]]
  obtain segs w' where r: "make_shards (NewChannelBasedPool ?k alloc clean) (nat m) w = Inr (segs,
    w')"
    "length segs = nat m" "\<forall>s\<in>set segs. chan_cap (ChannelBasedPool.objects s) = ?k"
    by blast
  from assms have m: "(if n \<le> 0 then g else n) = m" "\<not> m < 0" "m \<noteq> 0" by simp_all
  have q: "go_quot c m = Inr (c sdiv m)" using m by (simp add: go_quot_def)
  have new: "NewShardedChannelBasedPool g c n alloc clean w = Inr (\<lparr>ShardedChannelBasedPool.shards = segs\<rparr>,
    w')"
    unfolding NewShardedChannelBasedPool_def Let_def m q using m r(1) by (auto simp: max_def)
  from sum_list_all_equal[OF r(3)] r(2) assms(1)
  have "sum_list (map (\<lambda>s. chan_cap (ChannelBasedPool.objects s)) segs) = m * ?k" by simp
  with new r assms(1) show ?thesis by simp
qed

lemma NewShardedAtomicBasedPool_shards:
  assumes "1 \<le> m" "m = (if n \<le> 0 then g else n)"
  shows "\<exists>p w'. NewShardedAtomicBasedPool g c n alloc clean w = Inr (p, w') \<and>
    int (length (ShardedAtomicBasedPool.shards p)) = m \<and>
    (\<forall>s\<in>set (ShardedAtomicBasedPool.shards p). AtomicBasedPool.capacity s = max (c sdiv m) 1) \<and>
    sum_list (map (\<lambda>s. AtomicBasedPool.capacity s) (ShardedAtomicBasedPool.shards p)) = m * max (c sdiv m) 1"
proof -
  let ?k = "max (c sdiv m) 1"
  have k: "0 \<le> ?k" by simp
  from make_shards_all[where new = "NewAtomicBasedPool ?k alloc clean"
      and P = "\<lambda>s. AtomicBasedPool.capacity s = ?k" and k = "nat m" and w = w,
        OF NewAtomicBasedPool_cap[OF k]]
  obtain segs w' where r: "make_shards (NewAtomicBasedPool ?k alloc clean) (nat m) w = Inr (segs,
    w')"
    "length segs = nat m" "\<forall>s\<in>set segs. AtomicBasedPool.capacity s = ?k"
    by blast
  from assms have m: "(if n \<le> 0 then g else n) = m" "\<not> m < 0" "m \<noteq> 0" by simp_all
  have q: "go_quot c m = Inr (c sdiv m)" using m by (simp add: go_quot_def)
  have new: "NewShardedAtomicBasedPool g c n alloc clean w = Inr (\<lparr>ShardedAtomicBasedPool.shards = segs\<rparr>,
    w')"
    unfolding NewShardedAtomicBasedPool_def Let_def m q using m r(1) by (auto simp: max_def)
  from sum_list_all_equal[OF r(3)] r(2) assms(1)
  have "sum_list (map (\<lambda>s. AtomicBasedPool.capacity s) segs) = m * ?k" by simp
  with new r assms(1) show ?thesis by simp
qed

lemma NewShardedCondBasedPool_shards:
  assumes "1 \<le> m" "m = (if n \<le> 0 then g else n)"
  shows "\<exists>p w'. NewShardedCondBasedPool g c n alloc clean w = Inr (p, w') \<and>
    int (length (ShardedCondBasedPool.shards p)) = m \<and>
    (\<forall>s\<in>set (ShardedCondBasedPool.shards p). RingBuffer.capacity (RingBufferCondPool.ringBuffer s) = max (c sdiv m) 1) \<and>
    sum_list (map (\<lambda>s. RingBuffer.capacity (RingBufferCondPool.ringBuffer s)) (ShardedCondBasedPool.shards p)) = m * max (c sdiv m) 1"
proof -
  let ?k = "max (c sdiv m) 1"
  have k: "0 \<le> ?k" by simp
  from make_shards_all[where new = "NewRingBufferCondPool ?k alloc clean"
      and P = "\<lambda>s. RingBuffer.capacity (RingBufferCondPool.ringBuffer s) = ?k" and k = "nat m" and w = w,
        OF NewRingBufferCondPool_cap[OF k]]
  obtain segs w' where r: "make_shards (NewRingBufferCondPool ?k alloc clean) (nat m) w = Inr (segs,
    w')"
    "length segs = nat m" "\<forall>s\<in>set segs. RingBuffer.capacity (RingBufferCondPool.ringBuffer s) = ?k"
    by blast
  from assms have m: "(if n \<le> 0 then g else n) = m" "\<not> m < 0" "m \<noteq> 0" by simp_all
  have q: "go_quot c m = Inr (c sdiv m)" using m by (simp add: go_quot_def)
  have new: "NewShardedCondBasedPool g c n alloc clean w = Inr (\<lparr>ShardedCondBasedPool.shards = segs\<rparr>,
    w')"
    unfolding NewShardedCondBasedPool_def Let_def m q using m r(1) by (auto simp: max_def)
  from sum_list_all_equal[OF r(3)] r(2) assms(1)
  have "sum_list (map (\<lambda>s. RingBuffer.capacity (RingBufferCondPool.ringBuffer s)) segs) = m * ?k" by simp
  with new r assms(1) show ?thesis by simp
qed

lemma NewShardedRingBufferCondPool_shards:
  assumes "1 \<le> m" "m = (if n \<le> 0 then g else n)"
  shows "\<exists>p w'. NewShardedRingBufferCondPool g c n alloc clean w = Inr (p, w') \<and>
    int (length (ShardedRingBufferCondPool.shards p)) = m \<and>
    (\<forall>s\<in>set (ShardedRingBufferCondPool.shards p). RingBuffer.capacity (RingBufferCondPool.ringBuffer s) = max (c sdiv m) 1) \<and>
    sum_list (map (\<lambda>s. RingBuffer.capacity (RingBufferCondPool.ringBuffer s)) (ShardedRingBufferCondPool.shards p)) = m * max (c sdiv m) 1"
proof -
  let ?k = "max (c sdiv m) 1"
  have k: "0 \<le> ?k" by simp
  from make_shards_all[where new = "NewRingBufferCondPool ?k alloc clean"
      and P = "\<lambda>s. RingBuffer.capacity (RingBufferCondPool.ringBuffer s) = ?k" and k = "nat m" and w = w,
        OF NewRingBufferCondPool_cap[OF k]]
  obtain segs w' where r: "make_shards (NewRingBufferCondPool ?k alloc clean) (nat m) w = Inr (segs,
    w')"
    "length segs = nat m" "\<forall>s\<in>set segs. RingBuffer.capacity (RingBufferCondPool.ringBuffer s) = ?k"
    by blast
  from assms have m: "(if n \<le> 0 then g else n) = m" "\<not> m < 0" "m \<noteq> 0" by simp_all
  have q: "go_quot c m = Inr (c sdiv m)" using m by (simp add: go_quot_def)
  have new: "NewShardedRingBufferCondPool g c n alloc clean w = Inr (\<lparr>ShardedRingBufferCondPool.shards = segs\<rparr>,
    w')"
    unfolding NewShardedRingBufferCondPool_def Let_def m q using m r(1) by (auto simp: max_def)
  from sum_list_all_equal[OF r(3)] r(2) assms(1)
  have "sum_list (map (\<lambda>s. RingBuffer.capacity (RingBufferCondPool.ringBuffer s)) segs) = m * ?k" by simp
  with new r assms(1) show ?thesis by simp
qed

lemma NewShardedGoroutineIDPool_shards:
  assumes "1 \<le> m" "m = (if n \<le> 0 then g else n)"
  shows "\<exists>p w'. NewShardedGoroutineIDPool g c n alloc clean w = Inr (p, w') \<and>
    int (length (ShardedGoroutineIDPool.shards p)) = m \<and>
    (\<forall>s\<in>set (ShardedGoroutineIDPool.shards p). RingBuffer.capacity (MutexRingBufferPool.ringBuffer s) = max (c sdiv m) 1) \<and>
    sum_list (map (\<lambda>s. RingBuffer.capacity (MutexRingBufferPool.ringBuffer s)) (ShardedGoroutineIDPool.shards p)) = m * max (c sdiv m) 1"
proof -
  let ?k = "max (c sdiv m) 1"
  have k: "0 \<le> ?k" by simp
  from make_shards_all[where new = "NewMutexRingBufferPool ?k alloc clean"
      and P = "\<lambda>s. RingBuffer.capacity (MutexRingBufferPool.ringBuffer s) = ?k" and k = "nat m" and w = w,
        OF NewMutexRingBufferPool_cap[OF k]]
  obtain segs w' where r: "make_shards (NewMutexRingBufferPool ?k alloc clean) (nat m) w = Inr (segs,
    w')"
    "length segs = nat m" "\<forall>s\<in>set segs. RingBuffer.capacity (MutexRingBufferPool.ringBuffer s) = ?k"
    by blast
  from assms have m: "(if n \<le> 0 then g else n) = m" "\<not> m < 0" "m \<noteq> 0" by simp_all
  have q: "go_quot c m = Inr (c sdiv m)" using m by (simp add: go_quot_def)
  have new: "NewShardedGoroutineIDPool g c n alloc clean w = Inr (\<lparr>ShardedGoroutineIDPool.shards = segs,
    numShards = m\<rparr>, w')"
    unfolding NewShardedGoroutineIDPool_def Let_def m q using m r(1) by (auto simp: max_def)
  from sum_list_all_equal[OF r(3)] r(2) assms(1)
  have "sum_list (map (\<lambda>s. RingBuffer.capacity (MutexRingBufferPool.ringBuffer s)) segs) = m * ?k" by simp
  with new r assms(1) show ?thesis by simp
qed

lemma NewShardedMutexRingBufferPool_caps:
  assumes "1 \<le> m" "m = (if n \<le> 0 then g else n)"
  shows "\<exists>p w'. NewShardedMutexRingBufferPool g c n alloc clean w = Inr (p, w') \<and>
    int (length (ShardedMutexRingBufferPool.shards p)) = m \<and>
    (\<forall>s\<in>set (ShardedMutexRingBufferPool.shards p). RingBuffer.capacity (MutexRingBufferPool.ringBuffer s) = max (c sdiv m) 1) \<and>
    (m \<le> c \<longrightarrow>
       m \<le> sum_list (map (\<lambda>s. RingBuffer.capacity (MutexRingBufferPool.ringBuffer s)) (ShardedMutexRingBufferPool.shards p)) \<and>
       sum_list (map (\<lambda>s. RingBuffer.capacity (MutexRingBufferPool.ringBuffer s)) (ShardedMutexRingBufferPool.shards p)) \<le> c)"
proof -
  from NewShardedMutexRingBufferPool_shards[OF assms, of c alloc clean w]
  obtain p w' where r: "NewShardedMutexRingBufferPool g c n alloc clean w = Inr (p, w')"
    "int (length (ShardedMutexRingBufferPool.shards p)) = m"
    "\<forall>s\<in>set (ShardedMutexRingBufferPool.shards p). RingBuffer.capacity (MutexRingBufferPool.ringBuffer s) = max (c sdiv m) 1"
    "sum_list (map (\<lambda>s. RingBuffer.capacity (MutexRingBufferPool.ringBuffer s)) (ShardedMutexRingBufferPool.shards p)) = m * max (c sdiv m) 1"
    by blast
  from shard_capacity_bounds[OF assms(1), of c] r(4)
  have "m \<le> c \<longrightarrow>
       m \<le> sum_list (map (\<lambda>s. RingBuffer.capacity (MutexRingBufferPool.ringBuffer s)) (ShardedMutexRingBufferPool.shards p)) \<and>
       sum_list (map (\<lambda>s. RingBuffer.capacity (MutexRingBufferPool.ringBuffer s)) (ShardedMutexRingBufferPool.shards p)) \<le> c"
    by simp
  with r(1,2,3) show ?thesis by blast
qed

lemma NewShardedChannelBasedPool_caps:
  assumes "1 \<le> m" "m = (if n \<le> 0 then g else n)"
  shows "\<exists>p w'. NewShardedChannelBasedPool g c n alloc clean w = Inr (p, w') \<and>
    int (length (ShardedChannelBasedPool.shards p)) = m \<and>
    (\<forall>s\<in>set (ShardedChannelBasedPool.shards p). chan_cap (ChannelBasedPool.objects s) = max (c sdiv m) 1) \<and>
    (m \<le> c \<longrightarrow>
       m \<le> sum_list (map (\<lambda>s. chan_cap (ChannelBasedPool.objects s)) (ShardedChannelBasedPool.shards p)) \<and>
       sum_list (map (\<lambda>s. chan_cap (ChannelBasedPool.objects s)) (ShardedChannelBasedPool.shards p)) \<le> c)"
proof -
  from NewShardedChannelBasedPool_shards[OF assms, of c alloc clean w]
  obtain p w' where r: "NewShardedChannelBasedPool g c n alloc clean w = Inr (p, w')"
    "int (length (ShardedChannelBasedPool.shards p)) = m"
    "\<forall>s\<in>set (ShardedChannelBasedPool.shards p). chan_cap (ChannelBasedPool.objects s) = max (c sdiv m) 1"
    "sum_list (map (\<lambda>s. chan_cap (ChannelBasedPool.objects s)) (ShardedChannelBasedPool.shards p)) = m * max (c sdiv m) 1"
    by blast
  from shard_capacity_bounds[OF assms(1), of c] r(4)
  have "m \<le> c \<longrightarrow>
       m \<le> sum_list (map (\<lambda>s. chan_cap (ChannelBasedPool.objects s)) (ShardedChannelBasedPool.shards p)) \<and>
       sum_list (map (\<lambda>s. chan_cap (ChannelBasedPool.objects s)) (ShardedChannelBasedPool.shards p)) \<le> c"
    by simp
  with r(1,2,3) show ?thesis by blast
qed

lemma NewShardedAtomicBasedPool_caps:
  assumes "1 \<le> m" "m = (if n \<le> 0 then g else n)"
  shows "\<exists>p w'. NewShardedAtomicBasedPool g c n alloc clean w = Inr (p, w') \<and>
    int (length (ShardedAtomicBasedPool.shards p)) = m \<and>
    (\<forall>s\<in>set (ShardedAtomicBasedPool.shards p). AtomicBasedPool.capacity s = max (c sdiv m) 1) \<and>
    (m \<le> c \<longrightarrow>
       m \<le> sum_list (map (\<lambda>s. AtomicBasedPool.capacity s) (ShardedAtomicBasedPool.shards p)) \<and>
       sum_list (map (\<lambda>s. AtomicBasedPool.capacity s) (ShardedAtomicBasedPool.shards p)) \<le> c)"
proof -
  from NewShardedAtomicBasedPool_shards[OF assms, of c alloc clean w]
  obtain p w' where r: "NewShardedAtomicBasedPool g c n alloc clean w = Inr (p, w')"
    "int (length (ShardedAtomicBasedPool.shards p)) = m"
    "\<forall>s\<in>set (ShardedAtomicBasedPool.shards p). AtomicBasedPool.capacity s = max (c sdiv m) 1"
    "sum_list (map (\<lambda>s. AtomicBasedPool.capacity s) (ShardedAtomicBasedPool.shards p)) = m * max (c sdiv m) 1"
    by blast
  from shard_capacity_bounds[OF assms(1), of c] r(4)
  have "m \<le> c \<longrightarrow>
       m \<le> sum_list (map (\<lambda>s. AtomicBasedPool.capacity s) (ShardedAtomicBasedPool.shards p)) \<and>
       sum_list (map (\<lambda>s. AtomicBasedPool.capacity s) (ShardedAtomicBasedPool.shards p)) \<le> c"
    by simp
  with r(1,2,3) show ?thesis by blast
qed

lemma NewShardedCondBasedPool_caps:
  assumes "1 \<le> m" "m = (if n \<le> 0 then g else n)"
  shows "\<exists>p w'. NewShardedCondBasedPool g c n alloc clean w = Inr (p, w') \<and>
    int (length (ShardedCondBasedPool.shards p)) = m \<and>
    (\<forall>s\<in>set (ShardedCondBasedPool.shards p). RingBuffer.capacity (RingBufferCondPool.ringBuffer s) = max (c sdiv m) 1) \<and>
    (m \<le> c \<longrightarrow>
       m \<le> sum_list (map (\<lambda>s. RingBuffer.capacity (RingBufferCondPool.ringBuffer s)) (ShardedCondBasedPool.shards p)) \<and>
       sum_list (map (\<lambda>s. RingBuffer.capacity (RingBufferCondPool.ringBuffer s)) (ShardedCondBasedPool.shards p)) \<le> c)"
proof -
  from NewShardedCondBasedPool_shards[OF assms, of c alloc clean w]
  obtain p w' where r: "NewShardedCondBasedPool g c n alloc clean w = Inr (p, w')"
    "int (length (ShardedCondBasedPool.shards p)) = m"
    "\<forall>s\<in>set (ShardedCondBasedPool.shards p). RingBuffer.capacity (RingBufferCondPool.ringBuffer s) = max (c sdiv m) 1"
    "sum_list (map (\<lambda>s. RingBuffer.capacity (RingBufferCondPool.ringBuffer s)) (ShardedCondBasedPool.shards p)) = m * max (c sdiv m) 1"
    by blast
  from shard_capacity_bounds[OF assms(1), of c] r(4)
  have "m \<le> c \<longrightarrow>
       m \<le> sum_list (map (\<lambda>s. RingBuffer.capacity (RingBufferCondPool.ringBuffer s)) (ShardedCondBasedPool.shards p)) \<and>
       sum_list (map (\<lambda>s. RingBuffer.capacity (RingBufferCondPool.ringBuffer s)) (ShardedCondBasedPool.shards p)) \<le> c"
    by simp
  with r(1,2,3) show ?thesis by blast
qed

lemma NewShardedRingBufferCondPool_caps:
  assumes "1 \<le> m" "m = (if n \<le> 0 then g else n)"
  shows "\<exists>p w'. NewShardedRingBufferCondPool g c n alloc clean w = Inr (p, w') \<and>
    int (length (ShardedRingBufferCondPool.shards p)) = m \<and>
    (\<forall>s\<in>set (ShardedRingBufferCondPool.shards p). RingBuffer.capacity (RingBufferCondPool.ringBuffer s) = max (c sdiv m) 1) \<and>
    (m \<le> c \<longrightarrow>
       m \<le> sum_list (map (\<lambda>s. RingBuffer.capacity (RingBufferCondPool.ringBuffer s)) (ShardedRingBufferCondPool.shards p)) \<and>
       sum_list (map (\<lambda>s. RingBuffer.capacity (RingBufferCondPool.ringBuffer s)) (ShardedRingBufferCondPool.shards p)) \<le> c)"
proof -
  from NewShardedRingBufferCondPool_shards[OF assms, of c alloc clean w]
  obtain p w' where r: "NewShardedRingBufferCondPool g c n alloc clean w = Inr (p, w')"
    "int (length (ShardedRingBufferCondPool.shards p)) = m"
    "\<forall>s\<in>set (ShardedRingBufferCondPool.shards p). RingBuffer.capacity (RingBufferCondPool.ringBuffer s) = max (c sdiv m) 1"
    "sum_list (map (\<lambda>s. RingBuffer.capacity (RingBufferCondPool.ringBuffer s)) (ShardedRingBufferCondPool.shards p)) = m * max (c sdiv m) 1"
    by blast
  from shard_capacity_bounds[OF assms(1), of c] r(4)
  have "m \<le> c \<longrightarrow>
       m \<le> sum_list (map (\<lambda>s. RingBuffer.capacity (RingBufferCondPool.ringBuffer s)) (ShardedRingBufferCondPool.shards p)) \<and>
       sum_list (map (\<lambda>s. RingBuffer.capacity (RingBufferCondPool.ringBuffer s)) (ShardedRingBufferCondPool.shards p)) \<le> c"
    by simp
  with r(1,2,3) show ?thesis by blast
qed

lemma NewShardedGoroutineIDPool_caps:
  assumes "1 \<le> m" "m = (if n \<le> 0 then g else n)"
  shows "\<exists>p w'. NewShardedGoroutineIDPool g c n alloc clean w = Inr (p, w') \<and>
    int (length (ShardedGoroutineIDPool.shards p)) = m \<and>
    (\<forall>s\<in>set (ShardedGoroutineIDPool.shards p). RingBuffer.capacity (MutexRingBufferPool.ringBuffer s) = max (c sdiv m) 1) \<and>
    (m \<le> c \<longrightarrow>
       m \<le> sum_list (map (\<lambda>s. RingBuffer.capacity (MutexRingBufferPool.ringBuffer s)) (ShardedGoroutineIDPool.shards p)) \<and>
       sum_list (map (\<lambda>s. RingBuffer.capacity (MutexRingBufferPool.ringBuffer s)) (ShardedGoroutineIDPool.shards p)) \<le> c)"
proof -
  from NewShardedGoroutineIDPool_shards[OF assms, of c alloc clean w]
  obtain p w' where r: "NewShardedGoroutineIDPool g c n alloc clean w = Inr (p, w')"
    "int (length (ShardedGoroutineIDPool.shards p)) = m"
    "\<forall>s\<in>set (ShardedGoroutineIDPool.shards p). RingBuffer.capacity (MutexRingBufferPool.ringBuffer s) = max (c sdiv m) 1"
    "sum_list (map (\<lambda>s. RingBuffer.capacity (MutexRingBufferPool.ringBuffer s)) (ShardedGoroutineIDPool.shards p)) = m * max (c sdiv m) 1"
    by blast
  from shard_capacity_bounds[OF assms(1), of c] r(4)
  have "m \<le> c \<longrightarrow>
       m \<le> sum_list (map (\<lambda>s. RingBuffer.capacity (MutexRingBufferPool.ringBuffer s)) (ShardedGoroutineIDPool.shards p)) \<and>
       sum_list (map (\<lambda>s. RingBuffer.capacity (MutexRingBufferPool.ringBuffer s)) (ShardedGoroutineIDPool.shards p)) \<le> c"
    by simp
  with r(1,2,3) show ?thesis by blast
qed

subsection \<open>The index stamped on an object\<close>

lemma assign_deref:
  assumes "assign w obj f = Inr w'"
  shows "\<exists>x. deref w obj = Inr x \<and> deref w' obj = Inr (f x)"
  using assms
  by (auto simp: assign_def deref_def split: ptr.splits if_splits)

lemma pinned_Get_Inr:
  assumes "pinned_Get get pid segs w = Inr (obj, segs', w')"
  shows "0 \<le> pid \<and> pid < int (length segs) \<and>
    (\<exists>s' w1. get (segs ! nat pid) w = Inr (obj, s', w1) \<and> segs' = segs[nat pid := s']) \<and>
    (\<exists>x. deref w' obj = Inr x \<and> shardIndex x = pid)"
proof -
  from assms obtain shard where a: "at_index segs pid = Inr shard"
    by (auto simp: pinned_Get_def split: sum.splits)
  then have r: "0 \<le> pid" "pid < int (length segs)" "shard = segs ! nat pid"
    by (auto simp: at_index_def split: if_splits)
  from assms a obtain s' w1 where g: "get shard w = Inr (obj, s', w1)"
    and s: "assign w1 obj (\<lambda>x. x\<lparr>shardIndex := pid\<rparr>) = Inr w'"
    and u: "segs' = segs[nat pid := s']"
    by (auto simp: pinned_Get_def split: sum.splits)
  from assign_deref[OF s] have "\<exists>x. deref w' obj = Inr x \<and> shardIndex x = pid"
    by auto
  with r g u show ?thesis by auto
qed

lemma testAllocator_unassigned:
  "\<exists>x. deref (snd (testAllocator w)) (fst (testAllocator w)) = Inr x \<and> shardIndex x = - 1"
  by (simp add: testAllocator_apply deref_def)

lemma testCleaner_unassigned:
  assumes "testCleaner obj w = Inr w'"
  shows "\<exists>x. deref w' obj = Inr x \<and> shardIndex x = - 1"
  using assign_deref[OF assms[unfolded testCleaner_def]] by auto

lemma ShardedMutexRingBufferPool_Get_Inr:
  assumes "ShardedMutexRingBufferPool_Get pid p w = Inr (obj, p', w')"
  shows "0 \<le> pid \<and> pid < int (length (ShardedMutexRingBufferPool.shards p)) \<and>
    (\<exists>s' w1. MutexRingBufferPool_Get (ShardedMutexRingBufferPool.shards p ! nat pid) w = Inr (obj,
      s', w1) \<and>
       ShardedMutexRingBufferPool.shards p' = (ShardedMutexRingBufferPool.shards p)[nat pid := s']) \<and>
    (\<exists>x. deref w' obj = Inr x \<and> shardIndex x = pid)"
proof -
  from assms obtain segs where
    "pinned_Get MutexRingBufferPool_Get pid (ShardedMutexRingBufferPool.shards p) w = Inr (obj,
      segs, w')"
    "p' = p\<lparr>ShardedMutexRingBufferPool.shards := segs\<rparr>"
    by (auto simp: ShardedMutexRingBufferPool_Get_def split: sum.splits)
  with pinned_Get_Inr[of MutexRingBufferPool_Get pid "ShardedMutexRingBufferPool.shards p" w obj segs w'] show ?thesis
    by auto
qed

lemma ShardedChannelBasedPool_Get_Inr:
  assumes "ShardedChannelBasedPool_Get pid p w = Inr (obj, p', w')"
  shows "0 \<le> pid \<and> pid < int (length (ShardedChannelBasedPool.shards p)) \<and>
    (\<exists>s' w1. ChannelBasedPool_Get (ShardedChannelBasedPool.shards p ! nat pid) w = Inr (obj, s',
      w1) \<and>
       ShardedChannelBasedPool.shards p' = (ShardedChannelBasedPool.shards p)[nat pid := s']) \<and>
    (\<exists>x. deref w' obj = Inr x \<and> shardIndex x = pid)"
proof -
  from assms obtain segs where
    "pinned_Get ChannelBasedPool_Get pid (ShardedChannelBasedPool.shards p) w = Inr (obj, segs, w')"
    "p' = p\<lparr>ShardedChannelBasedPool.shards := segs\<rparr>"
    by (auto simp: ShardedChannelBasedPool_Get_def split: sum.splits)
  with pinned_Get_Inr[of ChannelBasedPool_Get pid "ShardedChannelBasedPool.shards p" w obj segs w'] show ?thesis
    by auto
qed

lemma ShardedAtomicBasedPool_Get_Inr:
  assumes "ShardedAtomicBasedPool_Get pid p w = Inr (obj, p', w')"
  shows "0 \<le> pid \<and> pid < int (length (ShardedAtomicBasedPool.shards p)) \<and>
    (\<exists>s' w1. AtomicBasedPool_Get (ShardedAtomicBasedPool.shards p ! nat pid) w = Inr (obj, s', w1) \<and>
       ShardedAtomicBasedPool.shards p' = (ShardedAtomicBasedPool.shards p)[nat pid := s']) \<and>
    (\<exists>x. deref w' obj = Inr x \<and> shardIndex x = pid)"
proof -
  from assms obtain segs where
    "pinned_Get AtomicBasedPool_Get pid (ShardedAtomicBasedPool.shards p) w = Inr (obj, segs, w')"
    "p' = p\<lparr>ShardedAtomicBasedPool.shards := segs\<rparr>"
    by (auto simp: ShardedAtomicBasedPool_Get_def split: sum.splits)
  with pinned_Get_Inr[of AtomicBasedPool_Get pid "ShardedAtomicBasedPool.shards p" w obj segs w'] show ?thesis
    by auto
qed

lemma ShardedCondBasedPool_Get_Inr:
  assumes "ShardedCondBasedPool_Get pid p w = Inr (obj, p', w')"
  shows "0 \<le> pid \<and> pid < int (length (ShardedCondBasedPool.shards p)) \<and>
    (\<exists>s' w1. RingBufferCondPool_Get (ShardedCondBasedPool.shards p ! nat pid) w = Inr (obj, s',
      w1) \<and>
       ShardedCondBasedPool.shards p' = (ShardedCondBasedPool.shards p)[nat pid := s']) \<and>
    (\<exists>x. deref w' obj = Inr x \<and> shardIndex x = pid)"
proof -
  from assms obtain segs where
    "pinned_Get RingBufferCondPool_Get pid (ShardedCondBasedPool.shards p) w = Inr (obj, segs, w')"
    "p' = p\<lparr>ShardedCondBasedPool.shards := segs\<rparr>"
    by (auto simp: ShardedCondBasedPool_Get_def split: sum.splits)
  with pinned_Get_Inr[of RingBufferCondPool_Get pid "ShardedCondBasedPool.shards p" w obj segs w'] show ?thesis
    by auto
qed

lemma ShardedRingBufferCondPool_Get_Inr:
  assumes "ShardedRingBufferCondPool_Get pid p w = Inr (obj, p', w')"
  shows "0 \<le> pid \<and> pid < int (length (ShardedRingBufferCondPool.shards p)) \<and>
    (\<exists>s' w1. RingBufferCondPool_Get (ShardedRingBufferCondPool.shards p ! nat pid) w = Inr (obj,
      s', w1) \<and>
       ShardedRingBufferCondPool.shards p' = (ShardedRingBufferCondPool.shards p)[nat pid := s']) \<and>
    (\<exists>x. deref w' obj = Inr x \<and> shardIndex x = pid)"
proof -
  from assms obtain segs where
    "pinned_Get RingBufferCondPool_Get pid (ShardedRingBufferCondPool.shards p) w = Inr (obj,
      segs, w')"
    "p' = p\<lparr>ShardedRingBufferCondPool.shards := segs\<rparr>"
    by (auto simp: ShardedRingBufferCondPool_Get_def split: sum.splits)
  with pinned_Get_Inr[of RingBufferCondPool_Get pid "ShardedRingBufferCondPool.shards p" w obj segs w'] show ?thesis
    by auto
qed

subsection \<open>Put with a cached index that is not a shard\<close>

lemma cached_Put_out_of_range:
  assumes "deref w obj = Inr x" "shardIndex x < 0 \<or> int (length segs) \<le> shardIndex x"
  shows "cached_Put put segs obj w = Inl IndexOutOfRange"
  using assms by (auto simp: cached_Put_def at_index_def)

lemma ShardedChannelBasedPool_Put_out_of_range:
  assumes "deref w obj = Inr x"
    "shardIndex x < 0 \<or> int (length (ShardedChannelBasedPool.shards p)) \<le> shardIndex x"
  shows "ShardedChannelBasedPool_Put p obj w = Inr (p, w)"
  using assms by (auto simp: ShardedChannelBasedPool_Put_def)

section \<open>Pools built with an allocator of new objects\<close>

subsection \<open>Segments in a row and calls routed to one of them\<close>

lemma make_shards_nth:
  assumes new: "\<And>w. \<exists>s w'. new w = Inr (s, w') \<and> length w' = length w + k \<and> P (length w) s"
  shows "\<exists>segs w'. make_shards new n w = Inr (segs, w') \<and> length segs = n \<and>
    length w' = length w + n * k \<and> (\<forall>i<n. P (length w + i * k) (segs ! i))"
proof (induction n arbitrary: w)
  case 0
  then show ?case by simp
next
  case (Suc n)
  from new[of w] obtain s w1 where s: "new w = Inr (s, w1)" "length w1 = length w + k"
    "P (length w) s" by blast
  from Suc[of w1] obtain rest w2 where r: "make_shards new n w1 = Inr (rest, w2)"
    "length rest = n" "length w2 = length w1 + n * k"
    "\<forall>i<n. P (length w1 + i * k) (rest ! i)" by blast
  have "\<forall>i<Suc n. P (length w + i * k) ((s # rest) ! i)"
  proof (intro allI impI)
    fix i assume i: "i < Suc n"
    show "P (length w + i * k) ((s # rest) ! i)"
    proof (cases i)
      case 0
      with s show ?thesis by simp
    next
      case (Suc j)
      with i r(4) have "P (length w1 + j * k) (rest ! j)" by simp
      with Suc s(2) show ?thesis by (simp add: add.assoc)
    qed
  qed
  with s r show ?case by simp
qed

lemma pinned_Get_some:
  assumes "0 \<le> pid" "nat pid < length segs"
    "get (segs ! nat pid) w = Inr (Ptr a, s', w)" "a < length w"
  shows "pinned_Get get pid segs w =
    Inr (Ptr a, segs[nat pid := s'], w[a := (w ! a)\<lparr>shardIndex := pid\<rparr>])"
  using assms by (simp add: pinned_Get_def at_index_def assign_def)

lemma pinned_repeat_Get:
  fixes get :: "'s \<Rightarrow> heap \<Rightarrow> fault + (ptr \<times> 's \<times> heap)"
  assumes step: "\<And>s w. I s \<Longrightarrow> cont s \<noteq> [] \<Longrightarrow>
      \<exists>s'. get s w = Inr (hd (cont s), s', w) \<and> I s' \<and> cont s' = tl (cont s)"
  assumes "0 \<le> pid" "nat pid < length segs" "I (segs ! nat pid)"
    "n \<le> length (cont (segs ! nat pid))"
    "\<forall>x\<in>set (cont (segs ! nat pid)). \<exists>a<length w. x = Ptr a"
  shows "\<exists>s' w'. repeat_Get (pinned_Get get pid) n segs w =
      Inr (take n (cont (segs ! nat pid)), segs[nat pid := s'], w') \<and>
    length w' = length w \<and> I s' \<and> cont s' = drop n (cont (segs ! nat pid))"
  using assms(3-6)
proof (induction n arbitrary: segs w)
  case 0
  have "segs[nat pid := segs ! nat pid] = segs" by simp
  with 0 show ?case by (metis repeat_Get.simps(1) take_0 drop_0)
next
  case (Suc n)
  let ?s = "segs ! nat pid"
  from Suc.prems have ne: "cont ?s \<noteq> []" by auto
  from step[OF Suc.prems(2) ne, of w]
  obtain s1 where g: "get ?s w = Inr (hd (cont ?s), s1, w)" "I s1" "cont s1 = tl (cont ?s)"
    by blast
  from ne Suc.prems(4) obtain a where a: "hd (cont ?s) = Ptr a" "a < length w"
    by (metis hd_in_set)
  let ?w = "w[a := (w ! a)\<lparr>shardIndex := pid\<rparr>]"
  let ?segs = "segs[nat pid := s1]"
  from g(1) a(1) have g': "get (segs ! nat pid) w = Inr (Ptr a, s1, w)" by simp
  have pg: "pinned_Get get pid segs w = Inr (Ptr a, ?segs, ?w)"
    using assms(2) Suc.prems(1) g' a(2) by (rule pinned_Get_some)
  have n1: "nat pid < length ?segs" using Suc.prems(1) by simp
  have s1: "?segs ! nat pid = s1" using Suc.prems(1) by simp
  have i1: "I (?segs ! nat pid)" using s1 g(2) by simp
  have l1: "n \<le> length (cont (?segs ! nat pid))" using s1 g(3) Suc.prems(3) by simp
  have h1: "\<forall>x\<in>set (cont (?segs ! nat pid)). \<exists>a<length ?w. x = Ptr a"
    using s1 g(3) Suc.prems(4) ne by (auto dest: list.set_sel(2))
  from Suc.IH[OF n1 i1 l1 h1]
  obtain s' w' where r: "repeat_Get (pinned_Get get pid) n ?segs ?w =
      Inr (take n (cont (?segs ! nat pid)), ?segs[nat pid := s'], w')"
    "length w' = length ?w" "I s'" "cont s' = drop n (cont (?segs ! nat pid))"
    by blast
  from pg r s1 g(3) a ne show ?case
    by (auto simp: take_Suc drop_Suc)
qed

lemma repeat_Get_wrap:
  fixes get :: "'s \<Rightarrow> heap \<Rightarrow> fault + (ptr \<times> 's \<times> heap)"
    and get' :: "'p \<Rightarrow> heap \<Rightarrow> fault + (ptr \<times> 'p \<times> heap)"
  assumes w: "\<And>p w. get' p w =
      (case get (sel p) w of Inl e \<Rightarrow> Inl e | Inr (obj, s, w') \<Rightarrow> Inr (obj, upd p s, w'))"
    and s: "\<And>p s. sel (upd p s) = s" and u: "\<And>p s s'. upd (upd p s) s' = upd p s'"
    and i: "\<And>p. upd p (sel p) = p"
  shows "repeat_Get get' n p w =
    (case repeat_Get get n (sel p) w of
       Inl e \<Rightarrow> Inl e
     | Inr (objs, s, w') \<Rightarrow> Inr (objs, upd p s, w'))"
proof (induction n arbitrary: p w)
  case 0
  then show ?case by (simp add: i)
next
  case (Suc n)
  show ?case
  proof (cases "get (sel p) w")
    case (Inl e)
    with w[of p w] show ?thesis by simp
  next
    case (Inr r)
    obtain obj s1 w1 where r: "r = (obj, s1, w1)" by (cases r)
    from Inr r w[of p w] have g: "get' p w = Inr (obj, upd p s1, w1)" by simp
    from Suc[of "upd p s1" w1] s[of p s1]
    have "repeat_Get get' n (upd p s1) w1 =
      (case repeat_Get get n s1 w1 of
         Inl e \<Rightarrow> Inl e
       | Inr (objs, s, w') \<Rightarrow> Inr (objs, upd (upd p s1) s, w'))" by simp
    with g Inr r show ?thesis
      by (simp add: u split: sum.splits prod.splits)
  qed
qed


lemma pinned_Get_alloc:
  assumes "0 \<le> pid" "nat pid < length segs"
    "get (segs ! nat pid) w = Inr (Ptr (length w), s', w @ [x])"
  shows "\<exists>w''. pinned_Get get pid segs w = Inr (Ptr (length w), segs[nat pid := s'], w'') \<and>
    length w'' = Suc (length w)"
  using assms by (simp add: pinned_Get_def at_index_def assign_def)

lemma pinned_Get_fault:
  assumes "0 \<le> pid" "nat pid < length segs" "get (segs ! nat pid) w = Inl e"
  shows "pinned_Get get pid segs w = Inl e"
proof -
  from assms(1,2) have "pid < int (length segs)" by linarith
  with assms show ?thesis by (simp add: pinned_Get_def at_index_def)
qed

lemma fresh_ptrs_in_heap:
  assumes "i < m" "length w = a + m * k"
  shows "\<forall>x\<in>set (fresh_ptrs (a + i * k) k). \<exists>b<length w. x = Ptr b"
proof -
  from assms(1) have "Suc i \<le> m" by simp
  then have "Suc i * k \<le> m * k" by (rule mult_le_mono1)
  then have "i * k + k \<le> m * k" by simp
  with assms(2) show ?thesis by (auto simp: fresh_ptrs_def)
qed

lemma take_fresh_ptrs: "take n (fresh_ptrs a n) = fresh_ptrs a n"
  by (simp add: fresh_ptrs_def)

lemma drop_fresh_ptrs: "drop n (fresh_ptrs a n) = []"
  by (simp add: fresh_ptrs_def)

lemma sharded_Inr_shards:
  assumes "(let n' = (if n \<le> 0 then g else n) in
      if n' < 0 then Inl MakeSliceLenOutOfRange
      else case go_quot c n' of
        Inl e \<Rightarrow> Inl e
      | Inr q \<Rightarrow> F n' q) = (Inr r :: fault + 'r)"
    "m = (if n \<le> 0 then g else n)"
  shows "0 < m" "F m (c sdiv m) = Inr r"
  using assms by (auto simp: Let_def go_quot_def split: if_splits)

lemma repeat_Get_two:
  "repeat_Get get 2 p w =
     (case get p w of
        Inl e \<Rightarrow> Inl e
      | Inr (obj, p', w') \<Rightarrow>
          (case get p' w' of
             Inl e \<Rightarrow> Inl e
           | Inr (obj', p'', w'') \<Rightarrow> Inr ([obj, obj'], p'', w'')))"
  by (simp add: numeral_2_eq_2 split: sum.splits prod.splits)

subsection \<open>Segments built with an allocator of new objects\<close>

lemma NewChannelBasedPool_new:
  assumes "allocates_new alloc" "0 \<le> c"
  shows "\<exists>s w'. NewChannelBasedPool c alloc clean w = Inr (s, w') \<and>
    length w' = length w + nat c \<and>
    ((True \<and> ChannelBasedPool.allocator s = alloc) \<and>
     queue (ChannelBasedPool.objects s) = fresh_ptrs (length w) (nat c))"
  using NewChannelBasedPool_ok[OF assms(2), of alloc clean w]
    alloc_seq_new[OF assms(1), of "nat c" w]
  by simp

lemma ChannelBasedPool_Get_next:
  assumes "True \<and> ChannelBasedPool.allocator s = alloc"
    "queue (ChannelBasedPool.objects s) \<noteq> []"
  shows "\<exists>s'. ChannelBasedPool_Get s w = Inr (hd (queue (ChannelBasedPool.objects s)), s', w) \<and>
    (True \<and> ChannelBasedPool.allocator s' = alloc) \<and>
    queue (ChannelBasedPool.objects s') = tl (queue (ChannelBasedPool.objects s))"
  using ChannelBasedPool_Get_some[OF assms(2), of w] assms(1) by simp

lemma ChannelBasedPool_Get_drained:
  assumes "allocates_new alloc" "True \<and> ChannelBasedPool.allocator s = alloc"
    "queue (ChannelBasedPool.objects s) = []"
  shows "\<exists>x. ChannelBasedPool_Get s w = Inr (Ptr (length w), s, w @ [x])"
proof -
  from assms(1) obtain x where "alloc w = (Ptr (length w), w @ [x])"
    unfolding allocates_new_def by blast
  with ChannelBasedPool_Get_empty[OF assms(3), of w] assms(2) show ?thesis by simp
qed

lemma NewAtomicBasedPool_new:
  assumes "allocates_new alloc" "0 \<le> c"
  shows "\<exists>s w'. NewAtomicBasedPool c alloc clean w = Inr (s, w') \<and>
    length w' = length w + nat c \<and>
    ((atomic_inv s \<and> AtomicBasedPool.allocator s = alloc) \<and>
     atomic_contents s = fresh_ptrs (length w) (nat c))"
  using NewAtomicBasedPool_inv[OF assms(2), of alloc clean w]
    alloc_seq_new[OF assms(1), of "nat c" w]
  by metis

lemma AtomicBasedPool_Get_next:
  assumes "atomic_inv s \<and> AtomicBasedPool.allocator s = alloc" "rev (atomic_contents s) \<noteq> []"
  shows "\<exists>s'. AtomicBasedPool_Get s w = Inr (hd (rev (atomic_contents s)), s', w) \<and>
    (atomic_inv s' \<and> AtomicBasedPool.allocator s' = alloc) \<and>
    rev (atomic_contents s') = tl (rev (atomic_contents s))"
proof -
  from assms have inv: "atomic_inv s" and ne: "atomic_contents s \<noteq> []" by simp_all
  from atomic_contents_length[OF inv] ne have pos: "0 < index s"
    by (cases "atomic_contents s") auto
  from AtomicBasedPool_Get_some[OF inv pos, of w] atomic_contents_Get[OF inv pos] assms(1) ne
  show ?thesis
    by (simp add: hd_rev rev_butlast_tl)
qed

lemma AtomicBasedPool_Get_drained:
  assumes "allocates_new alloc" "atomic_inv s \<and> AtomicBasedPool.allocator s = alloc"
    "rev (atomic_contents s) = []"
  shows "\<exists>x. AtomicBasedPool_Get s w = Inr (Ptr (length w), s, w @ [x])"
proof -
  from assms(2) have inv: "atomic_inv s" by simp
  from atomic_contents_length[OF inv] assms(3) have z: "index s \<le> 0" by simp
  from assms(1) obtain x where "alloc w = (Ptr (length w), w @ [x])"
    unfolding allocates_new_def by blast
  with AtomicBasedPool_Get_empty[OF z, of w] assms(2) show ?thesis by simp
qed

lemma NewMutexRingBufferPool_new:
  assumes "allocates_new alloc" "0 \<le> c"
  shows "\<exists>s w'. NewMutexRingBufferPool c alloc clean w = Inr (s, w') \<and>
    length w' = length w + nat c \<and>
    ((rb_inv (MutexRingBufferPool.ringBuffer s) \<and> MutexRingBufferPool.allocator s = alloc) \<and>
     rb_contents (MutexRingBufferPool.ringBuffer s) = fresh_ptrs (length w) (nat c))"
  using NewMutexRingBufferPool_ok[OF assms(2), of alloc clean w] alloc_seq_new[OF assms(1), of "nat c" w]
  by metis

lemma MutexRingBufferPool_Get_next:
  assumes "rb_inv (MutexRingBufferPool.ringBuffer s) \<and> MutexRingBufferPool.allocator s = alloc"
    "rb_contents (MutexRingBufferPool.ringBuffer s) \<noteq> []"
  shows "\<exists>s'. MutexRingBufferPool_Get s w =
      Inr (hd (rb_contents (MutexRingBufferPool.ringBuffer s)), s', w) \<and>
    (rb_inv (MutexRingBufferPool.ringBuffer s') \<and> MutexRingBufferPool.allocator s' = alloc) \<and>
    rb_contents (MutexRingBufferPool.ringBuffer s') =
      tl (rb_contents (MutexRingBufferPool.ringBuffer s))"
proof -
  from assms have inv: "rb_inv (MutexRingBufferPool.ringBuffer s)" by simp
  from assms have pos: "0 < size_rb (MutexRingBufferPool.ringBuffer s)"
    by (cases "size_rb (MutexRingBufferPool.ringBuffer s) = 0")
      (auto simp: rb_contents_empty rb_inv_def)
  from MutexRingBufferPool_Get_some[OF inv pos, of w]
  obtain rb' where r: "MutexRingBufferPool_Get s w =
      Inr (hd (rb_contents (MutexRingBufferPool.ringBuffer s)),
           s\<lparr>MutexRingBufferPool.ringBuffer := rb'\<rparr>, w)"
    "rb_inv rb'" "rb_contents rb' = tl (rb_contents (MutexRingBufferPool.ringBuffer s))"
    by blast
  with assms(1) show ?thesis by simp
qed

lemma MutexRingBufferPool_Get_drained:
  assumes "allocates_new alloc"
    "rb_inv (MutexRingBufferPool.ringBuffer s) \<and> MutexRingBufferPool.allocator s = alloc"
    "rb_contents (MutexRingBufferPool.ringBuffer s) = []"
  shows "\<exists>x. MutexRingBufferPool_Get s w = Inr (Ptr (length w), s, w @ [x])"
proof -
  from assms(2) have inv: "rb_inv (MutexRingBufferPool.ringBuffer s)" by simp
  then have "0 \<le> size_rb (MutexRingBufferPool.ringBuffer s)" by (simp add: rb_inv_def)
  with assms(3) have z: "size_rb (MutexRingBufferPool.ringBuffer s) = 0"
    by (simp add: rb_contents_Nil_iff)
  from assms(1) obtain x where "alloc w = (Ptr (length w), w @ [x])"
    unfolding allocates_new_def by blast
  with MutexRingBufferPool_Get_empty[OF inv z, of w] assms(2) show ?thesis by simp
qed


lemma NewRingBufferCondPool_new:
  assumes "allocates_new alloc" "0 \<le> c"
  shows "\<exists>s w'. NewRingBufferCondPool c alloc clean w = Inr (s, w') \<and>
    length w' = length w + nat c \<and>
    ((rb_inv (RingBufferCondPool.ringBuffer s) \<and> RingBufferCondPool.allocator s = alloc) \<and>
     rb_contents (RingBufferCondPool.ringBuffer s) = fresh_ptrs (length w) (nat c))"
  using NewRingBufferCondPool_ok[OF assms(2), of alloc clean w] alloc_seq_new[OF assms(1), of "nat c" w]
  by metis

lemma RingBufferCondPool_Get_next:
  assumes "rb_inv (RingBufferCondPool.ringBuffer s) \<and> RingBufferCondPool.allocator s = alloc"
    "rb_contents (RingBufferCondPool.ringBuffer s) \<noteq> []"
  shows "\<exists>s'. RingBufferCondPool_Get s w =
      Inr (hd (rb_contents (RingBufferCondPool.ringBuffer s)), s', w) \<and>
    (rb_inv (RingBufferCondPool.ringBuffer s') \<and> RingBufferCondPool.allocator s' = alloc) \<and>
    rb_contents (RingBufferCondPool.ringBuffer s') =
      tl (rb_contents (RingBufferCondPool.ringBuffer s))"
proof -
  from assms have inv: "rb_inv (RingBufferCondPool.ringBuffer s)" by simp
  from assms have pos: "0 < size_rb (RingBufferCondPool.ringBuffer s)"
    by (cases "size_rb (RingBufferCondPool.ringBuffer s) = 0")
      (auto simp: rb_contents_empty rb_inv_def)
  from RingBufferCondPool_Get_some[OF inv pos, of w]
  obtain rb' where r: "RingBufferCondPool_Get s w =
      Inr (hd (rb_contents (RingBufferCondPool.ringBuffer s)),
           s\<lparr>RingBufferCondPool.ringBuffer := rb'\<rparr>, w)"
    "rb_inv rb'" "rb_contents rb' = tl (rb_contents (RingBufferCondPool.ringBuffer s))"
    by blast
  with assms(1) show ?thesis by simp
qed

lemma RingBufferCondPool_Get_drained:
  assumes "rb_inv (RingBufferCondPool.ringBuffer s) \<and> RingBufferCondPool.allocator s = alloc"
    "rb_contents (RingBufferCondPool.ringBuffer s) = []"
  shows "RingBufferCondPool_Get s w = Inl Blocked"
proof -
  from assms(1) have "0 \<le> size_rb (RingBufferCondPool.ringBuffer s)" by (simp add: rb_inv_def)
  with assms(2) have z: "size_rb (RingBufferCondPool.ringBuffer s) = 0"
    by (simp add: rb_contents_Nil_iff)
  then show ?thesis by (rule RingBufferCondPool_Get_empty)
qed


lemma ShardedMutexRingBufferPool_fresh_Gets:
  assumes a: "allocates_new alloc"
    and new: "NewShardedMutexRingBufferPool g c n alloc clean w0 = Inr (p, w1)"
    and m: "m = (if n \<le> 0 then g else n)" and k: "k = max (c sdiv m) 1"
  shows "length w1 = length w0 + nat m * nat k \<and>
    length (ShardedMutexRingBufferPool.shards p) = nat m \<and>
    (\<forall>i<nat m. rb_contents (MutexRingBufferPool.ringBuffer (ShardedMutexRingBufferPool.shards p ! i)) =
       fresh_ptrs (length w0 + i * nat k) (nat k)) \<and>
    (0 \<le> pid \<and> pid < m \<longrightarrow>
      (\<exists>p' w'. repeat_Get (ShardedMutexRingBufferPool_Get pid) (nat k) p w1 =
          Inr (fresh_ptrs (length w0 + nat pid * nat k) (nat k), p', w') \<and>
        length w' = length w1 \<and>
        length (ShardedMutexRingBufferPool.shards p') = nat m \<and>
        (\<forall>i<nat m. i \<noteq> nat pid \<longrightarrow>
           ShardedMutexRingBufferPool.shards p' ! i = ShardedMutexRingBufferPool.shards p ! i) \<and>
        (\<exists>p'' w''. ShardedMutexRingBufferPool_Get pid p' w' = Inr (Ptr (length w'), p'', w'') \<and>
           length w'' = Suc (length w'))))"
proof -
  let ?I = "\<lambda>s. rb_inv (MutexRingBufferPool.ringBuffer s) \<and> MutexRingBufferPool.allocator s = alloc"
  let ?held = "\<lambda>s. rb_contents (MutexRingBufferPool.ringBuffer s)"
  let ?cont = "\<lambda>s. rb_contents (MutexRingBufferPool.ringBuffer s)"
  let ?P = "\<lambda>a s. ?I s \<and> ?held s = fresh_ptrs a (nat k)"
  let ?new = "NewMutexRingBufferPool k alloc clean"
  have k0: "0 \<le> k" using k by simp
  from sharded_Inr_shards[OF new[unfolded NewShardedMutexRingBufferPool_def] m]
  have m0: "0 < m"
    and mk: "(let shardCapacity = max (c sdiv m) 1 in
      case make_shards (NewMutexRingBufferPool shardCapacity alloc clean) (nat m) w0 of
        Inl e \<Rightarrow> Inl e
      | Inr (segs, w') \<Rightarrow> Inr (\<lparr>ShardedMutexRingBufferPool.shards = segs\<rparr>, w')) = Inr (p, w1)"
    by simp_all
  from make_shards_nth[where new = ?new and k = "nat k" and P = ?P and n = "nat m" and w = w0,
      OF NewMutexRingBufferPool_new[OF a k0]]
  obtain segs w' where s: "make_shards ?new (nat m) w0 = Inr (segs, w')" "length segs = nat m"
    "length w' = length w0 + nat m * nat k"
    "\<forall>i<nat m. ?P (length w0 + i * nat k) (segs ! i)" by blast
  from mk s(1) k have p: "p = \<lparr>ShardedMutexRingBufferPool.shards = segs\<rparr>" and w: "w1 = w'"
    by simp_all
  have gets: "\<exists>p' w'. repeat_Get (ShardedMutexRingBufferPool_Get pid) (nat k) p w1 =
          Inr (fresh_ptrs (length w0 + nat pid * nat k) (nat k), p', w') \<and>
        length w' = length w1 \<and>
        length (ShardedMutexRingBufferPool.shards p') = nat m \<and>
        (\<forall>i<nat m. i \<noteq> nat pid \<longrightarrow>
           ShardedMutexRingBufferPool.shards p' ! i = ShardedMutexRingBufferPool.shards p ! i) \<and>
        (\<exists>p'' w''. ShardedMutexRingBufferPool_Get pid p' w' = Inr (Ptr (length w'), p'', w'') \<and>
           length w'' = Suc (length w'))"
    if pid: "0 \<le> pid" "pid < m"
  proof -
    from pid s(2) have lt: "nat pid < length segs" and lt': "nat pid < nat m" by simp_all
    from s(4) lt' have seg: "?I (segs ! nat pid)"
      "?held (segs ! nat pid) = fresh_ptrs (length w0 + nat pid * nat k) (nat k)" by simp_all
    have le: "nat k \<le> length (?cont (segs ! nat pid))" by (simp add: seg(2) length_fresh_ptrs)
    have "\<forall>x\<in>set (fresh_ptrs (length w0 + nat pid * nat k) (nat k)). \<exists>b<length w1. x = Ptr b"
      using lt' s(3)[folded w] by (rule fresh_ptrs_in_heap)
    then have hp: "\<forall>x\<in>set (?cont (segs ! nat pid)). \<exists>b<length w1. x = Ptr b"
      by (simp add: seg(2))
    from pinned_repeat_Get[where get = MutexRingBufferPool_Get and I = ?I and cont = ?cont,
        OF MutexRingBufferPool_Get_next pid(1) lt seg(1) le hp]
    obtain s' w2 where r: "repeat_Get (pinned_Get MutexRingBufferPool_Get pid) (nat k) segs w1 =
        Inr (take (nat k) (?cont (segs ! nat pid)), segs[nat pid := s'], w2)"
      "length w2 = length w1" "?I s'" "?cont s' = drop (nat k) (?cont (segs ! nat pid))"
      by blast
    let ?p' = "p\<lparr>ShardedMutexRingBufferPool.shards := segs[nat pid := s']\<rparr>"
    have "repeat_Get (ShardedMutexRingBufferPool_Get pid) (nat k) p w1 =
      (case repeat_Get (pinned_Get MutexRingBufferPool_Get pid) (nat k)
          (ShardedMutexRingBufferPool.shards p) w1 of
         Inl e \<Rightarrow> Inl e
       | Inr (objs, s, w') \<Rightarrow> Inr (objs, p\<lparr>ShardedMutexRingBufferPool.shards := s\<rparr>, w'))"
      by (rule repeat_Get_wrap) (simp_all add: ShardedMutexRingBufferPool_Get_def)
    with r(1) p seg(2)
    have 1: "repeat_Get (ShardedMutexRingBufferPool_Get pid) (nat k) p w1 =
      Inr (fresh_ptrs (length w0 + nat pid * nat k) (nat k), ?p', w2)"
      by (simp add: take_fresh_ptrs drop_fresh_ptrs)
    from r(4) seg(2) have e: "?cont s' = []" by (simp add: take_fresh_ptrs drop_fresh_ptrs)
    from MutexRingBufferPool_Get_drained[OF a r(3) e, of w2]
    obtain x where "MutexRingBufferPool_Get s' w2 = Inr (Ptr (length w2), s', w2 @ [x])" by blast
    with lt have "MutexRingBufferPool_Get (segs[nat pid := s'] ! nat pid) w2 =
      Inr (Ptr (length w2), s', w2 @ [x])" by simp
    from pinned_Get_alloc[where get = MutexRingBufferPool_Get, OF pid(1) _ this] lt
    obtain w3 where "pinned_Get MutexRingBufferPool_Get pid (segs[nat pid := s']) w2 =
        Inr (Ptr (length w2), segs[nat pid := s', nat pid := s'], w3)" "length w3 = Suc (length w2)"
      by auto
    then have 2: "\<exists>p'' w''. ShardedMutexRingBufferPool_Get pid ?p' w2 = Inr (Ptr (length w2), p'', w'') \<and>
           length w'' = Suc (length w2)"
      by (simp add: ShardedMutexRingBufferPool_Get_def)
    from 1 2 r(2) s(2) p show ?thesis by auto
  qed
  from s p w gets show ?thesis by auto
qed


lemma ShardedCondBasedPool_fresh_Gets:
  assumes a: "allocates_new alloc"
    and new: "NewShardedCondBasedPool g c n alloc clean w0 = Inr (p, w1)"
    and m: "m = (if n \<le> 0 then g else n)" and k: "k = max (c sdiv m) 1"
  shows "length w1 = length w0 + nat m * nat k \<and>
    length (ShardedCondBasedPool.shards p) = nat m \<and>
    (\<forall>i<nat m. rb_contents (RingBufferCondPool.ringBuffer (ShardedCondBasedPool.shards p ! i)) =
       fresh_ptrs (length w0 + i * nat k) (nat k)) \<and>
    (0 \<le> pid \<and> pid < m \<longrightarrow>
      (\<exists>p' w'. repeat_Get (ShardedCondBasedPool_Get pid) (nat k) p w1 =
          Inr (fresh_ptrs (length w0 + nat pid * nat k) (nat k), p', w') \<and>
        length w' = length w1 \<and>
        length (ShardedCondBasedPool.shards p') = nat m \<and>
        (\<forall>i<nat m. i \<noteq> nat pid \<longrightarrow>
           ShardedCondBasedPool.shards p' ! i = ShardedCondBasedPool.shards p ! i) \<and>
        ShardedCondBasedPool_Get pid p' w' = Inl Blocked))"
proof -
  let ?I = "\<lambda>s. rb_inv (RingBufferCondPool.ringBuffer s) \<and> RingBufferCondPool.allocator s = alloc"
  let ?held = "\<lambda>s. rb_contents (RingBufferCondPool.ringBuffer s)"
  let ?cont = "\<lambda>s. rb_contents (RingBufferCondPool.ringBuffer s)"
  let ?P = "\<lambda>a s. ?I s \<and> ?held s = fresh_ptrs a (nat k)"
  let ?new = "NewRingBufferCondPool k alloc clean"
  have k0: "0 \<le> k" using k by simp
  have kk: "(if c sdiv m < 1 then 1 else c sdiv m) = max (c sdiv m) 1"
    by (auto simp: max_def)
  from sharded_Inr_shards[OF new[unfolded NewShardedCondBasedPool_def] m]
  have m0: "0 < m"
    and mk: "(let shardCapacity = max (c sdiv m) 1 in
      case make_shards (NewRingBufferCondPool shardCapacity alloc clean) (nat m) w0 of
        Inl e \<Rightarrow> Inl e
      | Inr (segs, w') \<Rightarrow> Inr (\<lparr>ShardedCondBasedPool.shards = segs\<rparr>, w')) = Inr (p, w1)"
    by (simp_all add: kk)
  from make_shards_nth[where new = ?new and k = "nat k" and P = ?P and n = "nat m" and w = w0,
      OF NewRingBufferCondPool_new[OF a k0]]
  obtain segs w' where s: "make_shards ?new (nat m) w0 = Inr (segs, w')" "length segs = nat m"
    "length w' = length w0 + nat m * nat k"
    "\<forall>i<nat m. ?P (length w0 + i * nat k) (segs ! i)" by blast
  from mk s(1) k have p: "p = \<lparr>ShardedCondBasedPool.shards = segs\<rparr>" and w: "w1 = w'"
    by simp_all
  have gets: "\<exists>p' w'. repeat_Get (ShardedCondBasedPool_Get pid) (nat k) p w1 =
          Inr (fresh_ptrs (length w0 + nat pid * nat k) (nat k), p', w') \<and>
        length w' = length w1 \<and>
        length (ShardedCondBasedPool.shards p') = nat m \<and>
        (\<forall>i<nat m. i \<noteq> nat pid \<longrightarrow>
           ShardedCondBasedPool.shards p' ! i = ShardedCondBasedPool.shards p ! i) \<and>
        ShardedCondBasedPool_Get pid p' w' = Inl Blocked"
    if pid: "0 \<le> pid" "pid < m"
  proof -
    from pid s(2) have lt: "nat pid < length segs" and lt': "nat pid < nat m" by simp_all
    from s(4) lt' have seg: "?I (segs ! nat pid)"
      "?held (segs ! nat pid) = fresh_ptrs (length w0 + nat pid * nat k) (nat k)" by simp_all
    have le: "nat k \<le> length (?cont (segs ! nat pid))" by (simp add: seg(2) length_fresh_ptrs)
    have "\<forall>x\<in>set (fresh_ptrs (length w0 + nat pid * nat k) (nat k)). \<exists>b<length w1. x = Ptr b"
      using lt' s(3)[folded w] by (rule fresh_ptrs_in_heap)
    then have hp: "\<forall>x\<in>set (?cont (segs ! nat pid)). \<exists>b<length w1. x = Ptr b"
      by (simp add: seg(2))
    from pinned_repeat_Get[where get = RingBufferCondPool_Get and I = ?I and cont = ?cont,
        OF RingBufferCondPool_Get_next pid(1) lt seg(1) le hp]
    obtain s' w2 where r: "repeat_Get (pinned_Get RingBufferCondPool_Get pid) (nat k) segs w1 =
        Inr (take (nat k) (?cont (segs ! nat pid)), segs[nat pid := s'], w2)"
      "length w2 = length w1" "?I s'" "?cont s' = drop (nat k) (?cont (segs ! nat pid))"
      by blast
    let ?p' = "p\<lparr>ShardedCondBasedPool.shards := segs[nat pid := s']\<rparr>"
    have "repeat_Get (ShardedCondBasedPool_Get pid) (nat k) p w1 =
      (case repeat_Get (pinned_Get RingBufferCondPool_Get pid) (nat k)
          (ShardedCondBasedPool.shards p) w1 of
         Inl e \<Rightarrow> Inl e
       | Inr (objs, s, w') \<Rightarrow> Inr (objs, p\<lparr>ShardedCondBasedPool.shards := s\<rparr>, w'))"
      by (rule repeat_Get_wrap) (simp_all add: ShardedCondBasedPool_Get_def)
    with r(1) p seg(2)
    have 1: "repeat_Get (ShardedCondBasedPool_Get pid) (nat k) p w1 =
      Inr (fresh_ptrs (length w0 + nat pid * nat k) (nat k), ?p', w2)"
      by (simp add: take_fresh_ptrs drop_fresh_ptrs)
    from r(4) seg(2) have e: "?cont s' = []" by (simp add: take_fresh_ptrs drop_fresh_ptrs)
    from RingBufferCondPool_Get_drained[OF r(3) e, of w2] lt
    have "RingBufferCondPool_Get (segs[nat pid := s'] ! nat pid) w2 = Inl Blocked" by simp
    from pinned_Get_fault[where get = RingBufferCondPool_Get, OF pid(1) _ this] lt
    have "pinned_Get RingBufferCondPool_Get pid (segs[nat pid := s']) w2 = Inl Blocked" by simp
    then have 2: "ShardedCondBasedPool_Get pid ?p' w2 = Inl Blocked"
      by (simp add: ShardedCondBasedPool_Get_def)
    from 1 2 r(2) s(2) p show ?thesis by auto
  qed
  from s p w gets show ?thesis by auto
qed


lemma ShardedRingBufferCondPool_fresh_Gets:
  assumes a: "allocates_new alloc"
    and new: "NewShardedRingBufferCondPool g c n alloc clean w0 = Inr (p, w1)"
    and m: "m = (if n \<le> 0 then g else n)" and k: "k = max (c sdiv m) 1"
  shows "length w1 = length w0 + nat m * nat k \<and>
    length (ShardedRingBufferCondPool.shards p) = nat m \<and>
    (\<forall>i<nat m. rb_contents (RingBufferCondPool.ringBuffer (ShardedRingBufferCondPool.shards p ! i)) =
       fresh_ptrs (length w0 + i * nat k) (nat k)) \<and>
    (0 \<le> pid \<and> pid < m \<longrightarrow>
      (\<exists>p' w'. repeat_Get (ShardedRingBufferCondPool_Get pid) (nat k) p w1 =
          Inr (fresh_ptrs (length w0 + nat pid * nat k) (nat k), p', w') \<and>
        length w' = length w1 \<and>
        length (ShardedRingBufferCondPool.shards p') = nat m \<and>
        (\<forall>i<nat m. i \<noteq> nat pid \<longrightarrow>
           ShardedRingBufferCondPool.shards p' ! i = ShardedRingBufferCondPool.shards p ! i) \<and>
        ShardedRingBufferCondPool_Get pid p' w' = Inl Blocked))"
proof -
  let ?I = "\<lambda>s. rb_inv (RingBufferCondPool.ringBuffer s) \<and> RingBufferCondPool.allocator s = alloc"
  let ?held = "\<lambda>s. rb_contents (RingBufferCondPool.ringBuffer s)"
  let ?cont = "\<lambda>s. rb_contents (RingBufferCondPool.ringBuffer s)"
  let ?P = "\<lambda>a s. ?I s \<and> ?held s = fresh_ptrs a (nat k)"
  let ?new = "NewRingBufferCondPool k alloc clean"
  have k0: "0 \<le> k" using k by simp
  have kk: "(if c sdiv m < 1 then 1 else c sdiv m) = max (c sdiv m) 1"
    by (auto simp: max_def)
  from sharded_Inr_shards[OF new[unfolded NewShardedRingBufferCondPool_def] m]
  have m0: "0 < m"
    and mk: "(let shardCapacity = max (c sdiv m) 1 in
      case make_shards (NewRingBufferCondPool shardCapacity alloc clean) (nat m) w0 of
        Inl e \<Rightarrow> Inl e
      | Inr (segs, w') \<Rightarrow> Inr (\<lparr>ShardedRingBufferCondPool.shards = segs\<rparr>, w')) = Inr (p, w1)"
    by (simp_all add: kk)
  from make_shards_nth[where new = ?new and k = "nat k" and P = ?P and n = "nat m" and w = w0,
      OF NewRingBufferCondPool_new[OF a k0]]
  obtain segs w' where s: "make_shards ?new (nat m) w0 = Inr (segs, w')" "length segs = nat m"
    "length w' = length w0 + nat m * nat k"
    "\<forall>i<nat m. ?P (length w0 + i * nat k) (segs ! i)" by blast
  from mk s(1) k have p: "p = \<lparr>ShardedRingBufferCondPool.shards = segs\<rparr>" and w: "w1 = w'"
    by simp_all
  have gets: "\<exists>p' w'. repeat_Get (ShardedRingBufferCondPool_Get pid) (nat k) p w1 =
          Inr (fresh_ptrs (length w0 + nat pid * nat k) (nat k), p', w') \<and>
        length w' = length w1 \<and>
        length (ShardedRingBufferCondPool.shards p') = nat m \<and>
        (\<forall>i<nat m. i \<noteq> nat pid \<longrightarrow>
           ShardedRingBufferCondPool.shards p' ! i = ShardedRingBufferCondPool.shards p ! i) \<and>
        ShardedRingBufferCondPool_Get pid p' w' = Inl Blocked"
    if pid: "0 \<le> pid" "pid < m"
  proof -
    from pid s(2) have lt: "nat pid < length segs" and lt': "nat pid < nat m" by simp_all
    from s(4) lt' have seg: "?I (segs ! nat pid)"
      "?held (segs ! nat pid) = fresh_ptrs (length w0 + nat pid * nat k) (nat k)" by simp_all
    have le: "nat k \<le> length (?cont (segs ! nat pid))" by (simp add: seg(2) length_fresh_ptrs)
    have "\<forall>x\<in>set (fresh_ptrs (length w0 + nat pid * nat k) (nat k)). \<exists>b<length w1. x = Ptr b"
      using lt' s(3)[folded w] by (rule fresh_ptrs_in_heap)
    then have hp: "\<forall>x\<in>set (?cont (segs ! nat pid)). \<exists>b<length w1. x = Ptr b"
      by (simp add: seg(2))
    from pinned_repeat_Get[where get = RingBufferCondPool_Get and I = ?I and cont = ?cont,
        OF RingBufferCondPool_Get_next pid(1) lt seg(1) le hp]
    obtain s' w2 where r: "repeat_Get (pinned_Get RingBufferCondPool_Get pid) (nat k) segs w1 =
        Inr (take (nat k) (?cont (segs ! nat pid)), segs[nat pid := s'], w2)"
      "length w2 = length w1" "?I s'" "?cont s' = drop (nat k) (?cont (segs ! nat pid))"
      by blast
    let ?p' = "p\<lparr>ShardedRingBufferCondPool.shards := segs[nat pid := s']\<rparr>"
    have "repeat_Get (ShardedRingBufferCondPool_Get pid) (nat k) p w1 =
      (case repeat_Get (pinned_Get RingBufferCondPool_Get pid) (nat k)
          (ShardedRingBufferCondPool.shards p) w1 of
         Inl e \<Rightarrow> Inl e
       | Inr (objs, s, w') \<Rightarrow> Inr (objs, p\<lparr>ShardedRingBufferCondPool.shards := s\<rparr>, w'))"
      by (rule repeat_Get_wrap) (simp_all add: ShardedRingBufferCondPool_Get_def)
    with r(1) p seg(2)
    have 1: "repeat_Get (ShardedRingBufferCondPool_Get pid) (nat k) p w1 =
      Inr (fresh_ptrs (length w0 + nat pid * nat k) (nat k), ?p', w2)"
      by (simp add: take_fresh_ptrs drop_fresh_ptrs)
    from r(4) seg(2) have e: "?cont s' = []" by (simp add: take_fresh_ptrs drop_fresh_ptrs)
    from RingBufferCondPool_Get_drained[OF r(3) e, of w2] lt
    have "RingBufferCondPool_Get (segs[nat pid := s'] ! nat pid) w2 = Inl Blocked" by simp
    from pinned_Get_fault[where get = RingBufferCondPool_Get, OF pid(1) _ this] lt
    have "pinned_Get RingBufferCondPool_Get pid (segs[nat pid := s']) w2 = Inl Blocked" by simp
    then have 2: "ShardedRingBufferCondPool_Get pid ?p' w2 = Inl Blocked"
      by (simp add: ShardedRingBufferCondPool_Get_def)
    from 1 2 r(2) s(2) p show ?thesis by auto
  qed
  from s p w gets show ?thesis by auto
qed


lemma ShardedChannelBasedPool_fresh_Gets:
  assumes a: "allocates_new alloc"
    and new: "NewShardedChannelBasedPool g c n alloc clean w0 = Inr (p, w1)"
    and m: "m = (if n \<le> 0 then g else n)" and k: "k = max (c sdiv m) 1"
  shows "length w1 = length w0 + nat m * nat k \<and>
    length (ShardedChannelBasedPool.shards p) = nat m \<and>
    (\<forall>i<nat m. queue (ChannelBasedPool.objects (ShardedChannelBasedPool.shards p ! i)) =
       fresh_ptrs (length w0 + i * nat k) (nat k)) \<and>
    (0 \<le> pid \<and> pid < m \<longrightarrow>
      (\<exists>p' w'. repeat_Get (ShardedChannelBasedPool_Get pid) (nat k) p w1 =
          Inr (fresh_ptrs (length w0 + nat pid * nat k) (nat k), p', w') \<and>
        length w' = length w1 \<and>
        length (ShardedChannelBasedPool.shards p') = nat m \<and>
        (\<forall>i<nat m. i \<noteq> nat pid \<longrightarrow>
           ShardedChannelBasedPool.shards p' ! i = ShardedChannelBasedPool.shards p ! i) \<and>
        (\<exists>p'' w''. ShardedChannelBasedPool_Get pid p' w' = Inr (Ptr (length w'), p'', w'') \<and>
           length w'' = Suc (length w'))))"
proof -
  let ?I = "\<lambda>s. True \<and> ChannelBasedPool.allocator s = alloc"
  let ?held = "\<lambda>s. queue (ChannelBasedPool.objects s)"
  let ?cont = "\<lambda>s. queue (ChannelBasedPool.objects s)"
  let ?P = "\<lambda>a s. ?I s \<and> ?held s = fresh_ptrs a (nat k)"
  let ?new = "NewChannelBasedPool k alloc clean"
  have k0: "0 \<le> k" using k by simp
  have kk: "(if c sdiv m < 1 then 1 else c sdiv m) = max (c sdiv m) 1"
    by (auto simp: max_def)
  from sharded_Inr_shards[OF new[unfolded NewShardedChannelBasedPool_def] m]
  have m0: "0 < m"
    and mk: "(let shardCapacity = max (c sdiv m) 1 in
      case make_shards (NewChannelBasedPool shardCapacity alloc clean) (nat m) w0 of
        Inl e \<Rightarrow> Inl e
      | Inr (segs, w') \<Rightarrow> Inr (\<lparr>ShardedChannelBasedPool.shards = segs\<rparr>, w')) = Inr (p, w1)"
    by (simp_all add: kk)
  from make_shards_nth[where new = ?new and k = "nat k" and P = ?P and n = "nat m" and w = w0,
      OF NewChannelBasedPool_new[OF a k0]]
  obtain segs w' where s: "make_shards ?new (nat m) w0 = Inr (segs, w')" "length segs = nat m"
    "length w' = length w0 + nat m * nat k"
    "\<forall>i<nat m. ?P (length w0 + i * nat k) (segs ! i)" by blast
  from mk s(1) k have p: "p = \<lparr>ShardedChannelBasedPool.shards = segs\<rparr>" and w: "w1 = w'"
    by simp_all
  have gets: "\<exists>p' w'. repeat_Get (ShardedChannelBasedPool_Get pid) (nat k) p w1 =
          Inr (fresh_ptrs (length w0 + nat pid * nat k) (nat k), p', w') \<and>
        length w' = length w1 \<and>
        length (ShardedChannelBasedPool.shards p') = nat m \<and>
        (\<forall>i<nat m. i \<noteq> nat pid \<longrightarrow>
           ShardedChannelBasedPool.shards p' ! i = ShardedChannelBasedPool.shards p ! i) \<and>
        (\<exists>p'' w''. ShardedChannelBasedPool_Get pid p' w' = Inr (Ptr (length w'), p'', w'') \<and>
           length w'' = Suc (length w'))"
    if pid: "0 \<le> pid" "pid < m"
  proof -
    from pid s(2) have lt: "nat pid < length segs" and lt': "nat pid < nat m" by simp_all
    from s(4) lt' have seg: "?I (segs ! nat pid)"
      "?held (segs ! nat pid) = fresh_ptrs (length w0 + nat pid * nat k) (nat k)" by simp_all
    have le: "nat k \<le> length (?cont (segs ! nat pid))" by (simp add: seg(2) length_fresh_ptrs)
    have "\<forall>x\<in>set (fresh_ptrs (length w0 + nat pid * nat k) (nat k)). \<exists>b<length w1. x = Ptr b"
      using lt' s(3)[folded w] by (rule fresh_ptrs_in_heap)
    then have hp: "\<forall>x\<in>set (?cont (segs ! nat pid)). \<exists>b<length w1. x = Ptr b"
      by (simp add: seg(2))
    from pinned_repeat_Get[where get = ChannelBasedPool_Get and I = ?I and cont = ?cont,
        OF ChannelBasedPool_Get_next pid(1) lt seg(1) le hp]
    obtain s' w2 where r: "repeat_Get (pinned_Get ChannelBasedPool_Get pid) (nat k) segs w1 =
        Inr (take (nat k) (?cont (segs ! nat pid)), segs[nat pid := s'], w2)"
      "length w2 = length w1" "?I s'" "?cont s' = drop (nat k) (?cont (segs ! nat pid))"
      by blast
    let ?p' = "p\<lparr>ShardedChannelBasedPool.shards := segs[nat pid := s']\<rparr>"
    have "repeat_Get (ShardedChannelBasedPool_Get pid) (nat k) p w1 =
      (case repeat_Get (pinned_Get ChannelBasedPool_Get pid) (nat k)
          (ShardedChannelBasedPool.shards p) w1 of
         Inl e \<Rightarrow> Inl e
       | Inr (objs, s, w') \<Rightarrow> Inr (objs, p\<lparr>ShardedChannelBasedPool.shards := s\<rparr>, w'))"
      by (rule repeat_Get_wrap) (simp_all add: ShardedChannelBasedPool_Get_def)
    with r(1) p seg(2)
    have 1: "repeat_Get (ShardedChannelBasedPool_Get pid) (nat k) p w1 =
      Inr (fresh_ptrs (length w0 + nat pid * nat k) (nat k), ?p', w2)"
      by (simp add: take_fresh_ptrs drop_fresh_ptrs)
    from r(4) seg(2) have e: "?cont s' = []" by (simp add: take_fresh_ptrs drop_fresh_ptrs)
    from ChannelBasedPool_Get_drained[OF a r(3) e, of w2]
    obtain x where "ChannelBasedPool_Get s' w2 = Inr (Ptr (length w2), s', w2 @ [x])" by blast
    with lt have "ChannelBasedPool_Get (segs[nat pid := s'] ! nat pid) w2 =
      Inr (Ptr (length w2), s', w2 @ [x])" by simp
    from pinned_Get_alloc[where get = ChannelBasedPool_Get, OF pid(1) _ this] lt
    obtain w3 where "pinned_Get ChannelBasedPool_Get pid (segs[nat pid := s']) w2 =
        Inr (Ptr (length w2), segs[nat pid := s', nat pid := s'], w3)" "length w3 = Suc (length w2)"
      by auto
    then have 2: "\<exists>p'' w''. ShardedChannelBasedPool_Get pid ?p' w2 = Inr (Ptr (length w2), p'', w'') \<and>
           length w'' = Suc (length w2)"
      by (simp add: ShardedChannelBasedPool_Get_def)
    from 1 2 r(2) s(2) p show ?thesis by auto
  qed
  from s p w gets show ?thesis by auto
qed


lemma ShardedAtomicBasedPool_fresh_Gets:
  assumes a: "allocates_new alloc"
    and new: "NewShardedAtomicBasedPool g c n alloc clean w0 = Inr (p, w1)"
    and m: "m = (if n \<le> 0 then g else n)" and k: "k = max (c sdiv m) 1"
  shows "length w1 = length w0 + nat m * nat k \<and>
    length (ShardedAtomicBasedPool.shards p) = nat m \<and>
    (\<forall>i<nat m. atomic_contents (ShardedAtomicBasedPool.shards p ! i) =
       fresh_ptrs (length w0 + i * nat k) (nat k)) \<and>
    (0 \<le> pid \<and> pid < m \<longrightarrow>
      (\<exists>p' w'. repeat_Get (ShardedAtomicBasedPool_Get pid) (nat k) p w1 =
          Inr (rev (fresh_ptrs (length w0 + nat pid * nat k) (nat k)), p', w') \<and>
        length w' = length w1 \<and>
        length (ShardedAtomicBasedPool.shards p') = nat m \<and>
        (\<forall>i<nat m. i \<noteq> nat pid \<longrightarrow>
           ShardedAtomicBasedPool.shards p' ! i = ShardedAtomicBasedPool.shards p ! i) \<and>
        (\<exists>p'' w''. ShardedAtomicBasedPool_Get pid p' w' = Inr (Ptr (length w'), p'', w'') \<and>
           length w'' = Suc (length w'))))"
proof -
  let ?I = "\<lambda>s. atomic_inv s \<and> AtomicBasedPool.allocator s = alloc"
  let ?held = "\<lambda>s. atomic_contents s"
  let ?cont = "\<lambda>s. rev (atomic_contents s)"
  let ?P = "\<lambda>a s. ?I s \<and> ?held s = fresh_ptrs a (nat k)"
  let ?new = "NewAtomicBasedPool k alloc clean"
  have k0: "0 \<le> k" using k by simp
  from sharded_Inr_shards[OF new[unfolded NewShardedAtomicBasedPool_def] m]
  have m0: "0 < m"
    and mk: "(let shardCapacity = max (c sdiv m) 1 in
      case make_shards (NewAtomicBasedPool shardCapacity alloc clean) (nat m) w0 of
        Inl e \<Rightarrow> Inl e
      | Inr (segs, w') \<Rightarrow> Inr (\<lparr>ShardedAtomicBasedPool.shards = segs\<rparr>, w')) = Inr (p, w1)"
    by simp_all
  from make_shards_nth[where new = ?new and k = "nat k" and P = ?P and n = "nat m" and w = w0,
      OF NewAtomicBasedPool_new[OF a k0]]
  obtain segs w' where s: "make_shards ?new (nat m) w0 = Inr (segs, w')" "length segs = nat m"
    "length w' = length w0 + nat m * nat k"
    "\<forall>i<nat m. ?P (length w0 + i * nat k) (segs ! i)" by blast
  from mk s(1) k have p: "p = \<lparr>ShardedAtomicBasedPool.shards = segs\<rparr>" and w: "w1 = w'"
    by simp_all
  have gets: "\<exists>p' w'. repeat_Get (ShardedAtomicBasedPool_Get pid) (nat k) p w1 =
          Inr (rev (fresh_ptrs (length w0 + nat pid * nat k) (nat k)), p', w') \<and>
        length w' = length w1 \<and>
        length (ShardedAtomicBasedPool.shards p') = nat m \<and>
        (\<forall>i<nat m. i \<noteq> nat pid \<longrightarrow>
           ShardedAtomicBasedPool.shards p' ! i = ShardedAtomicBasedPool.shards p ! i) \<and>
        (\<exists>p'' w''. ShardedAtomicBasedPool_Get pid p' w' = Inr (Ptr (length w'), p'', w'') \<and>
           length w'' = Suc (length w'))"
    if pid: "0 \<le> pid" "pid < m"
  proof -
    from pid s(2) have lt: "nat pid < length segs" and lt': "nat pid < nat m" by simp_all
    from s(4) lt' have seg: "?I (segs ! nat pid)"
      "?held (segs ! nat pid) = fresh_ptrs (length w0 + nat pid * nat k) (nat k)" by simp_all
    have le: "nat k \<le> length (?cont (segs ! nat pid))" by (simp add: seg(2) length_fresh_ptrs)
    have "\<forall>x\<in>set (fresh_ptrs (length w0 + nat pid * nat k) (nat k)). \<exists>b<length w1. x = Ptr b"
      using lt' s(3)[folded w] by (rule fresh_ptrs_in_heap)
    then have hp: "\<forall>x\<in>set (?cont (segs ! nat pid)). \<exists>b<length w1. x = Ptr b"
      by (simp add: seg(2))
    from pinned_repeat_Get[where get = AtomicBasedPool_Get and I = ?I and cont = ?cont,
        OF AtomicBasedPool_Get_next pid(1) lt seg(1) le hp]
    obtain s' w2 where r: "repeat_Get (pinned_Get AtomicBasedPool_Get pid) (nat k) segs w1 =
        Inr (take (nat k) (?cont (segs ! nat pid)), segs[nat pid := s'], w2)"
      "length w2 = length w1" "?I s'" "?cont s' = drop (nat k) (?cont (segs ! nat pid))"
      by blast
    let ?p' = "p\<lparr>ShardedAtomicBasedPool.shards := segs[nat pid := s']\<rparr>"
    have "repeat_Get (ShardedAtomicBasedPool_Get pid) (nat k) p w1 =
      (case repeat_Get (pinned_Get AtomicBasedPool_Get pid) (nat k)
          (ShardedAtomicBasedPool.shards p) w1 of
         Inl e \<Rightarrow> Inl e
       | Inr (objs, s, w') \<Rightarrow> Inr (objs, p\<lparr>ShardedAtomicBasedPool.shards := s\<rparr>, w'))"
      by (rule repeat_Get_wrap) (simp_all add: ShardedAtomicBasedPool_Get_def)
    with r(1) p seg(2)
    have 1: "repeat_Get (ShardedAtomicBasedPool_Get pid) (nat k) p w1 =
      Inr (rev (fresh_ptrs (length w0 + nat pid * nat k) (nat k)), ?p', w2)"
      by (simp add: length_fresh_ptrs)
    from r(4) seg(2) have e: "?cont s' = []" by (simp add: length_fresh_ptrs)
    from AtomicBasedPool_Get_drained[OF a r(3) e, of w2]
    obtain x where "AtomicBasedPool_Get s' w2 = Inr (Ptr (length w2), s', w2 @ [x])" by blast
    with lt have "AtomicBasedPool_Get (segs[nat pid := s'] ! nat pid) w2 =
      Inr (Ptr (length w2), s', w2 @ [x])" by simp
    from pinned_Get_alloc[where get = AtomicBasedPool_Get, OF pid(1) _ this] lt
    obtain w3 where "pinned_Get AtomicBasedPool_Get pid (segs[nat pid := s']) w2 =
        Inr (Ptr (length w2), segs[nat pid := s', nat pid := s'], w3)" "length w3 = Suc (length w2)"
      by auto
    then have 2: "\<exists>p'' w''. ShardedAtomicBasedPool_Get pid ?p' w2 = Inr (Ptr (length w2), p'', w'') \<and>
           length w'' = Suc (length w2)"
      by (simp add: ShardedAtomicBasedPool_Get_def)
    from 1 2 r(2) s(2) p show ?thesis by auto
  qed
  from s p w gets show ?thesis by auto
qed

subsection \<open>ShardedGoroutineIDPool drained from one stack address\<close>

lemma getShard_index:
  assumes "0 < m"
  shows "0 \<le> int (drop_bit 12 addr) AND (m - 1)" "int (drop_bit 12 addr) AND (m - 1) < m"
proof -
  show "0 \<le> int (drop_bit 12 addr) AND (m - 1)" by (rule AND_lower) simp
  from assms have "0 \<le> m - 1" by simp
  then have "int (drop_bit 12 addr) AND (m - 1) \<le> m - 1" by (rule AND_upper2)
  then show "int (drop_bit 12 addr) AND (m - 1) < m" by simp
qed

lemma ShardedGoroutineIDPool_Get_seg:
  assumes "numShards q = m" "length (ShardedGoroutineIDPool.shards q) = nat m"
    "sid = int (drop_bit 12 addr) AND (m - 1)" "0 < m"
    "MutexRingBufferPool_Get (ShardedGoroutineIDPool.shards q ! nat sid) w = Inr (obj, s', w')"
  shows "ShardedGoroutineIDPool_Get addr q w =
    Inr (obj, q\<lparr>ShardedGoroutineIDPool.shards :=
                 (ShardedGoroutineIDPool.shards q)[nat sid := s']\<rparr>, w')"
proof -
  from getShard_index[OF assms(4), of addr] assms(3) have "0 \<le> sid" "sid < m" by simp_all
  with assms(2) have "at_index (ShardedGoroutineIDPool.shards q) sid =
      Inr (ShardedGoroutineIDPool.shards q ! nat sid)"
    by (simp add: at_index_def)
  with assms(1,3,5) show ?thesis
    by (simp add: ShardedGoroutineIDPool_Get_def getShard_def Let_def)
qed

lemma ShardedGoroutineIDPool_fresh_Gets:
  assumes a: "allocates_new alloc"
    and new: "NewShardedGoroutineIDPool g c n alloc clean w0 = Inr (p, w1)"
    and m: "m = (if n \<le> 0 then g else n)" and k: "k = max (c sdiv m) 1"
    and sid: "sid = int (drop_bit 12 addr) AND (m - 1)"
  shows "length w1 = length w0 + nat m * nat k \<and>
    length (ShardedGoroutineIDPool.shards p) = nat m \<and>
    (\<forall>i<nat m. rb_contents (MutexRingBufferPool.ringBuffer (ShardedGoroutineIDPool.shards p ! i)) =
       fresh_ptrs (length w0 + i * nat k) (nat k)) \<and>
    0 \<le> sid \<and> sid < m \<and>
    (\<exists>p'. repeat_Get (ShardedGoroutineIDPool_Get addr) (nat k) p w1 =
        Inr (fresh_ptrs (length w0 + nat sid * nat k) (nat k), p', w1) \<and>
      length (ShardedGoroutineIDPool.shards p') = nat m \<and>
      (\<forall>i<nat m. i \<noteq> nat sid \<longrightarrow>
         ShardedGoroutineIDPool.shards p' ! i = ShardedGoroutineIDPool.shards p ! i) \<and>
      (\<exists>p'' w''. ShardedGoroutineIDPool_Get addr p' w1 = Inr (Ptr (length w1), p'', w'') \<and>
         length w'' = Suc (length w1)))"
proof -
  let ?I = "\<lambda>s. rb_inv (MutexRingBufferPool.ringBuffer s) \<and> MutexRingBufferPool.allocator s = alloc"
  let ?cont = "\<lambda>s. rb_contents (MutexRingBufferPool.ringBuffer s)"
  let ?P = "\<lambda>a s. ?I s \<and> ?cont s = fresh_ptrs a (nat k)"
  let ?new = "NewMutexRingBufferPool k alloc clean"
  have k0: "0 \<le> k" using k by simp
  from sharded_Inr_shards[OF new[unfolded NewShardedGoroutineIDPool_def] m]
  have m0: "0 < m"
    and mk: "(let shardCapacity = max (c sdiv m) 1 in
      case make_shards (NewMutexRingBufferPool shardCapacity alloc clean) (nat m) w0 of
        Inl e \<Rightarrow> Inl e
      | Inr (segs, w') \<Rightarrow>
          Inr (\<lparr>ShardedGoroutineIDPool.shards = segs, numShards = m\<rparr>, w')) = Inr (p, w1)"
    by simp_all
  from make_shards_nth[where new = ?new and k = "nat k" and P = ?P and n = "nat m" and w = w0,
      OF NewMutexRingBufferPool_new[OF a k0]]
  obtain segs w' where s: "make_shards ?new (nat m) w0 = Inr (segs, w')" "length segs = nat m"
    "length w' = length w0 + nat m * nat k"
    "\<forall>i<nat m. ?P (length w0 + i * nat k) (segs ! i)" by blast
  from mk s(1) k have p: "p = \<lparr>ShardedGoroutineIDPool.shards = segs, numShards = m\<rparr>"
    and w: "w1 = w'"
    by simp_all
  from getShard_index[OF m0, of addr] sid have r: "0 \<le> sid" "sid < m" by simp_all
  with s(2) have lt: "nat sid < length segs" and lt': "nat sid < nat m" by simp_all
  from s(4) lt' have seg: "?I (segs ! nat sid)"
    "?cont (segs ! nat sid) = fresh_ptrs (length w0 + nat sid * nat k) (nat k)" by simp_all
  let ?J = "\<lambda>q :: ShardedGoroutineIDPool. numShards q = m \<and>
    length (ShardedGoroutineIDPool.shards q) = nat m \<and>
    (\<forall>i<nat m. i \<noteq> nat sid \<longrightarrow> ShardedGoroutineIDPool.shards q ! i = segs ! i) \<and>
    ?I (ShardedGoroutineIDPool.shards q ! nat sid)"
  let ?c = "\<lambda>q :: ShardedGoroutineIDPool. ?cont (ShardedGoroutineIDPool.shards q ! nat sid)"
  have "\<exists>p'. repeat_Get (ShardedGoroutineIDPool_Get addr) (nat k) p w1 =
      Inr (take (nat k) (?c p), p', w1) \<and> ?J p' \<and> ?c p' = drop (nat k) (?c p)"
  proof (rule repeat_Get_queue[where I = ?J and cont = ?c])
    fix q :: ShardedGoroutineIDPool and w
    assume j: "?J q" and ne: "?c q \<noteq> []"
    from j have i: "?I (ShardedGoroutineIDPool.shards q ! nat sid)" by simp
    from MutexRingBufferPool_Get_next[OF i ne, of w]
    obtain s' where g: "MutexRingBufferPool_Get (ShardedGoroutineIDPool.shards q ! nat sid) w =
        Inr (hd (?c q), s', w)" "?I s'" "?cont s' = tl (?c q)" by blast
    from j have n: "numShards q = m" and l: "length (ShardedGoroutineIDPool.shards q) = nat m"
      by simp_all
    let ?q' = "q\<lparr>ShardedGoroutineIDPool.shards :=
                 (ShardedGoroutineIDPool.shards q)[nat sid := s']\<rparr>"
    from ShardedGoroutineIDPool_Get_seg[OF n l sid m0 g(1)]
    have 1: "ShardedGoroutineIDPool_Get addr q w = Inr (hd (?c q), ?q', w)" .
    from j g(2) lt' have 2: "?J ?q'" by simp
    from g(3) l lt' have 3: "?c ?q' = tl (?c q)" by simp
    from 1 2 3 show "\<exists>p'. ShardedGoroutineIDPool_Get addr q w = Inr (hd (?c q), p', w) \<and> ?J p' \<and>
        ?c p' = tl (?c q)" by blast
  next
    from p s(2) seg(1) show "?J p" by simp
    from p seg(2) show "nat k \<le> length (?c p)" by (simp add: length_fresh_ptrs)
  qed
  then obtain p' where g: "repeat_Get (ShardedGoroutineIDPool_Get addr) (nat k) p w1 =
      Inr (take (nat k) (?c p), p', w1)" "?J p'" "?c p' = drop (nat k) (?c p)" by blast
  from g(1) p seg(2) have 1: "repeat_Get (ShardedGoroutineIDPool_Get addr) (nat k) p w1 =
      Inr (fresh_ptrs (length w0 + nat sid * nat k) (nat k), p', w1)"
    by (simp add: take_fresh_ptrs)
  from g(3) p seg(2) have e: "?c p' = []" by (simp add: drop_fresh_ptrs)
  from g(2) have i': "?I (ShardedGoroutineIDPool.shards p' ! nat sid)"
    and n': "numShards p' = m" and l': "length (ShardedGoroutineIDPool.shards p') = nat m"
    and o': "\<forall>i<nat m. i \<noteq> nat sid \<longrightarrow> ShardedGoroutineIDPool.shards p' ! i = segs ! i"
    by simp_all
  from MutexRingBufferPool_Get_drained[OF a i' e, of w1]
  obtain x where "MutexRingBufferPool_Get (ShardedGoroutineIDPool.shards p' ! nat sid) w1 =
      Inr (Ptr (length w1), ShardedGoroutineIDPool.shards p' ! nat sid, w1 @ [x])" by blast
  from ShardedGoroutineIDPool_Get_seg[OF n' l' sid m0 this]
  have 2: "\<exists>p'' w''. ShardedGoroutineIDPool_Get addr p' w1 = Inr (Ptr (length w1), p'', w'') \<and>
         length w'' = Suc (length w1)" by simp
  from s p w r 1 2 l' o' show ?thesis by auto
qed

subsection \<open>The objects a fresh pool returns\<close>

lemma MutexRingBufferPool_drained:
  assumes "allocates_new alloc"
  shows "(NewMutexRingBufferPool c alloc clean wi = Inr (pm, wm) \<longrightarrow>
       length wm = length wi + nat c \<and>
       (\<exists>objs p'. repeat_Get MutexRingBufferPool_Get (nat c) pm wm = Inr (objs, p', wm) \<and>
          length objs = nat c \<and> distinct objs \<and>
          set objs = set (fresh_ptrs (length wi) (nat c))))"
    (is "_ \<longrightarrow> ?C")
proof
  assume "NewMutexRingBufferPool c alloc clean wi = Inr (pm, wm)"
  from MutexRingBufferPool_fresh_Gets[OF assms this] show ?C
    by (auto simp: distinct_fresh_ptrs length_fresh_ptrs)
qed

lemma RWMutexRingBufferPool_drained:
  assumes "allocates_new alloc"
  shows "(NewRWMutexRingBufferPool c alloc clean wi = Inr (pr, wr) \<longrightarrow>
       length wr = length wi + nat c \<and>
       (\<exists>objs p'. repeat_Get RWMutexRingBufferPool_Get (nat c) pr wr = Inr (objs, p', wr) \<and>
          length objs = nat c \<and> distinct objs \<and>
          set objs = set (fresh_ptrs (length wi) (nat c))))"
    (is "_ \<longrightarrow> ?C")
proof
  assume "NewRWMutexRingBufferPool c alloc clean wi = Inr (pr, wr)"
  from RWMutexRingBufferPool_fresh_Gets[OF assms this] show ?C
    by (auto simp: distinct_fresh_ptrs length_fresh_ptrs)
qed

lemma RingBufferCondPool_drained:
  assumes "allocates_new alloc"
  shows "(NewRingBufferCondPool c alloc clean wi = Inr (pq, wq) \<longrightarrow>
       length wq = length wi + nat c \<and>
       (\<exists>objs p'. repeat_Get RingBufferCondPool_Get (nat c) pq wq = Inr (objs, p', wq) \<and>
          length objs = nat c \<and> distinct objs \<and>
          set objs = set (fresh_ptrs (length wi) (nat c))))"
    (is "_ \<longrightarrow> ?C")
proof
  assume "NewRingBufferCondPool c alloc clean wi = Inr (pq, wq)"
  from RingBufferCondPool_fresh_Gets[OF assms this] show ?C
    by (auto simp: distinct_fresh_ptrs length_fresh_ptrs)
qed

lemma ChannelBasedPool_drained:
  assumes "allocates_new alloc"
  shows "(NewChannelBasedPool c alloc clean wi = Inr (pc, wc) \<longrightarrow>
       length wc = length wi + nat c \<and>
       (\<exists>objs p'. repeat_Get ChannelBasedPool_Get (nat c) pc wc = Inr (objs, p', wc) \<and>
          length objs = nat c \<and> distinct objs \<and>
          set objs = set (fresh_ptrs (length wi) (nat c))))"
    (is "_ \<longrightarrow> ?C")
proof
  assume "NewChannelBasedPool c alloc clean wi = Inr (pc, wc)"
  from ChannelBasedPool_fresh_Gets[OF assms this] show ?C
    by (auto simp: distinct_fresh_ptrs length_fresh_ptrs)
qed

lemma MutexBasedPool_drained:
  assumes "allocates_new alloc"
  shows "(NewMutexBasedPool c alloc clean wi = Inr (ps, ws) \<longrightarrow>
       length ws = length wi + nat c \<and>
       (\<exists>objs p'. repeat_Get MutexBasedPool_Get (nat c) ps ws = Inr (objs, p', ws) \<and>
          length objs = nat c \<and> distinct objs \<and>
          set objs = set (fresh_ptrs (length wi) (nat c))))"
    (is "_ \<longrightarrow> ?C")
proof
  assume "NewMutexBasedPool c alloc clean wi = Inr (ps, ws)"
  from MutexBasedPool_fresh_Gets[OF assms this] show ?C
    by (auto simp: distinct_fresh_ptrs length_fresh_ptrs)
qed

lemma CondBasedPool_drained:
  assumes "allocates_new alloc"
  shows "(NewCondBasedPool c alloc clean wi = Inr (pd, wd) \<longrightarrow>
       length wd = length wi + nat c \<and>
       (\<exists>objs p'. repeat_Get CondBasedPool_Get (nat c) pd wd = Inr (objs, p', wd) \<and>
          length objs = nat c \<and> distinct objs \<and>
          set objs = set (fresh_ptrs (length wi) (nat c))))"
    (is "_ \<longrightarrow> ?C")
proof
  assume "NewCondBasedPool c alloc clean wi = Inr (pd, wd)"
  from CondBasedPool_fresh_Gets[OF assms this] show ?C
    by (auto simp: distinct_fresh_ptrs length_fresh_ptrs)
qed

lemma AtomicBasedPool_drained:
  assumes "allocates_new alloc"
  shows "(NewAtomicBasedPool c alloc clean wi = Inr (pa, wa) \<longrightarrow>
       length wa = length wi + nat c \<and>
       (\<exists>objs p'. repeat_Get AtomicBasedPool_Get (nat c) pa wa = Inr (objs, p', wa) \<and>
          length objs = nat c \<and> distinct objs \<and>
          set objs = set (fresh_ptrs (length wi) (nat c))))"
    (is "_ \<longrightarrow> ?C")
proof
  assume "NewAtomicBasedPool c alloc clean wi = Inr (pa, wa)"
  from AtomicBasedPool_fresh_Gets[OF assms this] show ?C
    by (auto simp: distinct_fresh_ptrs length_fresh_ptrs)
qed

lemma ShardedMutexRingBufferPool_drained:
  assumes "allocates_new alloc" "m = (if n \<le> 0 then g else n)" "k = max (c sdiv m) 1"
  shows "(NewShardedMutexRingBufferPool g c n alloc clean wi = Inr (sm, vm) \<longrightarrow>
       length vm = length wi + nat m * nat k \<and>
       length (ShardedMutexRingBufferPool.shards sm) = nat m \<and>
       (\<forall>i<nat m. rb_contents (MutexRingBufferPool.ringBuffer (ShardedMutexRingBufferPool.shards sm ! i)) =
          fresh_ptrs (length wi + i * nat k) (nat k)) \<and>
       (0 \<le> pid \<and> pid < m \<longrightarrow>
         (\<exists>objs p' w'. repeat_Get (ShardedMutexRingBufferPool_Get pid) (nat k) sm vm = Inr (objs, p', w') \<and>
            length w' = length vm \<and> length objs = nat k \<and> distinct objs \<and>
            set objs = set (fresh_ptrs (length wi + nat pid * nat k) (nat k)) \<and>
            length (ShardedMutexRingBufferPool.shards p') = nat m \<and>
            (\<forall>i<nat m. i \<noteq> nat pid \<longrightarrow> ShardedMutexRingBufferPool.shards p' ! i = ShardedMutexRingBufferPool.shards sm ! i) \<and>
            (\<exists>p'' w''. ShardedMutexRingBufferPool_Get pid p' w' = Inr (Ptr (length w'), p'', w'') \<and>
               length w'' = Suc (length w')))))"
    (is "_ \<longrightarrow> ?C")
proof
  assume "NewShardedMutexRingBufferPool g c n alloc clean wi = Inr (sm, vm)"
  from ShardedMutexRingBufferPool_fresh_Gets[OF assms(1) this assms(2,3), of pid] show ?C
    by (auto simp: distinct_fresh_ptrs length_fresh_ptrs)
qed

lemma ShardedChannelBasedPool_drained:
  assumes "allocates_new alloc" "m = (if n \<le> 0 then g else n)" "k = max (c sdiv m) 1"
  shows "(NewShardedChannelBasedPool g c n alloc clean wi = Inr (sc, vc) \<longrightarrow>
       length vc = length wi + nat m * nat k \<and>
       length (ShardedChannelBasedPool.shards sc) = nat m \<and>
       (\<forall>i<nat m. queue (ChannelBasedPool.objects (ShardedChannelBasedPool.shards sc ! i)) =
          fresh_ptrs (length wi + i * nat k) (nat k)) \<and>
       (0 \<le> pid \<and> pid < m \<longrightarrow>
         (\<exists>objs p' w'. repeat_Get (ShardedChannelBasedPool_Get pid) (nat k) sc vc = Inr (objs, p', w') \<and>
            length w' = length vc \<and> length objs = nat k \<and> distinct objs \<and>
            set objs = set (fresh_ptrs (length wi + nat pid * nat k) (nat k)) \<and>
            length (ShardedChannelBasedPool.shards p') = nat m \<and>
            (\<forall>i<nat m. i \<noteq> nat pid \<longrightarrow> ShardedChannelBasedPool.shards p' ! i = ShardedChannelBasedPool.shards sc ! i) \<and>
            (\<exists>p'' w''. ShardedChannelBasedPool_Get pid p' w' = Inr (Ptr (length w'), p'', w'') \<and>
               length w'' = Suc (length w')))))"
    (is "_ \<longrightarrow> ?C")
proof
  assume "NewShardedChannelBasedPool g c n alloc clean wi = Inr (sc, vc)"
  from ShardedChannelBasedPool_fresh_Gets[OF assms(1) this assms(2,3), of pid] show ?C
    by (auto simp: distinct_fresh_ptrs length_fresh_ptrs)
qed

lemma ShardedAtomicBasedPool_drained:
  assumes "allocates_new alloc" "m = (if n \<le> 0 then g else n)" "k = max (c sdiv m) 1"
  shows "(NewShardedAtomicBasedPool g c n alloc clean wi = Inr (sa, va) \<longrightarrow>
       length va = length wi + nat m * nat k \<and>
       length (ShardedAtomicBasedPool.shards sa) = nat m \<and>
       (\<forall>i<nat m. atomic_contents (ShardedAtomicBasedPool.shards sa ! i) =
          fresh_ptrs (length wi + i * nat k) (nat k)) \<and>
       (0 \<le> pid \<and> pid < m \<longrightarrow>
         (\<exists>objs p' w'. repeat_Get (ShardedAtomicBasedPool_Get pid) (nat k) sa va = Inr (objs, p', w') \<and>
            length w' = length va \<and> length objs = nat k \<and> distinct objs \<and>
            set objs = set (fresh_ptrs (length wi + nat pid * nat k) (nat k)) \<and>
            length (ShardedAtomicBasedPool.shards p') = nat m \<and>
            (\<forall>i<nat m. i \<noteq> nat pid \<longrightarrow> ShardedAtomicBasedPool.shards p' ! i = ShardedAtomicBasedPool.shards sa ! i) \<and>
            (\<exists>p'' w''. ShardedAtomicBasedPool_Get pid p' w' = Inr (Ptr (length w'), p'', w'') \<and>
               length w'' = Suc (length w')))))"
    (is "_ \<longrightarrow> ?C")
proof
  assume "NewShardedAtomicBasedPool g c n alloc clean wi = Inr (sa, va)"
  from ShardedAtomicBasedPool_fresh_Gets[OF assms(1) this assms(2,3), of pid] show ?C
    by (auto simp: distinct_fresh_ptrs length_fresh_ptrs)
qed

lemma ShardedCondBasedPool_drained:
  assumes "allocates_new alloc" "m = (if n \<le> 0 then g else n)" "k = max (c sdiv m) 1"
  shows "(NewShardedCondBasedPool g c n alloc clean wi = Inr (sd, vd) \<longrightarrow>
       length vd = length wi + nat m * nat k \<and>
       length (ShardedCondBasedPool.shards sd) = nat m \<and>
       (\<forall>i<nat m. rb_contents (RingBufferCondPool.ringBuffer (ShardedCondBasedPool.shards sd ! i)) =
          fresh_ptrs (length wi + i * nat k) (nat k)) \<and>
       (0 \<le> pid \<and> pid < m \<longrightarrow>
         (\<exists>objs p' w'. repeat_Get (ShardedCondBasedPool_Get pid) (nat k) sd vd = Inr (objs, p', w') \<and>
            length w' = length vd \<and> length objs = nat k \<and> distinct objs \<and>
            set objs = set (fresh_ptrs (length wi + nat pid * nat k) (nat k)) \<and>
            length (ShardedCondBasedPool.shards p') = nat m \<and>
            (\<forall>i<nat m. i \<noteq> nat pid \<longrightarrow> ShardedCondBasedPool.shards p' ! i = ShardedCondBasedPool.shards sd ! i) \<and>
            ShardedCondBasedPool_Get pid p' w' = Inl Blocked)))"
    (is "_ \<longrightarrow> ?C")
proof
  assume "NewShardedCondBasedPool g c n alloc clean wi = Inr (sd, vd)"
  from ShardedCondBasedPool_fresh_Gets[OF assms(1) this assms(2,3), of pid] show ?C
    by (auto simp: distinct_fresh_ptrs length_fresh_ptrs)
qed

lemma ShardedRingBufferCondPool_drained:
  assumes "allocates_new alloc" "m = (if n \<le> 0 then g else n)" "k = max (c sdiv m) 1"
  shows "(NewShardedRingBufferCondPool g c n alloc clean wi = Inr (sq, vq) \<longrightarrow>
       length vq = length wi + nat m * nat k \<and>
       length (ShardedRingBufferCondPool.shards sq) = nat m \<and>
       (\<forall>i<nat m. rb_contents (RingBufferCondPool.ringBuffer (ShardedRingBufferCondPool.shards sq ! i)) =
          fresh_ptrs (length wi + i * nat k) (nat k)) \<and>
       (0 \<le> pid \<and> pid < m \<longrightarrow>
         (\<exists>objs p' w'. repeat_Get (ShardedRingBufferCondPool_Get pid) (nat k) sq vq = Inr (objs, p', w') \<and>
            length w' = length vq \<and> length objs = nat k \<and> distinct objs \<and>
            set objs = set (fresh_ptrs (length wi + nat pid * nat k) (nat k)) \<and>
            length (ShardedRingBufferCondPool.shards p') = nat m \<and>
            (\<forall>i<nat m. i \<noteq> nat pid \<longrightarrow> ShardedRingBufferCondPool.shards p' ! i = ShardedRingBufferCondPool.shards sq ! i) \<and>
            ShardedRingBufferCondPool_Get pid p' w' = Inl Blocked)))"
    (is "_ \<longrightarrow> ?C")
proof
  assume "NewShardedRingBufferCondPool g c n alloc clean wi = Inr (sq, vq)"
  from ShardedRingBufferCondPool_fresh_Gets[OF assms(1) this assms(2,3), of pid] show ?C
    by (auto simp: distinct_fresh_ptrs length_fresh_ptrs)
qed

lemma ShardedGoroutineIDPool_drained:
  assumes "allocates_new alloc" "m = (if n \<le> 0 then g else n)" "k = max (c sdiv m) 1"
    "sid = int (drop_bit 12 addr) AND (m - 1)"
  shows "(NewShardedGoroutineIDPool g c n alloc clean wi = Inr (sg, vg) \<longrightarrow>
       length vg = length wi + nat m * nat k \<and>
       length (ShardedGoroutineIDPool.shards sg) = nat m \<and>
       (\<forall>i<nat m. rb_contents (MutexRingBufferPool.ringBuffer (ShardedGoroutineIDPool.shards sg ! i)) =
          fresh_ptrs (length wi + i * nat k) (nat k)) \<and>
       0 \<le> sid \<and> sid < m \<and>
       (\<exists>objs p'. repeat_Get (ShardedGoroutineIDPool_Get addr) (nat k) sg vg = Inr (objs, p', vg) \<and>
          length objs = nat k \<and> distinct objs \<and>
          set objs = set (fresh_ptrs (length wi + nat sid * nat k) (nat k)) \<and>
          length (ShardedGoroutineIDPool.shards p') = nat m \<and>
          (\<forall>i<nat m. i \<noteq> nat sid \<longrightarrow>
             ShardedGoroutineIDPool.shards p' ! i = ShardedGoroutineIDPool.shards sg ! i) \<and>
          (\<exists>p'' w''. ShardedGoroutineIDPool_Get addr p' vg = Inr (Ptr (length vg), p'', w'') \<and>
             length w'' = Suc (length vg))))"
    (is "_ \<longrightarrow> ?C")
proof
  assume "NewShardedGoroutineIDPool g c n alloc clean wi = Inr (sg, vg)"
  from ShardedGoroutineIDPool_fresh_Gets[OF assms(1) this assms(2,3,4)] show ?C
    by (auto simp: distinct_fresh_ptrs length_fresh_ptrs)
qed

section \<open>Claims about the ring buffer\<close>

text \<open>
  Claim C4. Take any ring buffer that \<^verbatim>\<open>NewRingBuffer\<close> constructs and run any
  sequence of \<^verbatim>\<open>Push\<close> and \<^verbatim>\<open>Pop\<close> calls on it. No call panics, and in the
  buffer reached the count is between 0 and the RingBuffer.capacity and,
    when the RingBuffer.capacity is
  positive, \<open>head\<close> and \<open>tail\<close> are indices below the RingBuffer.capacity. On that buffer
  \<^verbatim>\<open>Push\<close> returns false exactly when the count equals the RingBuffer.capacity, and then the
  buffer is unchanged; \<^verbatim>\<open>Pop\<close> returns false exactly when the count is 0, and then
  the value returned with it is the zero value.
\<close>

theorem ring_buffer_push_pop_invariant:
  assumes "NewRingBuffer zero c = Inr rb0"
  shows "\<exists>rb. rb_run zero ops rb0 = Inr rb \<and>
    RingBuffer.capacity rb = c \<and> 0 \<le> size_rb rb \<and> size_rb rb \<le> RingBuffer.capacity rb \<and>
    (0 < c \<longrightarrow> 0 \<le> head rb \<and> head rb < RingBuffer.capacity rb \<and> 0 \<le> tail rb \<and> tail rb < RingBuffer.capacity rb) \<and>
    (\<exists>ok rb'. Push rb x = Inr (ok, rb') \<and> (\<not> ok \<longleftrightarrow> size_rb rb = RingBuffer.capacity rb) \<and>
       (\<not> ok \<longrightarrow> rb' = rb)) \<and>
    (\<exists>y ok rb'. Pop zero rb = Inr (y, ok, rb') \<and> (\<not> ok \<longleftrightarrow> size_rb rb = 0) \<and>
       (\<not> ok \<longrightarrow> y = zero \<and> rb' = rb))"
proof -
  note new = NewRingBuffer_inv[OF assms]
  from rb_run_inv[OF new(1), of zero ops] new(2)
  obtain rb where run: "rb_run zero ops rb0 = Inr rb" and inv: "rb_inv rb"
    and cap: "RingBuffer.capacity rb = c"
    by auto
  from inv have bounds: "0 \<le> size_rb rb" "size_rb rb \<le> RingBuffer.capacity rb"
    unfolding rb_inv_def by simp_all
  have idx: "0 \<le> head rb \<and> head rb < RingBuffer.capacity rb \<and> 0 \<le> tail rb \<and> tail rb < RingBuffer.capacity rb"
    if "0 < c"
    using inv rb_inv_tail_bounds[OF inv] that cap unfolding rb_inv_def by simp
  have push: "\<exists>ok rb'. Push rb x = Inr (ok, rb') \<and> (\<not> ok \<longleftrightarrow> size_rb rb = RingBuffer.capacity rb) \<and>
       (\<not> ok \<longrightarrow> rb' = rb)"
    using inv by (cases rule: Push_cases[where x = x]) auto
  have pop: "\<exists>y ok rb'. Pop zero rb = Inr (y, ok, rb') \<and> (\<not> ok \<longleftrightarrow> size_rb rb = 0) \<and>
       (\<not> ok \<longrightarrow> y = zero \<and> rb' = rb)"
    using inv by (cases rule: Pop_cases[where zero = zero]) auto
  from run cap bounds idx push pop show ?thesis by blast
qed

theorem ring_buffer_push_pop_invariant_witness:
  "NewRingBuffer (0::int) 2 =
     Inr \<lparr>buffer = [0, 0], head = 0, tail = 0, size_rb = 0, RingBuffer.capacity = 2\<rparr> \<and>
   (\<exists>rb. rb_run (0::int) [DoPush 7, DoPush 8, DoPush 9, DoPop]
           \<lparr>buffer = [0, 0], head = 0, tail = 0, size_rb = 0, RingBuffer.capacity = 2\<rparr> = Inr rb \<and>
      RingBuffer.capacity rb = 2 \<and> 0 \<le> size_rb rb \<and> size_rb rb \<le> RingBuffer.capacity rb \<and>
      0 \<le> head rb \<and> head rb < RingBuffer.capacity rb \<and> 0 \<le> tail rb \<and> tail rb < RingBuffer.capacity rb)"
proof -
  have new: "NewRingBuffer (0::int) 2 =
     Inr \<lparr>buffer = [0, 0], head = 0, tail = 0, size_rb = 0, RingBuffer.capacity = 2\<rparr>"
    by (simp add: NewRingBuffer_def make_slice_def numeral_2_eq_2)
  from ring_buffer_push_pop_invariant[OF new, of "[DoPush 7, DoPush 8, DoPush 9, DoPop]" 1]
  show ?thesis using new by simp blast
qed

section \<open>Claims about the lock-free pool\<close>

text \<open>
  Claim C5. Take a pool that \<^verbatim>\<open>NewAtomicBasedPool\<close> constructs with capacity \<open>c\<close> and
  run any sequence of \<^verbatim>\<open>Get\<close> and \<^verbatim>\<open>Put\<close> calls on it. No call panics and, in the
  pool reached, the fill index is between 0 and the capacity. On that pool \<^verbatim>\<open>Get\<close>
  returns what the allocator returns and leaves the pool as it is when the index is at
  most 0, and otherwise lowers the index by one and returns the slot at the lowered
  index; \<^verbatim>\<open>Put\<close> leaves the pool as it is when the index is at least the capacity,
  and otherwise stores the object in the slot at the index and raises the index by one.
  Each call ends in the first round of its loop (the functions are total).
\<close>

theorem atomic_pool_fill_index:
  assumes "NewAtomicBasedPool c alloc clean w0 = Inr (p0, w1)"
  shows "\<exists>p w. run_ops AtomicBasedPool_Get AtomicBasedPool_Put ops p0 w1 = Inr (p, w) \<and>
    0 \<le> index p \<and> index p \<le> AtomicBasedPool.capacity p \<and> AtomicBasedPool.capacity p = c \<and>
    AtomicBasedPool_Get p w =
      (if index p \<le> 0
       then Inr (fst (AtomicBasedPool.allocator p w), p, snd (AtomicBasedPool.allocator p w))
       else Inr (AtomicBasedPool.objects p ! nat (index p - 1), p\<lparr>index := index p - 1\<rparr>, w)) \<and>
    AtomicBasedPool_Put p obj w =
      (if index p \<ge> AtomicBasedPool.capacity p then Inr (p, w)
       else Inr (p\<lparr>AtomicBasedPool.objects := (AtomicBasedPool.objects p)[nat (index p) := obj],
                  index := index p + 1\<rparr>, w))"
proof -
  from assms have c: "0 \<le> c" by (rule NewAtomicBasedPool_Inr_nonneg)
  from NewAtomicBasedPool_inv[OF c, of alloc clean w0] assms
  have inv0: "atomic_inv p0" and cap0: "AtomicBasedPool.capacity p0 = c"
    by auto
  from AtomicBasedPool_run_ops[OF inv0, of ops w1] cap0
  obtain p w where run: "run_ops AtomicBasedPool_Get AtomicBasedPool_Put ops p0 w1 = Inr (p, w)"
    and inv: "atomic_inv p" and cap: "AtomicBasedPool.capacity p = c"
    by auto
  from inv have "0 \<le> index p" "index p \<le> AtomicBasedPool.capacity p"
    by (simp_all add: atomic_inv_def)
  with run cap AtomicBasedPool_Get_eq[OF inv, of w] AtomicBasedPool_Put_eq[OF inv, of obj w]
  show ?thesis by blast
qed

theorem atomic_pool_fill_index_witness:
  "NewAtomicBasedPool 2 testAllocator testCleaner [] =
     Inr (\<lparr>AtomicBasedPool.objects = [Ptr 0, Ptr 1], index = 2, AtomicBasedPool.capacity = 2,
           AtomicBasedPool.allocator = testAllocator, AtomicBasedPool.cleaner = testCleaner\<rparr>,
          [\<lparr>ID = 0, Data = ''test'', shardIndex = - 1\<rparr>,
           \<lparr>ID = 0, Data = ''test'', shardIndex = - 1\<rparr>]) \<and>
   (\<exists>p w. run_ops AtomicBasedPool_Get AtomicBasedPool_Put [DoGet, DoPut NilPtr, DoGet, DoGet]
        \<lparr>AtomicBasedPool.objects = [Ptr 0, Ptr 1], index = 2, AtomicBasedPool.capacity = 2,
          AtomicBasedPool.allocator = testAllocator, AtomicBasedPool.cleaner = testCleaner\<rparr>
        [\<lparr>ID = 0, Data = ''test'', shardIndex = - 1\<rparr>,
         \<lparr>ID = 0, Data = ''test'', shardIndex = - 1\<rparr>] = Inr (p, w) \<and>
      0 \<le> index p \<and> index p \<le> AtomicBasedPool.capacity p \<and> AtomicBasedPool.capacity p = 2)"
proof -
  have new: "NewAtomicBasedPool 2 testAllocator testCleaner [] =
     Inr (\<lparr>AtomicBasedPool.objects = [Ptr 0, Ptr 1], index = 2, AtomicBasedPool.capacity = 2,
           AtomicBasedPool.allocator = testAllocator, AtomicBasedPool.cleaner = testCleaner\<rparr>,
          [\<lparr>ID = 0, Data = ''test'', shardIndex = - 1\<rparr>,
           \<lparr>ID = 0, Data = ''test'', shardIndex = - 1\<rparr>])"
    by (simp add: NewAtomicBasedPool_ok testAllocator_apply numeral_2_eq_2)
  from atomic_pool_fill_index[OF new, of "[DoGet, DoPut NilPtr, DoGet, DoGet]" NilPtr]
  show ?thesis using new by blast
qed

section \<open>Claims about Get on the pools that do not wait\<close>

text \<open>
  Claim C3. For \<^verbatim>\<open>MutexRingBufferPool\<close>, \<^verbatim>\<open>RWMutexRingBufferPool\<close>,
  \<^verbatim>\<open>MutexBasedPool\<close> and \<^verbatim>\<open>AtomicBasedPool\<close>: take a pool its constructor returns and
  run any sequence of \<^verbatim>\<open>Get\<close> and \<^verbatim>\<open>Put\<close> calls on it; the sequence runs without a
  panic and without waiting, and in the state reached \<^verbatim>\<open>Get\<close> returns an object. If
  the pool is empty there, the object and the heap are what the allocator returns, and
  the pool is unchanged. For \<^verbatim>\<open>ChannelBasedPool\<close> the same holds of \<^verbatim>\<open>Get\<close> in
  every state of the pool.
\<close>

theorem Get_never_fails:
  "(NewMutexRingBufferPool c alloc clean w0 = Inr (pm, wm) \<longrightarrow>
     (\<exists>p w. run_ops MutexRingBufferPool_Get MutexRingBufferPool_Put ops pm wm = Inr (p, w) \<and>
        (\<exists>r p' w'. MutexRingBufferPool_Get p w = Inr (r, p', w')) \<and>
        (size_rb (MutexRingBufferPool.ringBuffer p) = 0 \<longrightarrow>
           MutexRingBufferPool_Get p w =
             Inr (fst (MutexRingBufferPool.allocator p w), p,
                  snd (MutexRingBufferPool.allocator p w))))) \<and>
   (NewRWMutexRingBufferPool c alloc clean w0 = Inr (pr, wr) \<longrightarrow>
     (\<exists>p w. run_ops RWMutexRingBufferPool_Get RWMutexRingBufferPool_Put ops pr wr = Inr (p, w) \<and>
        (\<exists>r p' w'. RWMutexRingBufferPool_Get p w = Inr (r, p', w')) \<and>
        (size_rb (RWMutexRingBufferPool.ringBuffer p) = 0 \<longrightarrow>
           RWMutexRingBufferPool_Get p w =
             Inr (fst (RWMutexRingBufferPool.allocator p w), p,
                  snd (RWMutexRingBufferPool.allocator p w))))) \<and>
   (NewMutexBasedPool c alloc clean w0 = Inr (ps, ws) \<longrightarrow>
     (\<exists>p w. run_ops MutexBasedPool_Get MutexBasedPool_Put ops ps ws = Inr (p, w) \<and>
        (\<exists>r p' w'. MutexBasedPool_Get p w = Inr (r, p', w')) \<and>
        (len (MutexBasedPool.objects p) = 0 \<longrightarrow>
           MutexBasedPool_Get p w =
             Inr (fst (MutexBasedPool.allocator p w), p, snd (MutexBasedPool.allocator p w))))) \<and>
   (NewAtomicBasedPool c alloc clean w0 = Inr (pa, wa) \<longrightarrow>
     (\<exists>p w. run_ops AtomicBasedPool_Get AtomicBasedPool_Put ops pa wa = Inr (p, w) \<and>
        (\<exists>r p' w'. AtomicBasedPool_Get p w = Inr (r, p', w')) \<and>
        (index p \<le> 0 \<longrightarrow>
           AtomicBasedPool_Get p w =
             Inr (fst (AtomicBasedPool.allocator p w), p, snd (AtomicBasedPool.allocator p w))))) \<and>
   (\<exists>r p' w'. ChannelBasedPool_Get pc w = Inr (r, p', w')) \<and>
   (queue (ChannelBasedPool.objects pc) = [] \<longrightarrow>
      ChannelBasedPool_Get pc w =
        Inr (fst (ChannelBasedPool.allocator pc w), pc, snd (ChannelBasedPool.allocator pc w)))"
  using MutexRingBufferPool_Get_reachable[of c alloc clean w0 pm wm ops]
    RWMutexRingBufferPool_Get_reachable[of c alloc clean w0 pr wr ops]
    MutexBasedPool_Get_reachable[of c alloc clean w0 ps ws ops]
    AtomicBasedPool_Get_reachable[of c alloc clean w0 pa wa ops]
    ChannelBasedPool_Get_total[of pc w]
  by blast

theorem Get_never_fails_witness:
  "NewMutexRingBufferPool 1 testAllocator testCleaner [] =
     Inr (\<lparr>MutexRingBufferPool.ringBuffer =
          \<lparr>buffer = [Ptr 0], head = 0, tail = 0, size_rb = 1, RingBuffer.capacity = 1\<rparr>,
        MutexRingBufferPool.allocator = testAllocator, MutexRingBufferPool.cleaner = testCleaner\<rparr>,
      [\<lparr>ID = 0, Data = ''test'', shardIndex = - 1\<rparr>]) \<and>
   run_ops MutexRingBufferPool_Get MutexRingBufferPool_Put [DoGet]
       \<lparr>MutexRingBufferPool.ringBuffer =
          \<lparr>buffer = [Ptr 0], head = 0, tail = 0, size_rb = 1, RingBuffer.capacity = 1\<rparr>,
        MutexRingBufferPool.allocator = testAllocator, MutexRingBufferPool.cleaner = testCleaner\<rparr>
      [\<lparr>ID = 0, Data = ''test'', shardIndex = - 1\<rparr>] =
     Inr (\<lparr>MutexRingBufferPool.ringBuffer =
          \<lparr>buffer = [Ptr 0], head = 0, tail = 0, size_rb = 0, RingBuffer.capacity = 1\<rparr>,
        MutexRingBufferPool.allocator = testAllocator, MutexRingBufferPool.cleaner = testCleaner\<rparr>,
      [\<lparr>ID = 0, Data = ''test'', shardIndex = - 1\<rparr>]) \<and>
   MutexRingBufferPool_Get
       \<lparr>MutexRingBufferPool.ringBuffer =
          \<lparr>buffer = [Ptr 0], head = 0, tail = 0, size_rb = 0, RingBuffer.capacity = 1\<rparr>,
        MutexRingBufferPool.allocator = testAllocator, MutexRingBufferPool.cleaner = testCleaner\<rparr>
      [\<lparr>ID = 0, Data = ''test'', shardIndex = - 1\<rparr>] =
     Inr (Ptr 1,
       \<lparr>MutexRingBufferPool.ringBuffer =
          \<lparr>buffer = [Ptr 0], head = 0, tail = 0, size_rb = 0, RingBuffer.capacity = 1\<rparr>,
        MutexRingBufferPool.allocator = testAllocator, MutexRingBufferPool.cleaner = testCleaner\<rparr>,
      [\<lparr>ID = 0, Data = ''test'', shardIndex = - 1\<rparr>,
       \<lparr>ID = 0, Data = ''test'', shardIndex = - 1\<rparr>]) \<and>
   NewRWMutexRingBufferPool 1 testAllocator testCleaner [] =
     Inr (\<lparr>RWMutexRingBufferPool.ringBuffer =
          \<lparr>buffer = [Ptr 0], head = 0, tail = 0, size_rb = 1, RingBuffer.capacity = 1\<rparr>,
        RWMutexRingBufferPool.allocator = testAllocator,
          RWMutexRingBufferPool.cleaner = testCleaner\<rparr>,
      [\<lparr>ID = 0, Data = ''test'', shardIndex = - 1\<rparr>]) \<and>
   run_ops RWMutexRingBufferPool_Get RWMutexRingBufferPool_Put [DoGet]
       \<lparr>RWMutexRingBufferPool.ringBuffer =
          \<lparr>buffer = [Ptr 0], head = 0, tail = 0, size_rb = 1, RingBuffer.capacity = 1\<rparr>,
        RWMutexRingBufferPool.allocator = testAllocator,
          RWMutexRingBufferPool.cleaner = testCleaner\<rparr>
      [\<lparr>ID = 0, Data = ''test'', shardIndex = - 1\<rparr>] =
     Inr (\<lparr>RWMutexRingBufferPool.ringBuffer =
          \<lparr>buffer = [Ptr 0], head = 0, tail = 0, size_rb = 0, RingBuffer.capacity = 1\<rparr>,
        RWMutexRingBufferPool.allocator = testAllocator,
          RWMutexRingBufferPool.cleaner = testCleaner\<rparr>,
      [\<lparr>ID = 0, Data = ''test'', shardIndex = - 1\<rparr>]) \<and>
   RWMutexRingBufferPool_Get
       \<lparr>RWMutexRingBufferPool.ringBuffer =
          \<lparr>buffer = [Ptr 0], head = 0, tail = 0, size_rb = 0, RingBuffer.capacity = 1\<rparr>,
        RWMutexRingBufferPool.allocator = testAllocator,
          RWMutexRingBufferPool.cleaner = testCleaner\<rparr>
      [\<lparr>ID = 0, Data = ''test'', shardIndex = - 1\<rparr>] =
     Inr (Ptr 1,
       \<lparr>RWMutexRingBufferPool.ringBuffer =
          \<lparr>buffer = [Ptr 0], head = 0, tail = 0, size_rb = 0, RingBuffer.capacity = 1\<rparr>,
        RWMutexRingBufferPool.allocator = testAllocator,
          RWMutexRingBufferPool.cleaner = testCleaner\<rparr>,
      [\<lparr>ID = 0, Data = ''test'', shardIndex = - 1\<rparr>,
       \<lparr>ID = 0, Data = ''test'', shardIndex = - 1\<rparr>]) \<and>
   NewMutexBasedPool 1 testAllocator testCleaner [] =
     Inr (\<lparr>MutexBasedPool.objects = \<lparr>elems = [Ptr 0], slice_cap = 1\<rparr>,
        MutexBasedPool.allocator = testAllocator, MutexBasedPool.cleaner = testCleaner\<rparr>,
      [\<lparr>ID = 0, Data = ''test'', shardIndex = - 1\<rparr>]) \<and>
   run_ops MutexBasedPool_Get MutexBasedPool_Put [DoGet]
       \<lparr>MutexBasedPool.objects = \<lparr>elems = [Ptr 0], slice_cap = 1\<rparr>,
        MutexBasedPool.allocator = testAllocator, MutexBasedPool.cleaner = testCleaner\<rparr>
      [\<lparr>ID = 0, Data = ''test'', shardIndex = - 1\<rparr>] =
     Inr (\<lparr>MutexBasedPool.objects = \<lparr>elems = [], slice_cap = 1\<rparr>,
        MutexBasedPool.allocator = testAllocator, MutexBasedPool.cleaner = testCleaner\<rparr>,
      [\<lparr>ID = 0, Data = ''test'', shardIndex = - 1\<rparr>]) \<and>
   MutexBasedPool_Get
       \<lparr>MutexBasedPool.objects = \<lparr>elems = [], slice_cap = 1\<rparr>,
        MutexBasedPool.allocator = testAllocator, MutexBasedPool.cleaner = testCleaner\<rparr>
      [\<lparr>ID = 0, Data = ''test'', shardIndex = - 1\<rparr>] =
     Inr (Ptr 1,
       \<lparr>MutexBasedPool.objects = \<lparr>elems = [], slice_cap = 1\<rparr>,
        MutexBasedPool.allocator = testAllocator, MutexBasedPool.cleaner = testCleaner\<rparr>,
      [\<lparr>ID = 0, Data = ''test'', shardIndex = - 1\<rparr>,
       \<lparr>ID = 0, Data = ''test'', shardIndex = - 1\<rparr>]) \<and>
   NewAtomicBasedPool 1 testAllocator testCleaner [] =
     Inr (\<lparr>AtomicBasedPool.objects = [Ptr 0], index = 1, AtomicBasedPool.capacity = 1,
        AtomicBasedPool.allocator = testAllocator, AtomicBasedPool.cleaner = testCleaner\<rparr>,
      [\<lparr>ID = 0, Data = ''test'', shardIndex = - 1\<rparr>]) \<and>
   run_ops AtomicBasedPool_Get AtomicBasedPool_Put [DoGet]
       \<lparr>AtomicBasedPool.objects = [Ptr 0], index = 1, AtomicBasedPool.capacity = 1,
        AtomicBasedPool.allocator = testAllocator, AtomicBasedPool.cleaner = testCleaner\<rparr>
      [\<lparr>ID = 0, Data = ''test'', shardIndex = - 1\<rparr>] =
     Inr (\<lparr>AtomicBasedPool.objects = [Ptr 0], index = 0, AtomicBasedPool.capacity = 1,
        AtomicBasedPool.allocator = testAllocator, AtomicBasedPool.cleaner = testCleaner\<rparr>,
      [\<lparr>ID = 0, Data = ''test'', shardIndex = - 1\<rparr>]) \<and>
   AtomicBasedPool_Get
       \<lparr>AtomicBasedPool.objects = [Ptr 0], index = 0, AtomicBasedPool.capacity = 1,
        AtomicBasedPool.allocator = testAllocator, AtomicBasedPool.cleaner = testCleaner\<rparr>
      [\<lparr>ID = 0, Data = ''test'', shardIndex = - 1\<rparr>] =
     Inr (Ptr 1,
       \<lparr>AtomicBasedPool.objects = [Ptr 0], index = 0, AtomicBasedPool.capacity = 1,
        AtomicBasedPool.allocator = testAllocator, AtomicBasedPool.cleaner = testCleaner\<rparr>,
      [\<lparr>ID = 0, Data = ''test'', shardIndex = - 1\<rparr>,
       \<lparr>ID = 0, Data = ''test'', shardIndex = - 1\<rparr>]) \<and>
   ChannelBasedPool_Get
       \<lparr>ChannelBasedPool.objects = \<lparr>queue = [], chan_cap = 1\<rparr>,
        ChannelBasedPool.allocator = testAllocator, ChannelBasedPool.cleaner = testCleaner\<rparr>
      [\<lparr>ID = 0, Data = ''test'', shardIndex = - 1\<rparr>] =
     Inr (Ptr 1,
       \<lparr>ChannelBasedPool.objects = \<lparr>queue = [], chan_cap = 1\<rparr>,
        ChannelBasedPool.allocator = testAllocator, ChannelBasedPool.cleaner = testCleaner\<rparr>,
      [\<lparr>ID = 0, Data = ''test'', shardIndex = - 1\<rparr>,
       \<lparr>ID = 0, Data = ''test'', shardIndex = - 1\<rparr>])"
  using Get_never_fails[of 1 testAllocator testCleaner "[]"
    "\<lparr>MutexRingBufferPool.ringBuffer = \<lparr>buffer = [Ptr 0], head = 0, tail = 0, size_rb = 1,
      RingBuffer.capacity = 1\<rparr>, MutexRingBufferPool.allocator = testAllocator,
      MutexRingBufferPool.cleaner = testCleaner\<rparr>"
    "[\<lparr>ID = 0, Data = ''test'', shardIndex = - 1\<rparr>]"
    "[DoGet]"
    "\<lparr>RWMutexRingBufferPool.ringBuffer = \<lparr>buffer = [Ptr 0], head = 0, tail = 0, size_rb = 1,
      RingBuffer.capacity = 1\<rparr>, RWMutexRingBufferPool.allocator = testAllocator,
      RWMutexRingBufferPool.cleaner = testCleaner\<rparr>"
    "[\<lparr>ID = 0, Data = ''test'', shardIndex = - 1\<rparr>]"
    "\<lparr>MutexBasedPool.objects = \<lparr>elems = [Ptr 0], slice_cap = 1\<rparr>,
      MutexBasedPool.allocator = testAllocator, MutexBasedPool.cleaner = testCleaner\<rparr>"
    "[\<lparr>ID = 0, Data = ''test'', shardIndex = - 1\<rparr>]"
    "\<lparr>AtomicBasedPool.objects = [Ptr 0], index = 1, AtomicBasedPool.capacity = 1,
      AtomicBasedPool.allocator = testAllocator, AtomicBasedPool.cleaner = testCleaner\<rparr>"
    "[\<lparr>ID = 0, Data = ''test'', shardIndex = - 1\<rparr>]"
    "\<lparr>ChannelBasedPool.objects = \<lparr>queue = [], chan_cap = 1\<rparr>,
      ChannelBasedPool.allocator = testAllocator, ChannelBasedPool.cleaner = testCleaner\<rparr>"
    "[\<lparr>ID = 0, Data = ''test'', shardIndex = - 1\<rparr>]"]
  by (simp add: eval_defs)

section \<open>Claims about round trips\<close>

text \<open>
  Claim C7. For \<^verbatim>\<open>MutexRingBufferPool\<close>, \<^verbatim>\<open>RWMutexRingBufferPool\<close> and
  \<^verbatim>\<open>AtomicBasedPool\<close>: on a pool its constructor returns, any number \<open>n\<close> of
  repetitions of \<^verbatim>\<open>pool.Put(pool.Get())\<close> runs without a panic and leaves the number of
  objects in the pool (the count of the ring buffer, the fill index of the lock-free
  pool) as it was after construction.
\<close>

theorem round_trip_keeps_occupancy:
  "(NewMutexRingBufferPool c alloc clean w0 = Inr (pm, wm) \<longrightarrow>
     (\<exists>p w. repeat_Put_Get MutexRingBufferPool_Get MutexRingBufferPool_Put n pm wm = Inr (p, w) \<and>
        size_rb (MutexRingBufferPool.ringBuffer p) = size_rb (MutexRingBufferPool.ringBuffer pm))) \<and>
   (NewRWMutexRingBufferPool c alloc clean w0 = Inr (pr, wr) \<longrightarrow>
     (\<exists>p w. repeat_Put_Get RWMutexRingBufferPool_Get RWMutexRingBufferPool_Put n pr wr = Inr (p,
       w) \<and>
        size_rb (RWMutexRingBufferPool.ringBuffer p) = size_rb (RWMutexRingBufferPool.ringBuffer pr))) \<and>
   (NewAtomicBasedPool c alloc clean w0 = Inr (pa, wa) \<longrightarrow>
     (\<exists>p w. repeat_Put_Get AtomicBasedPool_Get AtomicBasedPool_Put n pa wa = Inr (p, w) \<and>
        index p = index pa))"
  using MutexRingBufferPool_round_trips[of c alloc clean w0 pm wm n]
    RWMutexRingBufferPool_round_trips[of c alloc clean w0 pr wr n]
    AtomicBasedPool_round_trips[of c alloc clean w0 pa wa n]
  by blast

theorem round_trip_keeps_occupancy_witness:
  "NewMutexRingBufferPool 2 testAllocator testCleaner [] =
     Inr (\<lparr>MutexRingBufferPool.ringBuffer =
          \<lparr>buffer = [Ptr 0, Ptr 1], head = 0, tail = 0, size_rb = 2, RingBuffer.capacity = 2\<rparr>,
        MutexRingBufferPool.allocator = testAllocator, MutexRingBufferPool.cleaner = testCleaner\<rparr>,
      [\<lparr>ID = 0, Data = ''test'', shardIndex = - 1\<rparr>,
       \<lparr>ID = 0, Data = ''test'', shardIndex = - 1\<rparr>]) \<and>
   repeat_Put_Get MutexRingBufferPool_Get MutexRingBufferPool_Put 3
       \<lparr>MutexRingBufferPool.ringBuffer =
          \<lparr>buffer = [Ptr 0, Ptr 1], head = 0, tail = 0, size_rb = 2, RingBuffer.capacity = 2\<rparr>,
        MutexRingBufferPool.allocator = testAllocator, MutexRingBufferPool.cleaner = testCleaner\<rparr>
      [\<lparr>ID = 0, Data = ''test'', shardIndex = - 1\<rparr>,
       \<lparr>ID = 0, Data = ''test'', shardIndex = - 1\<rparr>] =
     Inr (\<lparr>MutexRingBufferPool.ringBuffer =
          \<lparr>buffer = [Ptr 0, Ptr 1], head = 1, tail = 1, size_rb = 2, RingBuffer.capacity = 2\<rparr>,
        MutexRingBufferPool.allocator = testAllocator, MutexRingBufferPool.cleaner = testCleaner\<rparr>,
      [\<lparr>ID = 0, Data = ''test'', shardIndex = - 1\<rparr>,
       \<lparr>ID = 0, Data = ''test'', shardIndex = - 1\<rparr>]) \<and>
   NewRWMutexRingBufferPool 2 testAllocator testCleaner [] =
     Inr (\<lparr>RWMutexRingBufferPool.ringBuffer =
          \<lparr>buffer = [Ptr 0, Ptr 1], head = 0, tail = 0, size_rb = 2, RingBuffer.capacity = 2\<rparr>,
        RWMutexRingBufferPool.allocator = testAllocator,
          RWMutexRingBufferPool.cleaner = testCleaner\<rparr>,
      [\<lparr>ID = 0, Data = ''test'', shardIndex = - 1\<rparr>,
       \<lparr>ID = 0, Data = ''test'', shardIndex = - 1\<rparr>]) \<and>
   repeat_Put_Get RWMutexRingBufferPool_Get RWMutexRingBufferPool_Put 3
       \<lparr>RWMutexRingBufferPool.ringBuffer =
          \<lparr>buffer = [Ptr 0, Ptr 1], head = 0, tail = 0, size_rb = 2, RingBuffer.capacity = 2\<rparr>,
        RWMutexRingBufferPool.allocator = testAllocator,
          RWMutexRingBufferPool.cleaner = testCleaner\<rparr>
      [\<lparr>ID = 0, Data = ''test'', shardIndex = - 1\<rparr>,
       \<lparr>ID = 0, Data = ''test'', shardIndex = - 1\<rparr>] =
     Inr (\<lparr>RWMutexRingBufferPool.ringBuffer =
          \<lparr>buffer = [Ptr 0, Ptr 1], head = 1, tail = 1, size_rb = 2, RingBuffer.capacity = 2\<rparr>,
        RWMutexRingBufferPool.allocator = testAllocator,
          RWMutexRingBufferPool.cleaner = testCleaner\<rparr>,
      [\<lparr>ID = 0, Data = ''test'', shardIndex = - 1\<rparr>,
       \<lparr>ID = 0, Data = ''test'', shardIndex = - 1\<rparr>]) \<and>
   NewAtomicBasedPool 2 testAllocator testCleaner [] =
     Inr (\<lparr>AtomicBasedPool.objects = [Ptr 0, Ptr 1], index = 2, AtomicBasedPool.capacity = 2,
        AtomicBasedPool.allocator = testAllocator, AtomicBasedPool.cleaner = testCleaner\<rparr>,
      [\<lparr>ID = 0, Data = ''test'', shardIndex = - 1\<rparr>,
       \<lparr>ID = 0, Data = ''test'', shardIndex = - 1\<rparr>]) \<and>
   repeat_Put_Get AtomicBasedPool_Get AtomicBasedPool_Put 3
       \<lparr>AtomicBasedPool.objects = [Ptr 0, Ptr 1], index = 2, AtomicBasedPool.capacity = 2,
        AtomicBasedPool.allocator = testAllocator, AtomicBasedPool.cleaner = testCleaner\<rparr>
      [\<lparr>ID = 0, Data = ''test'', shardIndex = - 1\<rparr>,
       \<lparr>ID = 0, Data = ''test'', shardIndex = - 1\<rparr>] =
     Inr (\<lparr>AtomicBasedPool.objects = [Ptr 0, Ptr 1], index = 2, AtomicBasedPool.capacity = 2,
        AtomicBasedPool.allocator = testAllocator, AtomicBasedPool.cleaner = testCleaner\<rparr>,
      [\<lparr>ID = 0, Data = ''test'', shardIndex = - 1\<rparr>,
       \<lparr>ID = 0, Data = ''test'', shardIndex = - 1\<rparr>])"
  using round_trip_keeps_occupancy[of 2 testAllocator testCleaner "[]"
    "\<lparr>MutexRingBufferPool.ringBuffer = \<lparr>buffer = [Ptr 0, Ptr 1], head = 0, tail = 0, size_rb = 2,
      RingBuffer.capacity = 2\<rparr>, MutexRingBufferPool.allocator = testAllocator,
      MutexRingBufferPool.cleaner = testCleaner\<rparr>"
    "[\<lparr>ID = 0, Data = ''test'', shardIndex = - 1\<rparr>, \<lparr>ID = 0, Data = ''test'', shardIndex = - 1\<rparr>]"
    3
    "\<lparr>RWMutexRingBufferPool.ringBuffer = \<lparr>buffer = [Ptr 0, Ptr 1], head = 0, tail = 0,
      size_rb = 2, RingBuffer.capacity = 2\<rparr>, RWMutexRingBufferPool.allocator = testAllocator,
      RWMutexRingBufferPool.cleaner = testCleaner\<rparr>"
    "[\<lparr>ID = 0, Data = ''test'', shardIndex = - 1\<rparr>, \<lparr>ID = 0, Data = ''test'', shardIndex = - 1\<rparr>]"
    "\<lparr>AtomicBasedPool.objects = [Ptr 0, Ptr 1], index = 2, AtomicBasedPool.capacity = 2,
      AtomicBasedPool.allocator = testAllocator, AtomicBasedPool.cleaner = testCleaner\<rparr>"
    "[\<lparr>ID = 0, Data = ''test'', shardIndex = - 1\<rparr>, \<lparr>ID = 0, Data = ''test'', shardIndex = - 1\<rparr>]"]
  by (simp add: eval_defs numeral_2_eq_2 numeral_3_eq_3)

section \<open>Claims about draining a fresh pool\<close>

text \<open>
  Claim C8, as the code has it. The claim as stated fails for the sharded pools: a
  sharded pool of capacity 4 with 2 segments pre-populates 2 objects per segment, and
  4 consecutive \<^verbatim>\<open>Get\<close> calls from one processor drain one segment and then allocate
  twice.
\<close>

theorem sharded_Gets_allocate_counterexample:
  "NewShardedAtomicBasedPool 8 4 2 testAllocator testCleaner [] =
     Inr (\<lparr>ShardedAtomicBasedPool.shards =
            [\<lparr>AtomicBasedPool.objects = [Ptr 0, Ptr 1], index = 2, AtomicBasedPool.capacity = 2,
        AtomicBasedPool.allocator = testAllocator, AtomicBasedPool.cleaner = testCleaner\<rparr>,
             \<lparr>AtomicBasedPool.objects = [Ptr 2, Ptr 3], index = 2, AtomicBasedPool.capacity = 2,
        AtomicBasedPool.allocator = testAllocator, AtomicBasedPool.cleaner = testCleaner\<rparr>]\<rparr>,
      [\<lparr>ID = 0, Data = ''test'', shardIndex = - 1\<rparr>,
       \<lparr>ID = 0, Data = ''test'', shardIndex = - 1\<rparr>,
       \<lparr>ID = 0, Data = ''test'', shardIndex = - 1\<rparr>,
       \<lparr>ID = 0, Data = ''test'', shardIndex = - 1\<rparr>]) \<and>
   repeat_Get (ShardedAtomicBasedPool_Get 0) 4
     \<lparr>ShardedAtomicBasedPool.shards =
        [\<lparr>AtomicBasedPool.objects = [Ptr 0, Ptr 1], index = 2, AtomicBasedPool.capacity = 2,
        AtomicBasedPool.allocator = testAllocator, AtomicBasedPool.cleaner = testCleaner\<rparr>,
         \<lparr>AtomicBasedPool.objects = [Ptr 2, Ptr 3], index = 2, AtomicBasedPool.capacity = 2,
        AtomicBasedPool.allocator = testAllocator, AtomicBasedPool.cleaner = testCleaner\<rparr>]\<rparr>
      [\<lparr>ID = 0, Data = ''test'', shardIndex = - 1\<rparr>,
       \<lparr>ID = 0, Data = ''test'', shardIndex = - 1\<rparr>,
       \<lparr>ID = 0, Data = ''test'', shardIndex = - 1\<rparr>,
       \<lparr>ID = 0, Data = ''test'', shardIndex = - 1\<rparr>] =
     Inr ([Ptr 1, Ptr 0, Ptr 4, Ptr 5],
      \<lparr>ShardedAtomicBasedPool.shards =
        [\<lparr>AtomicBasedPool.objects = [Ptr 0, Ptr 1], index = 0, AtomicBasedPool.capacity = 2,
        AtomicBasedPool.allocator = testAllocator, AtomicBasedPool.cleaner = testCleaner\<rparr>,
         \<lparr>AtomicBasedPool.objects = [Ptr 2, Ptr 3], index = 2, AtomicBasedPool.capacity = 2,
        AtomicBasedPool.allocator = testAllocator, AtomicBasedPool.cleaner = testCleaner\<rparr>]\<rparr>,
      [\<lparr>ID = 0, Data = ''test'', shardIndex = 0\<rparr>,
       \<lparr>ID = 0, Data = ''test'', shardIndex = 0\<rparr>,
       \<lparr>ID = 0, Data = ''test'', shardIndex = - 1\<rparr>,
       \<lparr>ID = 0, Data = ''test'', shardIndex = - 1\<rparr>,
       \<lparr>ID = 0, Data = ''test'', shardIndex = 0\<rparr>,
       \<lparr>ID = 0, Data = ''test'', shardIndex = 0\<rparr>])"
  by (simp add: eval_defs eval_sharded_defs numeral_2_eq_2 eval_nat_numeral)

text \<open>
  Claim C8, amended. Take an allocator that returns a new object at each call.

  For each single-segment pool (\<^verbatim>\<open>MutexRingBufferPool\<close>, \<^verbatim>\<open>RWMutexRingBufferPool\<close>,
  \<^verbatim>\<open>RingBufferCondPool\<close>, \<^verbatim>\<open>ChannelBasedPool\<close>, \<^verbatim>\<open>MutexBasedPool\<close>,
  \<^verbatim>\<open>CondBasedPool\<close>, \<^verbatim>\<open>AtomicBasedPool\<close>) constructed with capacity \<open>c\<close>:
  construction allocates \<open>c\<close> objects, and \<open>c\<close> consecutive \<^verbatim>\<open>Get\<close> calls on the fresh
  pool return \<open>c\<close> pairwise distinct objects, exactly those allocated at construction,
  and leave the heap as it was: none of the calls allocates.

  For each sharded pool (\<^verbatim>\<open>ShardedMutexRingBufferPool\<close>, \<^verbatim>\<open>ShardedChannelBasedPool\<close>,
  \<^verbatim>\<open>ShardedAtomicBasedPool\<close>, \<^verbatim>\<open>ShardedCondBasedPool\<close>,
  \<^verbatim>\<open>ShardedRingBufferCondPool\<close>, \<^verbatim>\<open>ShardedGoroutineIDPool\<close>) constructed with capacity
  \<open>c\<close> and \<open>m\<close> segments (\<open>m\<close> is \<open>numShards\<close> when that is positive and the value of
  \<^verbatim>\<open>runtime.GOMAXPROCS(0)\<close> otherwise), let \<open>k = max (c / m) 1\<close>: construction allocates
  \<open>m * k\<close> objects and pre-populates segment \<open>i\<close> with the \<open>k\<close> objects allocated from
  the \<open>(i * k)\<close>-th on, so every segment holds \<open>k\<close> objects and no object is in two
  segments. \<open>k\<close> consecutive \<^verbatim>\<open>Get\<close> calls on the fresh pool that select one segment
  return the \<open>k\<close> pairwise distinct objects of that segment, allocate nothing, and leave
  every other segment as it was. The segment selected is that of the processor index
  \<open>pid\<close> that \<^verbatim>\<open>runtimeProcPin()\<close> returns, \<open>0 \<le> pid < m\<close>; for
  \<^verbatim>\<open>ShardedGoroutineIDPool\<close> it is \<^verbatim>\<open>int(addr>>12) & (numShards - 1)\<close> for the
  stack address \<open>addr\<close>, an index of a segment. The next \<^verbatim>\<open>Get\<close> that selects the same segment finds it
  empty, although every other segment still holds its \<open>k\<close> objects: it allocates a new
  object, except in \<^verbatim>\<open>ShardedCondBasedPool\<close> and \<^verbatim>\<open>ShardedRingBufferCondPool\<close>, where
  it waits for a \<^verbatim>\<open>Put\<close>.
\<close>

theorem fresh_pool_Gets_distinct:
  assumes "allocates_new alloc" "m = (if n \<le> 0 then g else n)" "k = max (c sdiv m) 1"
    "sid = int (drop_bit 12 addr) AND (m - 1)"
  shows
  "(NewMutexRingBufferPool c alloc clean wi = Inr (pm, wm) \<longrightarrow>
     length wm = length wi + nat c \<and>
     (\<exists>objs p'. repeat_Get MutexRingBufferPool_Get (nat c) pm wm = Inr (objs, p', wm) \<and>
        length objs = nat c \<and> distinct objs \<and>
        set objs = set (fresh_ptrs (length wi) (nat c)))) \<and>
   (NewRWMutexRingBufferPool c alloc clean wi = Inr (pr, wr) \<longrightarrow>
     length wr = length wi + nat c \<and>
     (\<exists>objs p'. repeat_Get RWMutexRingBufferPool_Get (nat c) pr wr = Inr (objs, p', wr) \<and>
        length objs = nat c \<and> distinct objs \<and>
        set objs = set (fresh_ptrs (length wi) (nat c)))) \<and>
   (NewRingBufferCondPool c alloc clean wi = Inr (pq, wq) \<longrightarrow>
     length wq = length wi + nat c \<and>
     (\<exists>objs p'. repeat_Get RingBufferCondPool_Get (nat c) pq wq = Inr (objs, p', wq) \<and>
        length objs = nat c \<and> distinct objs \<and>
        set objs = set (fresh_ptrs (length wi) (nat c)))) \<and>
   (NewChannelBasedPool c alloc clean wi = Inr (pc, wc) \<longrightarrow>
     length wc = length wi + nat c \<and>
     (\<exists>objs p'. repeat_Get ChannelBasedPool_Get (nat c) pc wc = Inr (objs, p', wc) \<and>
        length objs = nat c \<and> distinct objs \<and>
        set objs = set (fresh_ptrs (length wi) (nat c)))) \<and>
   (NewMutexBasedPool c alloc clean wi = Inr (ps, ws) \<longrightarrow>
     length ws = length wi + nat c \<and>
     (\<exists>objs p'. repeat_Get MutexBasedPool_Get (nat c) ps ws = Inr (objs, p', ws) \<and>
        length objs = nat c \<and> distinct objs \<and>
        set objs = set (fresh_ptrs (length wi) (nat c)))) \<and>
   (NewCondBasedPool c alloc clean wi = Inr (pd, wd) \<longrightarrow>
     length wd = length wi + nat c \<and>
     (\<exists>objs p'. repeat_Get CondBasedPool_Get (nat c) pd wd = Inr (objs, p', wd) \<and>
        length objs = nat c \<and> distinct objs \<and>
        set objs = set (fresh_ptrs (length wi) (nat c)))) \<and>
   (NewAtomicBasedPool c alloc clean wi = Inr (pa, wa) \<longrightarrow>
     length wa = length wi + nat c \<and>
     (\<exists>objs p'. repeat_Get AtomicBasedPool_Get (nat c) pa wa = Inr (objs, p', wa) \<and>
        length objs = nat c \<and> distinct objs \<and>
        set objs = set (fresh_ptrs (length wi) (nat c)))) \<and>
   (NewShardedMutexRingBufferPool g c n alloc clean wi = Inr (sm, vm) \<longrightarrow>
     length vm = length wi + nat m * nat k \<and>
     length (ShardedMutexRingBufferPool.shards sm) = nat m \<and>
     (\<forall>i<nat m. rb_contents (MutexRingBufferPool.ringBuffer (ShardedMutexRingBufferPool.shards sm ! i)) =
        fresh_ptrs (length wi + i * nat k) (nat k)) \<and>
     (0 \<le> pid \<and> pid < m \<longrightarrow>
       (\<exists>objs p' w'. repeat_Get (ShardedMutexRingBufferPool_Get pid) (nat k) sm vm = Inr (objs, p', w') \<and>
          length w' = length vm \<and> length objs = nat k \<and> distinct objs \<and>
          set objs = set (fresh_ptrs (length wi + nat pid * nat k) (nat k)) \<and>
          length (ShardedMutexRingBufferPool.shards p') = nat m \<and>
          (\<forall>i<nat m. i \<noteq> nat pid \<longrightarrow> ShardedMutexRingBufferPool.shards p' ! i = ShardedMutexRingBufferPool.shards sm ! i) \<and>
          (\<exists>p'' w''. ShardedMutexRingBufferPool_Get pid p' w' = Inr (Ptr (length w'), p'', w'') \<and>
             length w'' = Suc (length w'))))) \<and>
   (NewShardedChannelBasedPool g c n alloc clean wi = Inr (sc, vc) \<longrightarrow>
     length vc = length wi + nat m * nat k \<and>
     length (ShardedChannelBasedPool.shards sc) = nat m \<and>
     (\<forall>i<nat m. queue (ChannelBasedPool.objects (ShardedChannelBasedPool.shards sc ! i)) =
        fresh_ptrs (length wi + i * nat k) (nat k)) \<and>
     (0 \<le> pid \<and> pid < m \<longrightarrow>
       (\<exists>objs p' w'. repeat_Get (ShardedChannelBasedPool_Get pid) (nat k) sc vc = Inr (objs, p', w') \<and>
          length w' = length vc \<and> length objs = nat k \<and> distinct objs \<and>
          set objs = set (fresh_ptrs (length wi + nat pid * nat k) (nat k)) \<and>
          length (ShardedChannelBasedPool.shards p') = nat m \<and>
          (\<forall>i<nat m. i \<noteq> nat pid \<longrightarrow> ShardedChannelBasedPool.shards p' ! i = ShardedChannelBasedPool.shards sc ! i) \<and>
          (\<exists>p'' w''. ShardedChannelBasedPool_Get pid p' w' = Inr (Ptr (length w'), p'', w'') \<and>
             length w'' = Suc (length w'))))) \<and>
   (NewShardedAtomicBasedPool g c n alloc clean wi = Inr (sa, va) \<longrightarrow>
     length va = length wi + nat m * nat k \<and>
     length (ShardedAtomicBasedPool.shards sa) = nat m \<and>
     (\<forall>i<nat m. atomic_contents (ShardedAtomicBasedPool.shards sa ! i) =
        fresh_ptrs (length wi + i * nat k) (nat k)) \<and>
     (0 \<le> pid \<and> pid < m \<longrightarrow>
       (\<exists>objs p' w'. repeat_Get (ShardedAtomicBasedPool_Get pid) (nat k) sa va = Inr (objs, p', w') \<and>
          length w' = length va \<and> length objs = nat k \<and> distinct objs \<and>
          set objs = set (fresh_ptrs (length wi + nat pid * nat k) (nat k)) \<and>
          length (ShardedAtomicBasedPool.shards p') = nat m \<and>
          (\<forall>i<nat m. i \<noteq> nat pid \<longrightarrow> ShardedAtomicBasedPool.shards p' ! i = ShardedAtomicBasedPool.shards sa ! i) \<and>
          (\<exists>p'' w''. ShardedAtomicBasedPool_Get pid p' w' = Inr (Ptr (length w'), p'', w'') \<and>
             length w'' = Suc (length w'))))) \<and>
   (NewShardedCondBasedPool g c n alloc clean wi = Inr (sd, vd) \<longrightarrow>
     length vd = length wi + nat m * nat k \<and>
     length (ShardedCondBasedPool.shards sd) = nat m \<and>
     (\<forall>i<nat m. rb_contents (RingBufferCondPool.ringBuffer (ShardedCondBasedPool.shards sd ! i)) =
        fresh_ptrs (length wi + i * nat k) (nat k)) \<and>
     (0 \<le> pid \<and> pid < m \<longrightarrow>
       (\<exists>objs p' w'. repeat_Get (ShardedCondBasedPool_Get pid) (nat k) sd vd = Inr (objs, p', w') \<and>
          length w' = length vd \<and> length objs = nat k \<and> distinct objs \<and>
          set objs = set (fresh_ptrs (length wi + nat pid * nat k) (nat k)) \<and>
          length (ShardedCondBasedPool.shards p') = nat m \<and>
          (\<forall>i<nat m. i \<noteq> nat pid \<longrightarrow> ShardedCondBasedPool.shards p' ! i = ShardedCondBasedPool.shards sd ! i) \<and>
          ShardedCondBasedPool_Get pid p' w' = Inl Blocked))) \<and>
   (NewShardedRingBufferCondPool g c n alloc clean wi = Inr (sq, vq) \<longrightarrow>
     length vq = length wi + nat m * nat k \<and>
     length (ShardedRingBufferCondPool.shards sq) = nat m \<and>
     (\<forall>i<nat m. rb_contents (RingBufferCondPool.ringBuffer (ShardedRingBufferCondPool.shards sq ! i)) =
        fresh_ptrs (length wi + i * nat k) (nat k)) \<and>
     (0 \<le> pid \<and> pid < m \<longrightarrow>
       (\<exists>objs p' w'. repeat_Get (ShardedRingBufferCondPool_Get pid) (nat k) sq vq = Inr (objs, p', w') \<and>
          length w' = length vq \<and> length objs = nat k \<and> distinct objs \<and>
          set objs = set (fresh_ptrs (length wi + nat pid * nat k) (nat k)) \<and>
          length (ShardedRingBufferCondPool.shards p') = nat m \<and>
          (\<forall>i<nat m. i \<noteq> nat pid \<longrightarrow> ShardedRingBufferCondPool.shards p' ! i = ShardedRingBufferCondPool.shards sq ! i) \<and>
          ShardedRingBufferCondPool_Get pid p' w' = Inl Blocked))) \<and>
   (NewShardedGoroutineIDPool g c n alloc clean wi = Inr (sg, vg) \<longrightarrow>
     length vg = length wi + nat m * nat k \<and>
     length (ShardedGoroutineIDPool.shards sg) = nat m \<and>
     (\<forall>i<nat m. rb_contents (MutexRingBufferPool.ringBuffer (ShardedGoroutineIDPool.shards sg ! i)) =
        fresh_ptrs (length wi + i * nat k) (nat k)) \<and>
     0 \<le> sid \<and> sid < m \<and>
     (\<exists>objs p'. repeat_Get (ShardedGoroutineIDPool_Get addr) (nat k) sg vg = Inr (objs, p', vg) \<and>
        length objs = nat k \<and> distinct objs \<and>
        set objs = set (fresh_ptrs (length wi + nat sid * nat k) (nat k)) \<and>
        length (ShardedGoroutineIDPool.shards p') = nat m \<and>
        (\<forall>i<nat m. i \<noteq> nat sid \<longrightarrow>
           ShardedGoroutineIDPool.shards p' ! i = ShardedGoroutineIDPool.shards sg ! i) \<and>
        (\<exists>p'' w''. ShardedGoroutineIDPool_Get addr p' vg = Inr (Ptr (length vg), p'', w'') \<and>
           length w'' = Suc (length vg))))"
  by (intro conjI)
     (rule MutexRingBufferPool_drained[OF assms(1)]
        RWMutexRingBufferPool_drained[OF assms(1)]
        RingBufferCondPool_drained[OF assms(1)]
        ChannelBasedPool_drained[OF assms(1)]
        MutexBasedPool_drained[OF assms(1)]
        CondBasedPool_drained[OF assms(1)]
        AtomicBasedPool_drained[OF assms(1)]
        ShardedMutexRingBufferPool_drained[OF assms(1,2,3)]
        ShardedChannelBasedPool_drained[OF assms(1,2,3)]
        ShardedAtomicBasedPool_drained[OF assms(1,2,3)]
        ShardedCondBasedPool_drained[OF assms(1,2,3)]
        ShardedRingBufferCondPool_drained[OF assms(1,2,3)]
        ShardedGoroutineIDPool_drained[OF assms])+

theorem fresh_pool_Gets_distinct_witness:
  "allocates_new testAllocator \<and>
   (2::int) = (if (2::int) \<le> 0 then 8 else 2) \<and>
   (2::int) = max (4 sdiv 2) 1 \<and>
   (0::int) \<le> 1 \<and>
   (1::int) < 2 \<and>
   (1::int) = int (drop_bit 12 (4096::nat)) AND (2 - 1) \<and>
   NewMutexRingBufferPool 4 testAllocator testCleaner [] =
     Inr (\<lparr>MutexRingBufferPool.ringBuffer =
         \<lparr>buffer = [Ptr 0, Ptr 1, Ptr 2, Ptr 3], head = 0, tail = 0, size_rb = 4, RingBuffer.capacity = 4\<rparr>,
       MutexRingBufferPool.allocator = testAllocator, MutexRingBufferPool.cleaner = testCleaner\<rparr>,
      [\<lparr>ID = 0, Data = ''test'', shardIndex = - 1\<rparr>,
       \<lparr>ID = 0, Data = ''test'', shardIndex = - 1\<rparr>,
       \<lparr>ID = 0, Data = ''test'', shardIndex = - 1\<rparr>,
       \<lparr>ID = 0, Data = ''test'', shardIndex = - 1\<rparr>]) \<and>
   repeat_Get MutexRingBufferPool_Get 4
     (\<lparr>MutexRingBufferPool.ringBuffer =
         \<lparr>buffer = [Ptr 0, Ptr 1, Ptr 2, Ptr 3], head = 0, tail = 0, size_rb = 4, RingBuffer.capacity = 4\<rparr>,
       MutexRingBufferPool.allocator = testAllocator, MutexRingBufferPool.cleaner = testCleaner\<rparr>)
      [\<lparr>ID = 0, Data = ''test'', shardIndex = - 1\<rparr>,
       \<lparr>ID = 0, Data = ''test'', shardIndex = - 1\<rparr>,
       \<lparr>ID = 0, Data = ''test'', shardIndex = - 1\<rparr>,
       \<lparr>ID = 0, Data = ''test'', shardIndex = - 1\<rparr>] =
     Inr ([Ptr 0, Ptr 1, Ptr 2, Ptr 3],
      \<lparr>MutexRingBufferPool.ringBuffer =
         \<lparr>buffer = [Ptr 0, Ptr 1, Ptr 2, Ptr 3], head = 0, tail = 0, size_rb = 0, RingBuffer.capacity = 4\<rparr>,
       MutexRingBufferPool.allocator = testAllocator, MutexRingBufferPool.cleaner = testCleaner\<rparr>,
      [\<lparr>ID = 0, Data = ''test'', shardIndex = - 1\<rparr>,
       \<lparr>ID = 0, Data = ''test'', shardIndex = - 1\<rparr>,
       \<lparr>ID = 0, Data = ''test'', shardIndex = - 1\<rparr>,
       \<lparr>ID = 0, Data = ''test'', shardIndex = - 1\<rparr>]) \<and>
   NewRWMutexRingBufferPool 4 testAllocator testCleaner [] =
     Inr (\<lparr>RWMutexRingBufferPool.ringBuffer =
         \<lparr>buffer = [Ptr 0, Ptr 1, Ptr 2, Ptr 3], head = 0, tail = 0, size_rb = 4, RingBuffer.capacity = 4\<rparr>,
       RWMutexRingBufferPool.allocator = testAllocator, RWMutexRingBufferPool.cleaner = testCleaner\<rparr>,
      [\<lparr>ID = 0, Data = ''test'', shardIndex = - 1\<rparr>,
       \<lparr>ID = 0, Data = ''test'', shardIndex = - 1\<rparr>,
       \<lparr>ID = 0, Data = ''test'', shardIndex = - 1\<rparr>,
       \<lparr>ID = 0, Data = ''test'', shardIndex = - 1\<rparr>]) \<and>
   repeat_Get RWMutexRingBufferPool_Get 4
     (\<lparr>RWMutexRingBufferPool.ringBuffer =
         \<lparr>buffer = [Ptr 0, Ptr 1, Ptr 2, Ptr 3], head = 0, tail = 0, size_rb = 4, RingBuffer.capacity = 4\<rparr>,
       RWMutexRingBufferPool.allocator = testAllocator, RWMutexRingBufferPool.cleaner = testCleaner\<rparr>)
      [\<lparr>ID = 0, Data = ''test'', shardIndex = - 1\<rparr>,
       \<lparr>ID = 0, Data = ''test'', shardIndex = - 1\<rparr>,
       \<lparr>ID = 0, Data = ''test'', shardIndex = - 1\<rparr>,
       \<lparr>ID = 0, Data = ''test'', shardIndex = - 1\<rparr>] =
     Inr ([Ptr 0, Ptr 1, Ptr 2, Ptr 3],
      \<lparr>RWMutexRingBufferPool.ringBuffer =
         \<lparr>buffer = [Ptr 0, Ptr 1, Ptr 2, Ptr 3], head = 0, tail = 0, size_rb = 0, RingBuffer.capacity = 4\<rparr>,
       RWMutexRingBufferPool.allocator = testAllocator, RWMutexRingBufferPool.cleaner = testCleaner\<rparr>,
      [\<lparr>ID = 0, Data = ''test'', shardIndex = - 1\<rparr>,
       \<lparr>ID = 0, Data = ''test'', shardIndex = - 1\<rparr>,
       \<lparr>ID = 0, Data = ''test'', shardIndex = - 1\<rparr>,
       \<lparr>ID = 0, Data = ''test'', shardIndex = - 1\<rparr>]) \<and>
   NewRingBufferCondPool 4 testAllocator testCleaner [] =
     Inr (\<lparr>RingBufferCondPool.ringBuffer =
         \<lparr>buffer = [Ptr 0, Ptr 1, Ptr 2, Ptr 3], head = 0, tail = 0, size_rb = 4, RingBuffer.capacity = 4\<rparr>,
       RingBufferCondPool.allocator = testAllocator, RingBufferCondPool.cleaner = testCleaner\<rparr>,
      [\<lparr>ID = 0, Data = ''test'', shardIndex = - 1\<rparr>,
       \<lparr>ID = 0, Data = ''test'', shardIndex = - 1\<rparr>,
       \<lparr>ID = 0, Data = ''test'', shardIndex = - 1\<rparr>,
       \<lparr>ID = 0, Data = ''test'', shardIndex = - 1\<rparr>]) \<and>
   repeat_Get RingBufferCondPool_Get 4
     (\<lparr>RingBufferCondPool.ringBuffer =
         \<lparr>buffer = [Ptr 0, Ptr 1, Ptr 2, Ptr 3], head = 0, tail = 0, size_rb = 4, RingBuffer.capacity = 4\<rparr>,
       RingBufferCondPool.allocator = testAllocator, RingBufferCondPool.cleaner = testCleaner\<rparr>)
      [\<lparr>ID = 0, Data = ''test'', shardIndex = - 1\<rparr>,
       \<lparr>ID = 0, Data = ''test'', shardIndex = - 1\<rparr>,
       \<lparr>ID = 0, Data = ''test'', shardIndex = - 1\<rparr>,
       \<lparr>ID = 0, Data = ''test'', shardIndex = - 1\<rparr>] =
     Inr ([Ptr 0, Ptr 1, Ptr 2, Ptr 3],
      \<lparr>RingBufferCondPool.ringBuffer =
         \<lparr>buffer = [Ptr 0, Ptr 1, Ptr 2, Ptr 3], head = 0, tail = 0, size_rb = 0, RingBuffer.capacity = 4\<rparr>,
       RingBufferCondPool.allocator = testAllocator, RingBufferCondPool.cleaner = testCleaner\<rparr>,
      [\<lparr>ID = 0, Data = ''test'', shardIndex = - 1\<rparr>,
       \<lparr>ID = 0, Data = ''test'', shardIndex = - 1\<rparr>,
       \<lparr>ID = 0, Data = ''test'', shardIndex = - 1\<rparr>,
       \<lparr>ID = 0, Data = ''test'', shardIndex = - 1\<rparr>]) \<and>
   NewChannelBasedPool 4 testAllocator testCleaner [] =
     Inr (\<lparr>ChannelBasedPool.objects = \<lparr>queue = [Ptr 0, Ptr 1, Ptr 2, Ptr 3], chan_cap = 4\<rparr>,
       ChannelBasedPool.allocator = testAllocator, ChannelBasedPool.cleaner = testCleaner\<rparr>,
      [\<lparr>ID = 0, Data = ''test'', shardIndex = - 1\<rparr>,
       \<lparr>ID = 0, Data = ''test'', shardIndex = - 1\<rparr>,
       \<lparr>ID = 0, Data = ''test'', shardIndex = - 1\<rparr>,
       \<lparr>ID = 0, Data = ''test'', shardIndex = - 1\<rparr>]) \<and>
   repeat_Get ChannelBasedPool_Get 4
     (\<lparr>ChannelBasedPool.objects = \<lparr>queue = [Ptr 0, Ptr 1, Ptr 2, Ptr 3], chan_cap = 4\<rparr>,
       ChannelBasedPool.allocator = testAllocator, ChannelBasedPool.cleaner = testCleaner\<rparr>)
      [\<lparr>ID = 0, Data = ''test'', shardIndex = - 1\<rparr>,
       \<lparr>ID = 0, Data = ''test'', shardIndex = - 1\<rparr>,
       \<lparr>ID = 0, Data = ''test'', shardIndex = - 1\<rparr>,
       \<lparr>ID = 0, Data = ''test'', shardIndex = - 1\<rparr>] =
     Inr ([Ptr 0, Ptr 1, Ptr 2, Ptr 3],
      \<lparr>ChannelBasedPool.objects = \<lparr>queue = [], chan_cap = 4\<rparr>,
       ChannelBasedPool.allocator = testAllocator, ChannelBasedPool.cleaner = testCleaner\<rparr>,
      [\<lparr>ID = 0, Data = ''test'', shardIndex = - 1\<rparr>,
       \<lparr>ID = 0, Data = ''test'', shardIndex = - 1\<rparr>,
       \<lparr>ID = 0, Data = ''test'', shardIndex = - 1\<rparr>,
       \<lparr>ID = 0, Data = ''test'', shardIndex = - 1\<rparr>]) \<and>
   NewMutexBasedPool 4 testAllocator testCleaner [] =
     Inr (\<lparr>MutexBasedPool.objects = \<lparr>elems = [Ptr 0, Ptr 1, Ptr 2, Ptr 3], slice_cap = 4\<rparr>,
       MutexBasedPool.allocator = testAllocator, MutexBasedPool.cleaner = testCleaner\<rparr>,
      [\<lparr>ID = 0, Data = ''test'', shardIndex = - 1\<rparr>,
       \<lparr>ID = 0, Data = ''test'', shardIndex = - 1\<rparr>,
       \<lparr>ID = 0, Data = ''test'', shardIndex = - 1\<rparr>,
       \<lparr>ID = 0, Data = ''test'', shardIndex = - 1\<rparr>]) \<and>
   repeat_Get MutexBasedPool_Get 4
     (\<lparr>MutexBasedPool.objects = \<lparr>elems = [Ptr 0, Ptr 1, Ptr 2, Ptr 3], slice_cap = 4\<rparr>,
       MutexBasedPool.allocator = testAllocator, MutexBasedPool.cleaner = testCleaner\<rparr>)
      [\<lparr>ID = 0, Data = ''test'', shardIndex = - 1\<rparr>,
       \<lparr>ID = 0, Data = ''test'', shardIndex = - 1\<rparr>,
       \<lparr>ID = 0, Data = ''test'', shardIndex = - 1\<rparr>,
       \<lparr>ID = 0, Data = ''test'', shardIndex = - 1\<rparr>] =
     Inr ([Ptr 3, Ptr 2, Ptr 1, Ptr 0],
      \<lparr>MutexBasedPool.objects = \<lparr>elems = [], slice_cap = 4\<rparr>,
       MutexBasedPool.allocator = testAllocator, MutexBasedPool.cleaner = testCleaner\<rparr>,
      [\<lparr>ID = 0, Data = ''test'', shardIndex = - 1\<rparr>,
       \<lparr>ID = 0, Data = ''test'', shardIndex = - 1\<rparr>,
       \<lparr>ID = 0, Data = ''test'', shardIndex = - 1\<rparr>,
       \<lparr>ID = 0, Data = ''test'', shardIndex = - 1\<rparr>]) \<and>
   NewCondBasedPool 4 testAllocator testCleaner [] =
     Inr (\<lparr>CondBasedPool.objects = \<lparr>elems = [Ptr 0, Ptr 1, Ptr 2, Ptr 3], slice_cap = 4\<rparr>,
       CondBasedPool.allocator = testAllocator, CondBasedPool.cleaner = testCleaner\<rparr>,
      [\<lparr>ID = 0, Data = ''test'', shardIndex = - 1\<rparr>,
       \<lparr>ID = 0, Data = ''test'', shardIndex = - 1\<rparr>,
       \<lparr>ID = 0, Data = ''test'', shardIndex = - 1\<rparr>,
       \<lparr>ID = 0, Data = ''test'', shardIndex = - 1\<rparr>]) \<and>
   repeat_Get CondBasedPool_Get 4
     (\<lparr>CondBasedPool.objects = \<lparr>elems = [Ptr 0, Ptr 1, Ptr 2, Ptr 3], slice_cap = 4\<rparr>,
       CondBasedPool.allocator = testAllocator, CondBasedPool.cleaner = testCleaner\<rparr>)
      [\<lparr>ID = 0, Data = ''test'', shardIndex = - 1\<rparr>,
       \<lparr>ID = 0, Data = ''test'', shardIndex = - 1\<rparr>,
       \<lparr>ID = 0, Data = ''test'', shardIndex = - 1\<rparr>,
       \<lparr>ID = 0, Data = ''test'', shardIndex = - 1\<rparr>] =
     Inr ([Ptr 3, Ptr 2, Ptr 1, Ptr 0],
      \<lparr>CondBasedPool.objects = \<lparr>elems = [], slice_cap = 4\<rparr>,
       CondBasedPool.allocator = testAllocator, CondBasedPool.cleaner = testCleaner\<rparr>,
      [\<lparr>ID = 0, Data = ''test'', shardIndex = - 1\<rparr>,
       \<lparr>ID = 0, Data = ''test'', shardIndex = - 1\<rparr>,
       \<lparr>ID = 0, Data = ''test'', shardIndex = - 1\<rparr>,
       \<lparr>ID = 0, Data = ''test'', shardIndex = - 1\<rparr>]) \<and>
   NewAtomicBasedPool 4 testAllocator testCleaner [] =
     Inr (\<lparr>AtomicBasedPool.objects = [Ptr 0, Ptr 1, Ptr 2, Ptr 3], index = 4, AtomicBasedPool.capacity = 4,
       AtomicBasedPool.allocator = testAllocator, AtomicBasedPool.cleaner = testCleaner\<rparr>,
      [\<lparr>ID = 0, Data = ''test'', shardIndex = - 1\<rparr>,
       \<lparr>ID = 0, Data = ''test'', shardIndex = - 1\<rparr>,
       \<lparr>ID = 0, Data = ''test'', shardIndex = - 1\<rparr>,
       \<lparr>ID = 0, Data = ''test'', shardIndex = - 1\<rparr>]) \<and>
   repeat_Get AtomicBasedPool_Get 4
     (\<lparr>AtomicBasedPool.objects = [Ptr 0, Ptr 1, Ptr 2, Ptr 3], index = 4, AtomicBasedPool.capacity = 4,
       AtomicBasedPool.allocator = testAllocator, AtomicBasedPool.cleaner = testCleaner\<rparr>)
      [\<lparr>ID = 0, Data = ''test'', shardIndex = - 1\<rparr>,
       \<lparr>ID = 0, Data = ''test'', shardIndex = - 1\<rparr>,
       \<lparr>ID = 0, Data = ''test'', shardIndex = - 1\<rparr>,
       \<lparr>ID = 0, Data = ''test'', shardIndex = - 1\<rparr>] =
     Inr ([Ptr 3, Ptr 2, Ptr 1, Ptr 0],
      \<lparr>AtomicBasedPool.objects = [Ptr 0, Ptr 1, Ptr 2, Ptr 3], index = 0, AtomicBasedPool.capacity = 4,
       AtomicBasedPool.allocator = testAllocator, AtomicBasedPool.cleaner = testCleaner\<rparr>,
      [\<lparr>ID = 0, Data = ''test'', shardIndex = - 1\<rparr>,
       \<lparr>ID = 0, Data = ''test'', shardIndex = - 1\<rparr>,
       \<lparr>ID = 0, Data = ''test'', shardIndex = - 1\<rparr>,
       \<lparr>ID = 0, Data = ''test'', shardIndex = - 1\<rparr>]) \<and>
   NewShardedMutexRingBufferPool 8 4 2 testAllocator testCleaner [] =
     Inr (\<lparr>ShardedMutexRingBufferPool.shards =
        [\<lparr>MutexRingBufferPool.ringBuffer =
            \<lparr>buffer = [Ptr 0, Ptr 1], head = 0, tail = 0, size_rb = 2, RingBuffer.capacity = 2\<rparr>,
          MutexRingBufferPool.allocator = testAllocator, MutexRingBufferPool.cleaner = testCleaner\<rparr>,
         \<lparr>MutexRingBufferPool.ringBuffer =
            \<lparr>buffer = [Ptr 2, Ptr 3], head = 0, tail = 0, size_rb = 2, RingBuffer.capacity = 2\<rparr>,
          MutexRingBufferPool.allocator = testAllocator, MutexRingBufferPool.cleaner = testCleaner\<rparr>]\<rparr>,
      [\<lparr>ID = 0, Data = ''test'', shardIndex = - 1\<rparr>,
       \<lparr>ID = 0, Data = ''test'', shardIndex = - 1\<rparr>,
       \<lparr>ID = 0, Data = ''test'', shardIndex = - 1\<rparr>,
       \<lparr>ID = 0, Data = ''test'', shardIndex = - 1\<rparr>]) \<and>
   repeat_Get (ShardedMutexRingBufferPool_Get 1) 2
     (\<lparr>ShardedMutexRingBufferPool.shards =
        [\<lparr>MutexRingBufferPool.ringBuffer =
            \<lparr>buffer = [Ptr 0, Ptr 1], head = 0, tail = 0, size_rb = 2, RingBuffer.capacity = 2\<rparr>,
          MutexRingBufferPool.allocator = testAllocator, MutexRingBufferPool.cleaner = testCleaner\<rparr>,
         \<lparr>MutexRingBufferPool.ringBuffer =
            \<lparr>buffer = [Ptr 2, Ptr 3], head = 0, tail = 0, size_rb = 2, RingBuffer.capacity = 2\<rparr>,
          MutexRingBufferPool.allocator = testAllocator, MutexRingBufferPool.cleaner = testCleaner\<rparr>]\<rparr>)
      [\<lparr>ID = 0, Data = ''test'', shardIndex = - 1\<rparr>,
       \<lparr>ID = 0, Data = ''test'', shardIndex = - 1\<rparr>,
       \<lparr>ID = 0, Data = ''test'', shardIndex = - 1\<rparr>,
       \<lparr>ID = 0, Data = ''test'', shardIndex = - 1\<rparr>] =
     Inr ([Ptr 2, Ptr 3],
      \<lparr>ShardedMutexRingBufferPool.shards =
        [\<lparr>MutexRingBufferPool.ringBuffer =
            \<lparr>buffer = [Ptr 0, Ptr 1], head = 0, tail = 0, size_rb = 2, RingBuffer.capacity = 2\<rparr>,
          MutexRingBufferPool.allocator = testAllocator, MutexRingBufferPool.cleaner = testCleaner\<rparr>,
         \<lparr>MutexRingBufferPool.ringBuffer =
            \<lparr>buffer = [Ptr 2, Ptr 3], head = 0, tail = 0, size_rb = 0, RingBuffer.capacity = 2\<rparr>,
          MutexRingBufferPool.allocator = testAllocator, MutexRingBufferPool.cleaner = testCleaner\<rparr>]\<rparr>,
      [\<lparr>ID = 0, Data = ''test'', shardIndex = - 1\<rparr>,
       \<lparr>ID = 0, Data = ''test'', shardIndex = - 1\<rparr>,
       \<lparr>ID = 0, Data = ''test'', shardIndex = 1\<rparr>,
       \<lparr>ID = 0, Data = ''test'', shardIndex = 1\<rparr>]) \<and>
   ShardedMutexRingBufferPool_Get 1
     (\<lparr>ShardedMutexRingBufferPool.shards =
        [\<lparr>MutexRingBufferPool.ringBuffer =
            \<lparr>buffer = [Ptr 0, Ptr 1], head = 0, tail = 0, size_rb = 2, RingBuffer.capacity = 2\<rparr>,
          MutexRingBufferPool.allocator = testAllocator, MutexRingBufferPool.cleaner = testCleaner\<rparr>,
         \<lparr>MutexRingBufferPool.ringBuffer =
            \<lparr>buffer = [Ptr 2, Ptr 3], head = 0, tail = 0, size_rb = 0, RingBuffer.capacity = 2\<rparr>,
          MutexRingBufferPool.allocator = testAllocator, MutexRingBufferPool.cleaner = testCleaner\<rparr>]\<rparr>)
      [\<lparr>ID = 0, Data = ''test'', shardIndex = - 1\<rparr>,
       \<lparr>ID = 0, Data = ''test'', shardIndex = - 1\<rparr>,
       \<lparr>ID = 0, Data = ''test'', shardIndex = 1\<rparr>,
       \<lparr>ID = 0, Data = ''test'', shardIndex = 1\<rparr>] =
     Inr (Ptr 4,
      \<lparr>ShardedMutexRingBufferPool.shards =
        [\<lparr>MutexRingBufferPool.ringBuffer =
            \<lparr>buffer = [Ptr 0, Ptr 1], head = 0, tail = 0, size_rb = 2, RingBuffer.capacity = 2\<rparr>,
          MutexRingBufferPool.allocator = testAllocator, MutexRingBufferPool.cleaner = testCleaner\<rparr>,
         \<lparr>MutexRingBufferPool.ringBuffer =
            \<lparr>buffer = [Ptr 2, Ptr 3], head = 0, tail = 0, size_rb = 0, RingBuffer.capacity = 2\<rparr>,
          MutexRingBufferPool.allocator = testAllocator, MutexRingBufferPool.cleaner = testCleaner\<rparr>]\<rparr>,
      [\<lparr>ID = 0, Data = ''test'', shardIndex = - 1\<rparr>,
       \<lparr>ID = 0, Data = ''test'', shardIndex = - 1\<rparr>,
       \<lparr>ID = 0, Data = ''test'', shardIndex = 1\<rparr>,
       \<lparr>ID = 0, Data = ''test'', shardIndex = 1\<rparr>,
       \<lparr>ID = 0, Data = ''test'', shardIndex = 1\<rparr>]) \<and>
   NewShardedChannelBasedPool 8 4 2 testAllocator testCleaner [] =
     Inr (\<lparr>ShardedChannelBasedPool.shards =
        [\<lparr>ChannelBasedPool.objects = \<lparr>queue = [Ptr 0, Ptr 1], chan_cap = 2\<rparr>,
          ChannelBasedPool.allocator = testAllocator, ChannelBasedPool.cleaner = testCleaner\<rparr>,
         \<lparr>ChannelBasedPool.objects = \<lparr>queue = [Ptr 2, Ptr 3], chan_cap = 2\<rparr>,
          ChannelBasedPool.allocator = testAllocator, ChannelBasedPool.cleaner = testCleaner\<rparr>]\<rparr>,
      [\<lparr>ID = 0, Data = ''test'', shardIndex = - 1\<rparr>,
       \<lparr>ID = 0, Data = ''test'', shardIndex = - 1\<rparr>,
       \<lparr>ID = 0, Data = ''test'', shardIndex = - 1\<rparr>,
       \<lparr>ID = 0, Data = ''test'', shardIndex = - 1\<rparr>]) \<and>
   repeat_Get (ShardedChannelBasedPool_Get 1) 2
     (\<lparr>ShardedChannelBasedPool.shards =
        [\<lparr>ChannelBasedPool.objects = \<lparr>queue = [Ptr 0, Ptr 1], chan_cap = 2\<rparr>,
          ChannelBasedPool.allocator = testAllocator, ChannelBasedPool.cleaner = testCleaner\<rparr>,
         \<lparr>ChannelBasedPool.objects = \<lparr>queue = [Ptr 2, Ptr 3], chan_cap = 2\<rparr>,
          ChannelBasedPool.allocator = testAllocator, ChannelBasedPool.cleaner = testCleaner\<rparr>]\<rparr>)
      [\<lparr>ID = 0, Data = ''test'', shardIndex = - 1\<rparr>,
       \<lparr>ID = 0, Data = ''test'', shardIndex = - 1\<rparr>,
       \<lparr>ID = 0, Data = ''test'', shardIndex = - 1\<rparr>,
       \<lparr>ID = 0, Data = ''test'', shardIndex = - 1\<rparr>] =
     Inr ([Ptr 2, Ptr 3],
      \<lparr>ShardedChannelBasedPool.shards =
        [\<lparr>ChannelBasedPool.objects = \<lparr>queue = [Ptr 0, Ptr 1], chan_cap = 2\<rparr>,
          ChannelBasedPool.allocator = testAllocator, ChannelBasedPool.cleaner = testCleaner\<rparr>,
         \<lparr>ChannelBasedPool.objects = \<lparr>queue = [], chan_cap = 2\<rparr>,
          ChannelBasedPool.allocator = testAllocator, ChannelBasedPool.cleaner = testCleaner\<rparr>]\<rparr>,
      [\<lparr>ID = 0, Data = ''test'', shardIndex = - 1\<rparr>,
       \<lparr>ID = 0, Data = ''test'', shardIndex = - 1\<rparr>,
       \<lparr>ID = 0, Data = ''test'', shardIndex = 1\<rparr>,
       \<lparr>ID = 0, Data = ''test'', shardIndex = 1\<rparr>]) \<and>
   ShardedChannelBasedPool_Get 1
     (\<lparr>ShardedChannelBasedPool.shards =
        [\<lparr>ChannelBasedPool.objects = \<lparr>queue = [Ptr 0, Ptr 1], chan_cap = 2\<rparr>,
          ChannelBasedPool.allocator = testAllocator, ChannelBasedPool.cleaner = testCleaner\<rparr>,
         \<lparr>ChannelBasedPool.objects = \<lparr>queue = [], chan_cap = 2\<rparr>,
          ChannelBasedPool.allocator = testAllocator, ChannelBasedPool.cleaner = testCleaner\<rparr>]\<rparr>)
      [\<lparr>ID = 0, Data = ''test'', shardIndex = - 1\<rparr>,
       \<lparr>ID = 0, Data = ''test'', shardIndex = - 1\<rparr>,
       \<lparr>ID = 0, Data = ''test'', shardIndex = 1\<rparr>,
       \<lparr>ID = 0, Data = ''test'', shardIndex = 1\<rparr>] =
     Inr (Ptr 4,
      \<lparr>ShardedChannelBasedPool.shards =
        [\<lparr>ChannelBasedPool.objects = \<lparr>queue = [Ptr 0, Ptr 1], chan_cap = 2\<rparr>,
          ChannelBasedPool.allocator = testAllocator, ChannelBasedPool.cleaner = testCleaner\<rparr>,
         \<lparr>ChannelBasedPool.objects = \<lparr>queue = [], chan_cap = 2\<rparr>,
          ChannelBasedPool.allocator = testAllocator, ChannelBasedPool.cleaner = testCleaner\<rparr>]\<rparr>,
      [\<lparr>ID = 0, Data = ''test'', shardIndex = - 1\<rparr>,
       \<lparr>ID = 0, Data = ''test'', shardIndex = - 1\<rparr>,
       \<lparr>ID = 0, Data = ''test'', shardIndex = 1\<rparr>,
       \<lparr>ID = 0, Data = ''test'', shardIndex = 1\<rparr>,
       \<lparr>ID = 0, Data = ''test'', shardIndex = 1\<rparr>]) \<and>
   NewShardedAtomicBasedPool 8 4 2 testAllocator testCleaner [] =
     Inr (\<lparr>ShardedAtomicBasedPool.shards =
        [\<lparr>AtomicBasedPool.objects = [Ptr 0, Ptr 1], index = 2, AtomicBasedPool.capacity = 2,
          AtomicBasedPool.allocator = testAllocator, AtomicBasedPool.cleaner = testCleaner\<rparr>,
         \<lparr>AtomicBasedPool.objects = [Ptr 2, Ptr 3], index = 2, AtomicBasedPool.capacity = 2,
          AtomicBasedPool.allocator = testAllocator, AtomicBasedPool.cleaner = testCleaner\<rparr>]\<rparr>,
      [\<lparr>ID = 0, Data = ''test'', shardIndex = - 1\<rparr>,
       \<lparr>ID = 0, Data = ''test'', shardIndex = - 1\<rparr>,
       \<lparr>ID = 0, Data = ''test'', shardIndex = - 1\<rparr>,
       \<lparr>ID = 0, Data = ''test'', shardIndex = - 1\<rparr>]) \<and>
   repeat_Get (ShardedAtomicBasedPool_Get 1) 2
     (\<lparr>ShardedAtomicBasedPool.shards =
        [\<lparr>AtomicBasedPool.objects = [Ptr 0, Ptr 1], index = 2, AtomicBasedPool.capacity = 2,
          AtomicBasedPool.allocator = testAllocator, AtomicBasedPool.cleaner = testCleaner\<rparr>,
         \<lparr>AtomicBasedPool.objects = [Ptr 2, Ptr 3], index = 2, AtomicBasedPool.capacity = 2,
          AtomicBasedPool.allocator = testAllocator, AtomicBasedPool.cleaner = testCleaner\<rparr>]\<rparr>)
      [\<lparr>ID = 0, Data = ''test'', shardIndex = - 1\<rparr>,
       \<lparr>ID = 0, Data = ''test'', shardIndex = - 1\<rparr>,
       \<lparr>ID = 0, Data = ''test'', shardIndex = - 1\<rparr>,
       \<lparr>ID = 0, Data = ''test'', shardIndex = - 1\<rparr>] =
     Inr ([Ptr 3, Ptr 2],
      \<lparr>ShardedAtomicBasedPool.shards =
        [\<lparr>AtomicBasedPool.objects = [Ptr 0, Ptr 1], index = 2, AtomicBasedPool.capacity = 2,
          AtomicBasedPool.allocator = testAllocator, AtomicBasedPool.cleaner = testCleaner\<rparr>,
         \<lparr>AtomicBasedPool.objects = [Ptr 2, Ptr 3], index = 0, AtomicBasedPool.capacity = 2,
          AtomicBasedPool.allocator = testAllocator, AtomicBasedPool.cleaner = testCleaner\<rparr>]\<rparr>,
      [\<lparr>ID = 0, Data = ''test'', shardIndex = - 1\<rparr>,
       \<lparr>ID = 0, Data = ''test'', shardIndex = - 1\<rparr>,
       \<lparr>ID = 0, Data = ''test'', shardIndex = 1\<rparr>,
       \<lparr>ID = 0, Data = ''test'', shardIndex = 1\<rparr>]) \<and>
   ShardedAtomicBasedPool_Get 1
     (\<lparr>ShardedAtomicBasedPool.shards =
        [\<lparr>AtomicBasedPool.objects = [Ptr 0, Ptr 1], index = 2, AtomicBasedPool.capacity = 2,
          AtomicBasedPool.allocator = testAllocator, AtomicBasedPool.cleaner = testCleaner\<rparr>,
         \<lparr>AtomicBasedPool.objects = [Ptr 2, Ptr 3], index = 0, AtomicBasedPool.capacity = 2,
          AtomicBasedPool.allocator = testAllocator, AtomicBasedPool.cleaner = testCleaner\<rparr>]\<rparr>)
      [\<lparr>ID = 0, Data = ''test'', shardIndex = - 1\<rparr>,
       \<lparr>ID = 0, Data = ''test'', shardIndex = - 1\<rparr>,
       \<lparr>ID = 0, Data = ''test'', shardIndex = 1\<rparr>,
       \<lparr>ID = 0, Data = ''test'', shardIndex = 1\<rparr>] =
     Inr (Ptr 4,
      \<lparr>ShardedAtomicBasedPool.shards =
        [\<lparr>AtomicBasedPool.objects = [Ptr 0, Ptr 1], index = 2, AtomicBasedPool.capacity = 2,
          AtomicBasedPool.allocator = testAllocator, AtomicBasedPool.cleaner = testCleaner\<rparr>,
         \<lparr>AtomicBasedPool.objects = [Ptr 2, Ptr 3], index = 0, AtomicBasedPool.capacity = 2,
          AtomicBasedPool.allocator = testAllocator, AtomicBasedPool.cleaner = testCleaner\<rparr>]\<rparr>,
      [\<lparr>ID = 0, Data = ''test'', shardIndex = - 1\<rparr>,
       \<lparr>ID = 0, Data = ''test'', shardIndex = - 1\<rparr>,
       \<lparr>ID = 0, Data = ''test'', shardIndex = 1\<rparr>,
       \<lparr>ID = 0, Data = ''test'', shardIndex = 1\<rparr>,
       \<lparr>ID = 0, Data = ''test'', shardIndex = 1\<rparr>]) \<and>
   NewShardedCondBasedPool 8 4 2 testAllocator testCleaner [] =
     Inr (\<lparr>ShardedCondBasedPool.shards =
        [\<lparr>RingBufferCondPool.ringBuffer =
            \<lparr>buffer = [Ptr 0, Ptr 1], head = 0, tail = 0, size_rb = 2, RingBuffer.capacity = 2\<rparr>,
          RingBufferCondPool.allocator = testAllocator, RingBufferCondPool.cleaner = testCleaner\<rparr>,
         \<lparr>RingBufferCondPool.ringBuffer =
            \<lparr>buffer = [Ptr 2, Ptr 3], head = 0, tail = 0, size_rb = 2, RingBuffer.capacity = 2\<rparr>,
          RingBufferCondPool.allocator = testAllocator, RingBufferCondPool.cleaner = testCleaner\<rparr>]\<rparr>,
      [\<lparr>ID = 0, Data = ''test'', shardIndex = - 1\<rparr>,
       \<lparr>ID = 0, Data = ''test'', shardIndex = - 1\<rparr>,
       \<lparr>ID = 0, Data = ''test'', shardIndex = - 1\<rparr>,
       \<lparr>ID = 0, Data = ''test'', shardIndex = - 1\<rparr>]) \<and>
   repeat_Get (ShardedCondBasedPool_Get 1) 2
     (\<lparr>ShardedCondBasedPool.shards =
        [\<lparr>RingBufferCondPool.ringBuffer =
            \<lparr>buffer = [Ptr 0, Ptr 1], head = 0, tail = 0, size_rb = 2, RingBuffer.capacity = 2\<rparr>,
          RingBufferCondPool.allocator = testAllocator, RingBufferCondPool.cleaner = testCleaner\<rparr>,
         \<lparr>RingBufferCondPool.ringBuffer =
            \<lparr>buffer = [Ptr 2, Ptr 3], head = 0, tail = 0, size_rb = 2, RingBuffer.capacity = 2\<rparr>,
          RingBufferCondPool.allocator = testAllocator, RingBufferCondPool.cleaner = testCleaner\<rparr>]\<rparr>)
      [\<lparr>ID = 0, Data = ''test'', shardIndex = - 1\<rparr>,
       \<lparr>ID = 0, Data = ''test'', shardIndex = - 1\<rparr>,
       \<lparr>ID = 0, Data = ''test'', shardIndex = - 1\<rparr>,
       \<lparr>ID = 0, Data = ''test'', shardIndex = - 1\<rparr>] =
     Inr ([Ptr 2, Ptr 3],
      \<lparr>ShardedCondBasedPool.shards =
        [\<lparr>RingBufferCondPool.ringBuffer =
            \<lparr>buffer = [Ptr 0, Ptr 1], head = 0, tail = 0, size_rb = 2, RingBuffer.capacity = 2\<rparr>,
          RingBufferCondPool.allocator = testAllocator, RingBufferCondPool.cleaner = testCleaner\<rparr>,
         \<lparr>RingBufferCondPool.ringBuffer =
            \<lparr>buffer = [Ptr 2, Ptr 3], head = 0, tail = 0, size_rb = 0, RingBuffer.capacity = 2\<rparr>,
          RingBufferCondPool.allocator = testAllocator, RingBufferCondPool.cleaner = testCleaner\<rparr>]\<rparr>,
      [\<lparr>ID = 0, Data = ''test'', shardIndex = - 1\<rparr>,
       \<lparr>ID = 0, Data = ''test'', shardIndex = - 1\<rparr>,
       \<lparr>ID = 0, Data = ''test'', shardIndex = 1\<rparr>,
       \<lparr>ID = 0, Data = ''test'', shardIndex = 1\<rparr>]) \<and>
   ShardedCondBasedPool_Get 1
     (\<lparr>ShardedCondBasedPool.shards =
        [\<lparr>RingBufferCondPool.ringBuffer =
            \<lparr>buffer = [Ptr 0, Ptr 1], head = 0, tail = 0, size_rb = 2, RingBuffer.capacity = 2\<rparr>,
          RingBufferCondPool.allocator = testAllocator, RingBufferCondPool.cleaner = testCleaner\<rparr>,
         \<lparr>RingBufferCondPool.ringBuffer =
            \<lparr>buffer = [Ptr 2, Ptr 3], head = 0, tail = 0, size_rb = 0, RingBuffer.capacity = 2\<rparr>,
          RingBufferCondPool.allocator = testAllocator, RingBufferCondPool.cleaner = testCleaner\<rparr>]\<rparr>)
      [\<lparr>ID = 0, Data = ''test'', shardIndex = - 1\<rparr>,
       \<lparr>ID = 0, Data = ''test'', shardIndex = - 1\<rparr>,
       \<lparr>ID = 0, Data = ''test'', shardIndex = 1\<rparr>,
       \<lparr>ID = 0, Data = ''test'', shardIndex = 1\<rparr>] = Inl Blocked \<and>
   NewShardedRingBufferCondPool 8 4 2 testAllocator testCleaner [] =
     Inr (\<lparr>ShardedRingBufferCondPool.shards =
        [\<lparr>RingBufferCondPool.ringBuffer =
            \<lparr>buffer = [Ptr 0, Ptr 1], head = 0, tail = 0, size_rb = 2, RingBuffer.capacity = 2\<rparr>,
          RingBufferCondPool.allocator = testAllocator, RingBufferCondPool.cleaner = testCleaner\<rparr>,
         \<lparr>RingBufferCondPool.ringBuffer =
            \<lparr>buffer = [Ptr 2, Ptr 3], head = 0, tail = 0, size_rb = 2, RingBuffer.capacity = 2\<rparr>,
          RingBufferCondPool.allocator = testAllocator, RingBufferCondPool.cleaner = testCleaner\<rparr>]\<rparr>,
      [\<lparr>ID = 0, Data = ''test'', shardIndex = - 1\<rparr>,
       \<lparr>ID = 0, Data = ''test'', shardIndex = - 1\<rparr>,
       \<lparr>ID = 0, Data = ''test'', shardIndex = - 1\<rparr>,
       \<lparr>ID = 0, Data = ''test'', shardIndex = - 1\<rparr>]) \<and>
   repeat_Get (ShardedRingBufferCondPool_Get 1) 2
     (\<lparr>ShardedRingBufferCondPool.shards =
        [\<lparr>RingBufferCondPool.ringBuffer =
            \<lparr>buffer = [Ptr 0, Ptr 1], head = 0, tail = 0, size_rb = 2, RingBuffer.capacity = 2\<rparr>,
          RingBufferCondPool.allocator = testAllocator, RingBufferCondPool.cleaner = testCleaner\<rparr>,
         \<lparr>RingBufferCondPool.ringBuffer =
            \<lparr>buffer = [Ptr 2, Ptr 3], head = 0, tail = 0, size_rb = 2, RingBuffer.capacity = 2\<rparr>,
          RingBufferCondPool.allocator = testAllocator, RingBufferCondPool.cleaner = testCleaner\<rparr>]\<rparr>)
      [\<lparr>ID = 0, Data = ''test'', shardIndex = - 1\<rparr>,
       \<lparr>ID = 0, Data = ''test'', shardIndex = - 1\<rparr>,
       \<lparr>ID = 0, Data = ''test'', shardIndex = - 1\<rparr>,
       \<lparr>ID = 0, Data = ''test'', shardIndex = - 1\<rparr>] =
     Inr ([Ptr 2, Ptr 3],
      \<lparr>ShardedRingBufferCondPool.shards =
        [\<lparr>RingBufferCondPool.ringBuffer =
            \<lparr>buffer = [Ptr 0, Ptr 1], head = 0, tail = 0, size_rb = 2, RingBuffer.capacity = 2\<rparr>,
          RingBufferCondPool.allocator = testAllocator, RingBufferCondPool.cleaner = testCleaner\<rparr>,
         \<lparr>RingBufferCondPool.ringBuffer =
            \<lparr>buffer = [Ptr 2, Ptr 3], head = 0, tail = 0, size_rb = 0, RingBuffer.capacity = 2\<rparr>,
          RingBufferCondPool.allocator = testAllocator, RingBufferCondPool.cleaner = testCleaner\<rparr>]\<rparr>,
      [\<lparr>ID = 0, Data = ''test'', shardIndex = - 1\<rparr>,
       \<lparr>ID = 0, Data = ''test'', shardIndex = - 1\<rparr>,
       \<lparr>ID = 0, Data = ''test'', shardIndex = 1\<rparr>,
       \<lparr>ID = 0, Data = ''test'', shardIndex = 1\<rparr>]) \<and>
   ShardedRingBufferCondPool_Get 1
     (\<lparr>ShardedRingBufferCondPool.shards =
        [\<lparr>RingBufferCondPool.ringBuffer =
            \<lparr>buffer = [Ptr 0, Ptr 1], head = 0, tail = 0, size_rb = 2, RingBuffer.capacity = 2\<rparr>,
          RingBufferCondPool.allocator = testAllocator, RingBufferCondPool.cleaner = testCleaner\<rparr>,
         \<lparr>RingBufferCondPool.ringBuffer =
            \<lparr>buffer = [Ptr 2, Ptr 3], head = 0, tail = 0, size_rb = 0, RingBuffer.capacity = 2\<rparr>,
          RingBufferCondPool.allocator = testAllocator, RingBufferCondPool.cleaner = testCleaner\<rparr>]\<rparr>)
      [\<lparr>ID = 0, Data = ''test'', shardIndex = - 1\<rparr>,
       \<lparr>ID = 0, Data = ''test'', shardIndex = - 1\<rparr>,
       \<lparr>ID = 0, Data = ''test'', shardIndex = 1\<rparr>,
       \<lparr>ID = 0, Data = ''test'', shardIndex = 1\<rparr>] = Inl Blocked \<and>
   NewShardedGoroutineIDPool 8 4 2 testAllocator testCleaner [] =
     Inr (\<lparr>ShardedGoroutineIDPool.shards =
        [\<lparr>MutexRingBufferPool.ringBuffer =
            \<lparr>buffer = [Ptr 0, Ptr 1], head = 0, tail = 0, size_rb = 2, RingBuffer.capacity = 2\<rparr>,
          MutexRingBufferPool.allocator = testAllocator, MutexRingBufferPool.cleaner = testCleaner\<rparr>,
         \<lparr>MutexRingBufferPool.ringBuffer =
            \<lparr>buffer = [Ptr 2, Ptr 3], head = 0, tail = 0, size_rb = 2, RingBuffer.capacity = 2\<rparr>,
          MutexRingBufferPool.allocator = testAllocator, MutexRingBufferPool.cleaner = testCleaner\<rparr>], numShards = 2\<rparr>,
      [\<lparr>ID = 0, Data = ''test'', shardIndex = - 1\<rparr>,
       \<lparr>ID = 0, Data = ''test'', shardIndex = - 1\<rparr>,
       \<lparr>ID = 0, Data = ''test'', shardIndex = - 1\<rparr>,
       \<lparr>ID = 0, Data = ''test'', shardIndex = - 1\<rparr>]) \<and>
   repeat_Get (ShardedGoroutineIDPool_Get 4096) 2
     (\<lparr>ShardedGoroutineIDPool.shards =
        [\<lparr>MutexRingBufferPool.ringBuffer =
            \<lparr>buffer = [Ptr 0, Ptr 1], head = 0, tail = 0, size_rb = 2, RingBuffer.capacity = 2\<rparr>,
          MutexRingBufferPool.allocator = testAllocator, MutexRingBufferPool.cleaner = testCleaner\<rparr>,
         \<lparr>MutexRingBufferPool.ringBuffer =
            \<lparr>buffer = [Ptr 2, Ptr 3], head = 0, tail = 0, size_rb = 2, RingBuffer.capacity = 2\<rparr>,
          MutexRingBufferPool.allocator = testAllocator, MutexRingBufferPool.cleaner = testCleaner\<rparr>], numShards = 2\<rparr>)
      [\<lparr>ID = 0, Data = ''test'', shardIndex = - 1\<rparr>,
       \<lparr>ID = 0, Data = ''test'', shardIndex = - 1\<rparr>,
       \<lparr>ID = 0, Data = ''test'', shardIndex = - 1\<rparr>,
       \<lparr>ID = 0, Data = ''test'', shardIndex = - 1\<rparr>] =
     Inr ([Ptr 2, Ptr 3],
      \<lparr>ShardedGoroutineIDPool.shards =
        [\<lparr>MutexRingBufferPool.ringBuffer =
            \<lparr>buffer = [Ptr 0, Ptr 1], head = 0, tail = 0, size_rb = 2, RingBuffer.capacity = 2\<rparr>,
          MutexRingBufferPool.allocator = testAllocator, MutexRingBufferPool.cleaner = testCleaner\<rparr>,
         \<lparr>MutexRingBufferPool.ringBuffer =
            \<lparr>buffer = [Ptr 2, Ptr 3], head = 0, tail = 0, size_rb = 0, RingBuffer.capacity = 2\<rparr>,
          MutexRingBufferPool.allocator = testAllocator, MutexRingBufferPool.cleaner = testCleaner\<rparr>], numShards = 2\<rparr>,
      [\<lparr>ID = 0, Data = ''test'', shardIndex = - 1\<rparr>,
       \<lparr>ID = 0, Data = ''test'', shardIndex = - 1\<rparr>,
       \<lparr>ID = 0, Data = ''test'', shardIndex = - 1\<rparr>,
       \<lparr>ID = 0, Data = ''test'', shardIndex = - 1\<rparr>]) \<and>
   ShardedGoroutineIDPool_Get 4096
     (\<lparr>ShardedGoroutineIDPool.shards =
        [\<lparr>MutexRingBufferPool.ringBuffer =
            \<lparr>buffer = [Ptr 0, Ptr 1], head = 0, tail = 0, size_rb = 2, RingBuffer.capacity = 2\<rparr>,
          MutexRingBufferPool.allocator = testAllocator, MutexRingBufferPool.cleaner = testCleaner\<rparr>,
         \<lparr>MutexRingBufferPool.ringBuffer =
            \<lparr>buffer = [Ptr 2, Ptr 3], head = 0, tail = 0, size_rb = 0, RingBuffer.capacity = 2\<rparr>,
          MutexRingBufferPool.allocator = testAllocator, MutexRingBufferPool.cleaner = testCleaner\<rparr>], numShards = 2\<rparr>)
      [\<lparr>ID = 0, Data = ''test'', shardIndex = - 1\<rparr>,
       \<lparr>ID = 0, Data = ''test'', shardIndex = - 1\<rparr>,
       \<lparr>ID = 0, Data = ''test'', shardIndex = - 1\<rparr>,
       \<lparr>ID = 0, Data = ''test'', shardIndex = - 1\<rparr>] =
     Inr (Ptr 4,
      \<lparr>ShardedGoroutineIDPool.shards =
        [\<lparr>MutexRingBufferPool.ringBuffer =
            \<lparr>buffer = [Ptr 0, Ptr 1], head = 0, tail = 0, size_rb = 2, RingBuffer.capacity = 2\<rparr>,
          MutexRingBufferPool.allocator = testAllocator, MutexRingBufferPool.cleaner = testCleaner\<rparr>,
         \<lparr>MutexRingBufferPool.ringBuffer =
            \<lparr>buffer = [Ptr 2, Ptr 3], head = 0, tail = 0, size_rb = 0, RingBuffer.capacity = 2\<rparr>,
          MutexRingBufferPool.allocator = testAllocator, MutexRingBufferPool.cleaner = testCleaner\<rparr>], numShards = 2\<rparr>,
      [\<lparr>ID = 0, Data = ''test'', shardIndex = - 1\<rparr>,
       \<lparr>ID = 0, Data = ''test'', shardIndex = - 1\<rparr>,
       \<lparr>ID = 0, Data = ''test'', shardIndex = - 1\<rparr>,
       \<lparr>ID = 0, Data = ''test'', shardIndex = - 1\<rparr>,
       \<lparr>ID = 0, Data = ''test'', shardIndex = - 1\<rparr>])"
proof -
  have four: "(4::nat) = Suc (Suc (Suc (Suc 0)))" by simp
  have a: "allocates_new testAllocator"
    by (simp add: allocates_new_def testAllocator_def)
  have m: "(2::int) = (if (2::int) \<le> 0 then 8 else 2)" by simp
  have k: "(2::int) = max (4 sdiv 2) 1" by (simp add: signed_divide_int_def)
  have r: "(0::int) \<le> 1" "(1::int) < 2" by simp_all
  have s: "(1::int) = int (drop_bit 12 (4096::nat)) AND (2 - 1)"
    by simp
  have e1: "NewMutexRingBufferPool 4 testAllocator testCleaner [] =
       Inr (\<lparr>MutexRingBufferPool.ringBuffer =
           \<lparr>buffer = [Ptr 0, Ptr 1, Ptr 2, Ptr 3], head = 0, tail = 0, size_rb = 4, RingBuffer.capacity = 4\<rparr>,
         MutexRingBufferPool.allocator = testAllocator, MutexRingBufferPool.cleaner = testCleaner\<rparr>,
        [\<lparr>ID = 0, Data = ''test'', shardIndex = - 1\<rparr>,
         \<lparr>ID = 0, Data = ''test'', shardIndex = - 1\<rparr>,
         \<lparr>ID = 0, Data = ''test'', shardIndex = - 1\<rparr>,
         \<lparr>ID = 0, Data = ''test'', shardIndex = - 1\<rparr>])"
    by (simp add: eval_defs eval_sharded_defs four numeral_2_eq_2)
  have e2: "repeat_Get MutexRingBufferPool_Get 4
       (\<lparr>MutexRingBufferPool.ringBuffer =
           \<lparr>buffer = [Ptr 0, Ptr 1, Ptr 2, Ptr 3], head = 0, tail = 0, size_rb = 4, RingBuffer.capacity = 4\<rparr>,
         MutexRingBufferPool.allocator = testAllocator, MutexRingBufferPool.cleaner = testCleaner\<rparr>)
        [\<lparr>ID = 0, Data = ''test'', shardIndex = - 1\<rparr>,
         \<lparr>ID = 0, Data = ''test'', shardIndex = - 1\<rparr>,
         \<lparr>ID = 0, Data = ''test'', shardIndex = - 1\<rparr>,
         \<lparr>ID = 0, Data = ''test'', shardIndex = - 1\<rparr>] =
       Inr ([Ptr 0, Ptr 1, Ptr 2, Ptr 3],
        \<lparr>MutexRingBufferPool.ringBuffer =
           \<lparr>buffer = [Ptr 0, Ptr 1, Ptr 2, Ptr 3], head = 0, tail = 0, size_rb = 0, RingBuffer.capacity = 4\<rparr>,
         MutexRingBufferPool.allocator = testAllocator, MutexRingBufferPool.cleaner = testCleaner\<rparr>,
        [\<lparr>ID = 0, Data = ''test'', shardIndex = - 1\<rparr>,
         \<lparr>ID = 0, Data = ''test'', shardIndex = - 1\<rparr>,
         \<lparr>ID = 0, Data = ''test'', shardIndex = - 1\<rparr>,
         \<lparr>ID = 0, Data = ''test'', shardIndex = - 1\<rparr>])"
    by (simp add: eval_defs eval_sharded_defs four numeral_2_eq_2)
  have e3: "NewRWMutexRingBufferPool 4 testAllocator testCleaner [] =
       Inr (\<lparr>RWMutexRingBufferPool.ringBuffer =
           \<lparr>buffer = [Ptr 0, Ptr 1, Ptr 2, Ptr 3], head = 0, tail = 0, size_rb = 4, RingBuffer.capacity = 4\<rparr>,
         RWMutexRingBufferPool.allocator = testAllocator, RWMutexRingBufferPool.cleaner = testCleaner\<rparr>,
        [\<lparr>ID = 0, Data = ''test'', shardIndex = - 1\<rparr>,
         \<lparr>ID = 0, Data = ''test'', shardIndex = - 1\<rparr>,
         \<lparr>ID = 0, Data = ''test'', shardIndex = - 1\<rparr>,
         \<lparr>ID = 0, Data = ''test'', shardIndex = - 1\<rparr>])"
    by (simp add: eval_defs eval_sharded_defs four numeral_2_eq_2)
  have e4: "repeat_Get RWMutexRingBufferPool_Get 4
       (\<lparr>RWMutexRingBufferPool.ringBuffer =
           \<lparr>buffer = [Ptr 0, Ptr 1, Ptr 2, Ptr 3], head = 0, tail = 0, size_rb = 4, RingBuffer.capacity = 4\<rparr>,
         RWMutexRingBufferPool.allocator = testAllocator, RWMutexRingBufferPool.cleaner = testCleaner\<rparr>)
        [\<lparr>ID = 0, Data = ''test'', shardIndex = - 1\<rparr>,
         \<lparr>ID = 0, Data = ''test'', shardIndex = - 1\<rparr>,
         \<lparr>ID = 0, Data = ''test'', shardIndex = - 1\<rparr>,
         \<lparr>ID = 0, Data = ''test'', shardIndex = - 1\<rparr>] =
       Inr ([Ptr 0, Ptr 1, Ptr 2, Ptr 3],
        \<lparr>RWMutexRingBufferPool.ringBuffer =
           \<lparr>buffer = [Ptr 0, Ptr 1, Ptr 2, Ptr 3], head = 0, tail = 0, size_rb = 0, RingBuffer.capacity = 4\<rparr>,
         RWMutexRingBufferPool.allocator = testAllocator, RWMutexRingBufferPool.cleaner = testCleaner\<rparr>,
        [\<lparr>ID = 0, Data = ''test'', shardIndex = - 1\<rparr>,
         \<lparr>ID = 0, Data = ''test'', shardIndex = - 1\<rparr>,
         \<lparr>ID = 0, Data = ''test'', shardIndex = - 1\<rparr>,
         \<lparr>ID = 0, Data = ''test'', shardIndex = - 1\<rparr>])"
    by (simp add: eval_defs eval_sharded_defs four numeral_2_eq_2)
  have e5: "NewRingBufferCondPool 4 testAllocator testCleaner [] =
       Inr (\<lparr>RingBufferCondPool.ringBuffer =
           \<lparr>buffer = [Ptr 0, Ptr 1, Ptr 2, Ptr 3], head = 0, tail = 0, size_rb = 4, RingBuffer.capacity = 4\<rparr>,
         RingBufferCondPool.allocator = testAllocator, RingBufferCondPool.cleaner = testCleaner\<rparr>,
        [\<lparr>ID = 0, Data = ''test'', shardIndex = - 1\<rparr>,
         \<lparr>ID = 0, Data = ''test'', shardIndex = - 1\<rparr>,
         \<lparr>ID = 0, Data = ''test'', shardIndex = - 1\<rparr>,
         \<lparr>ID = 0, Data = ''test'', shardIndex = - 1\<rparr>])"
    by (simp add: eval_defs eval_sharded_defs four numeral_2_eq_2)
  have e6: "repeat_Get RingBufferCondPool_Get 4
       (\<lparr>RingBufferCondPool.ringBuffer =
           \<lparr>buffer = [Ptr 0, Ptr 1, Ptr 2, Ptr 3], head = 0, tail = 0, size_rb = 4, RingBuffer.capacity = 4\<rparr>,
         RingBufferCondPool.allocator = testAllocator, RingBufferCondPool.cleaner = testCleaner\<rparr>)
        [\<lparr>ID = 0, Data = ''test'', shardIndex = - 1\<rparr>,
         \<lparr>ID = 0, Data = ''test'', shardIndex = - 1\<rparr>,
         \<lparr>ID = 0, Data = ''test'', shardIndex = - 1\<rparr>,
         \<lparr>ID = 0, Data = ''test'', shardIndex = - 1\<rparr>] =
       Inr ([Ptr 0, Ptr 1, Ptr 2, Ptr 3],
        \<lparr>RingBufferCondPool.ringBuffer =
           \<lparr>buffer = [Ptr 0, Ptr 1, Ptr 2, Ptr 3], head = 0, tail = 0, size_rb = 0, RingBuffer.capacity = 4\<rparr>,
         RingBufferCondPool.allocator = testAllocator, RingBufferCondPool.cleaner = testCleaner\<rparr>,
        [\<lparr>ID = 0, Data = ''test'', shardIndex = - 1\<rparr>,
         \<lparr>ID = 0, Data = ''test'', shardIndex = - 1\<rparr>,
         \<lparr>ID = 0, Data = ''test'', shardIndex = - 1\<rparr>,
         \<lparr>ID = 0, Data = ''test'', shardIndex = - 1\<rparr>])"
    by (simp add: eval_defs eval_sharded_defs four numeral_2_eq_2)
  have e7: "NewChannelBasedPool 4 testAllocator testCleaner [] =
       Inr (\<lparr>ChannelBasedPool.objects = \<lparr>queue = [Ptr 0, Ptr 1, Ptr 2, Ptr 3], chan_cap = 4\<rparr>,
         ChannelBasedPool.allocator = testAllocator, ChannelBasedPool.cleaner = testCleaner\<rparr>,
        [\<lparr>ID = 0, Data = ''test'', shardIndex = - 1\<rparr>,
         \<lparr>ID = 0, Data = ''test'', shardIndex = - 1\<rparr>,
         \<lparr>ID = 0, Data = ''test'', shardIndex = - 1\<rparr>,
         \<lparr>ID = 0, Data = ''test'', shardIndex = - 1\<rparr>])"
    by (simp add: eval_defs eval_sharded_defs four numeral_2_eq_2)
  have e8: "repeat_Get ChannelBasedPool_Get 4
       (\<lparr>ChannelBasedPool.objects = \<lparr>queue = [Ptr 0, Ptr 1, Ptr 2, Ptr 3], chan_cap = 4\<rparr>,
         ChannelBasedPool.allocator = testAllocator, ChannelBasedPool.cleaner = testCleaner\<rparr>)
        [\<lparr>ID = 0, Data = ''test'', shardIndex = - 1\<rparr>,
         \<lparr>ID = 0, Data = ''test'', shardIndex = - 1\<rparr>,
         \<lparr>ID = 0, Data = ''test'', shardIndex = - 1\<rparr>,
         \<lparr>ID = 0, Data = ''test'', shardIndex = - 1\<rparr>] =
       Inr ([Ptr 0, Ptr 1, Ptr 2, Ptr 3],
        \<lparr>ChannelBasedPool.objects = \<lparr>queue = [], chan_cap = 4\<rparr>,
         ChannelBasedPool.allocator = testAllocator, ChannelBasedPool.cleaner = testCleaner\<rparr>,
        [\<lparr>ID = 0, Data = ''test'', shardIndex = - 1\<rparr>,
         \<lparr>ID = 0, Data = ''test'', shardIndex = - 1\<rparr>,
         \<lparr>ID = 0, Data = ''test'', shardIndex = - 1\<rparr>,
         \<lparr>ID = 0, Data = ''test'', shardIndex = - 1\<rparr>])"
    by (simp add: eval_defs eval_sharded_defs four numeral_2_eq_2)
  have e9: "NewMutexBasedPool 4 testAllocator testCleaner [] =
       Inr (\<lparr>MutexBasedPool.objects = \<lparr>elems = [Ptr 0, Ptr 1, Ptr 2, Ptr 3], slice_cap = 4\<rparr>,
         MutexBasedPool.allocator = testAllocator, MutexBasedPool.cleaner = testCleaner\<rparr>,
        [\<lparr>ID = 0, Data = ''test'', shardIndex = - 1\<rparr>,
         \<lparr>ID = 0, Data = ''test'', shardIndex = - 1\<rparr>,
         \<lparr>ID = 0, Data = ''test'', shardIndex = - 1\<rparr>,
         \<lparr>ID = 0, Data = ''test'', shardIndex = - 1\<rparr>])"
    by (simp add: eval_defs eval_sharded_defs four numeral_2_eq_2)
  have e10: "repeat_Get MutexBasedPool_Get 4
       (\<lparr>MutexBasedPool.objects = \<lparr>elems = [Ptr 0, Ptr 1, Ptr 2, Ptr 3], slice_cap = 4\<rparr>,
         MutexBasedPool.allocator = testAllocator, MutexBasedPool.cleaner = testCleaner\<rparr>)
        [\<lparr>ID = 0, Data = ''test'', shardIndex = - 1\<rparr>,
         \<lparr>ID = 0, Data = ''test'', shardIndex = - 1\<rparr>,
         \<lparr>ID = 0, Data = ''test'', shardIndex = - 1\<rparr>,
         \<lparr>ID = 0, Data = ''test'', shardIndex = - 1\<rparr>] =
       Inr ([Ptr 3, Ptr 2, Ptr 1, Ptr 0],
        \<lparr>MutexBasedPool.objects = \<lparr>elems = [], slice_cap = 4\<rparr>,
         MutexBasedPool.allocator = testAllocator, MutexBasedPool.cleaner = testCleaner\<rparr>,
        [\<lparr>ID = 0, Data = ''test'', shardIndex = - 1\<rparr>,
         \<lparr>ID = 0, Data = ''test'', shardIndex = - 1\<rparr>,
         \<lparr>ID = 0, Data = ''test'', shardIndex = - 1\<rparr>,
         \<lparr>ID = 0, Data = ''test'', shardIndex = - 1\<rparr>])"
    by (simp add: eval_defs eval_sharded_defs four numeral_2_eq_2)
  have e11: "NewCondBasedPool 4 testAllocator testCleaner [] =
       Inr (\<lparr>CondBasedPool.objects = \<lparr>elems = [Ptr 0, Ptr 1, Ptr 2, Ptr 3], slice_cap = 4\<rparr>,
         CondBasedPool.allocator = testAllocator, CondBasedPool.cleaner = testCleaner\<rparr>,
        [\<lparr>ID = 0, Data = ''test'', shardIndex = - 1\<rparr>,
         \<lparr>ID = 0, Data = ''test'', shardIndex = - 1\<rparr>,
         \<lparr>ID = 0, Data = ''test'', shardIndex = - 1\<rparr>,
         \<lparr>ID = 0, Data = ''test'', shardIndex = - 1\<rparr>])"
    by (simp add: eval_defs eval_sharded_defs four numeral_2_eq_2)
  have e12: "repeat_Get CondBasedPool_Get 4
       (\<lparr>CondBasedPool.objects = \<lparr>elems = [Ptr 0, Ptr 1, Ptr 2, Ptr 3], slice_cap = 4\<rparr>,
         CondBasedPool.allocator = testAllocator, CondBasedPool.cleaner = testCleaner\<rparr>)
        [\<lparr>ID = 0, Data = ''test'', shardIndex = - 1\<rparr>,
         \<lparr>ID = 0, Data = ''test'', shardIndex = - 1\<rparr>,
         \<lparr>ID = 0, Data = ''test'', shardIndex = - 1\<rparr>,
         \<lparr>ID = 0, Data = ''test'', shardIndex = - 1\<rparr>] =
       Inr ([Ptr 3, Ptr 2, Ptr 1, Ptr 0],
        \<lparr>CondBasedPool.objects = \<lparr>elems = [], slice_cap = 4\<rparr>,
         CondBasedPool.allocator = testAllocator, CondBasedPool.cleaner = testCleaner\<rparr>,
        [\<lparr>ID = 0, Data = ''test'', shardIndex = - 1\<rparr>,
         \<lparr>ID = 0, Data = ''test'', shardIndex = - 1\<rparr>,
         \<lparr>ID = 0, Data = ''test'', shardIndex = - 1\<rparr>,
         \<lparr>ID = 0, Data = ''test'', shardIndex = - 1\<rparr>])"
    by (simp add: eval_defs eval_sharded_defs four numeral_2_eq_2)
  have e13: "NewAtomicBasedPool 4 testAllocator testCleaner [] =
       Inr (\<lparr>AtomicBasedPool.objects = [Ptr 0, Ptr 1, Ptr 2, Ptr 3], index = 4, AtomicBasedPool.capacity = 4,
         AtomicBasedPool.allocator = testAllocator, AtomicBasedPool.cleaner = testCleaner\<rparr>,
        [\<lparr>ID = 0, Data = ''test'', shardIndex = - 1\<rparr>,
         \<lparr>ID = 0, Data = ''test'', shardIndex = - 1\<rparr>,
         \<lparr>ID = 0, Data = ''test'', shardIndex = - 1\<rparr>,
         \<lparr>ID = 0, Data = ''test'', shardIndex = - 1\<rparr>])"
    by (simp add: eval_defs eval_sharded_defs four numeral_2_eq_2)
  have e14: "repeat_Get AtomicBasedPool_Get 4
       (\<lparr>AtomicBasedPool.objects = [Ptr 0, Ptr 1, Ptr 2, Ptr 3], index = 4, AtomicBasedPool.capacity = 4,
         AtomicBasedPool.allocator = testAllocator, AtomicBasedPool.cleaner = testCleaner\<rparr>)
        [\<lparr>ID = 0, Data = ''test'', shardIndex = - 1\<rparr>,
         \<lparr>ID = 0, Data = ''test'', shardIndex = - 1\<rparr>,
         \<lparr>ID = 0, Data = ''test'', shardIndex = - 1\<rparr>,
         \<lparr>ID = 0, Data = ''test'', shardIndex = - 1\<rparr>] =
       Inr ([Ptr 3, Ptr 2, Ptr 1, Ptr 0],
        \<lparr>AtomicBasedPool.objects = [Ptr 0, Ptr 1, Ptr 2, Ptr 3], index = 0, AtomicBasedPool.capacity = 4,
         AtomicBasedPool.allocator = testAllocator, AtomicBasedPool.cleaner = testCleaner\<rparr>,
        [\<lparr>ID = 0, Data = ''test'', shardIndex = - 1\<rparr>,
         \<lparr>ID = 0, Data = ''test'', shardIndex = - 1\<rparr>,
         \<lparr>ID = 0, Data = ''test'', shardIndex = - 1\<rparr>,
         \<lparr>ID = 0, Data = ''test'', shardIndex = - 1\<rparr>])"
    by (simp add: eval_defs eval_sharded_defs four numeral_2_eq_2)
  have e15: "NewShardedMutexRingBufferPool 8 4 2 testAllocator testCleaner [] =
       Inr (\<lparr>ShardedMutexRingBufferPool.shards =
          [\<lparr>MutexRingBufferPool.ringBuffer =
              \<lparr>buffer = [Ptr 0, Ptr 1], head = 0, tail = 0, size_rb = 2, RingBuffer.capacity = 2\<rparr>,
            MutexRingBufferPool.allocator = testAllocator, MutexRingBufferPool.cleaner = testCleaner\<rparr>,
           \<lparr>MutexRingBufferPool.ringBuffer =
              \<lparr>buffer = [Ptr 2, Ptr 3], head = 0, tail = 0, size_rb = 2, RingBuffer.capacity = 2\<rparr>,
            MutexRingBufferPool.allocator = testAllocator, MutexRingBufferPool.cleaner = testCleaner\<rparr>]\<rparr>,
        [\<lparr>ID = 0, Data = ''test'', shardIndex = - 1\<rparr>,
         \<lparr>ID = 0, Data = ''test'', shardIndex = - 1\<rparr>,
         \<lparr>ID = 0, Data = ''test'', shardIndex = - 1\<rparr>,
         \<lparr>ID = 0, Data = ''test'', shardIndex = - 1\<rparr>])"
    by (simp add: eval_defs eval_sharded_defs four numeral_2_eq_2)
  have e16: "repeat_Get (ShardedMutexRingBufferPool_Get 1) 2
       (\<lparr>ShardedMutexRingBufferPool.shards =
          [\<lparr>MutexRingBufferPool.ringBuffer =
              \<lparr>buffer = [Ptr 0, Ptr 1], head = 0, tail = 0, size_rb = 2, RingBuffer.capacity = 2\<rparr>,
            MutexRingBufferPool.allocator = testAllocator, MutexRingBufferPool.cleaner = testCleaner\<rparr>,
           \<lparr>MutexRingBufferPool.ringBuffer =
              \<lparr>buffer = [Ptr 2, Ptr 3], head = 0, tail = 0, size_rb = 2, RingBuffer.capacity = 2\<rparr>,
            MutexRingBufferPool.allocator = testAllocator, MutexRingBufferPool.cleaner = testCleaner\<rparr>]\<rparr>)
        [\<lparr>ID = 0, Data = ''test'', shardIndex = - 1\<rparr>,
         \<lparr>ID = 0, Data = ''test'', shardIndex = - 1\<rparr>,
         \<lparr>ID = 0, Data = ''test'', shardIndex = - 1\<rparr>,
         \<lparr>ID = 0, Data = ''test'', shardIndex = - 1\<rparr>] =
       Inr ([Ptr 2, Ptr 3],
        \<lparr>ShardedMutexRingBufferPool.shards =
          [\<lparr>MutexRingBufferPool.ringBuffer =
              \<lparr>buffer = [Ptr 0, Ptr 1], head = 0, tail = 0, size_rb = 2, RingBuffer.capacity = 2\<rparr>,
            MutexRingBufferPool.allocator = testAllocator, MutexRingBufferPool.cleaner = testCleaner\<rparr>,
           \<lparr>MutexRingBufferPool.ringBuffer =
              \<lparr>buffer = [Ptr 2, Ptr 3], head = 0, tail = 0, size_rb = 0, RingBuffer.capacity = 2\<rparr>,
            MutexRingBufferPool.allocator = testAllocator, MutexRingBufferPool.cleaner = testCleaner\<rparr>]\<rparr>,
        [\<lparr>ID = 0, Data = ''test'', shardIndex = - 1\<rparr>,
         \<lparr>ID = 0, Data = ''test'', shardIndex = - 1\<rparr>,
         \<lparr>ID = 0, Data = ''test'', shardIndex = 1\<rparr>,
         \<lparr>ID = 0, Data = ''test'', shardIndex = 1\<rparr>])"
    by (simp add: eval_defs eval_sharded_defs four numeral_2_eq_2)
  have e17: "ShardedMutexRingBufferPool_Get 1
       (\<lparr>ShardedMutexRingBufferPool.shards =
          [\<lparr>MutexRingBufferPool.ringBuffer =
              \<lparr>buffer = [Ptr 0, Ptr 1], head = 0, tail = 0, size_rb = 2, RingBuffer.capacity = 2\<rparr>,
            MutexRingBufferPool.allocator = testAllocator, MutexRingBufferPool.cleaner = testCleaner\<rparr>,
           \<lparr>MutexRingBufferPool.ringBuffer =
              \<lparr>buffer = [Ptr 2, Ptr 3], head = 0, tail = 0, size_rb = 0, RingBuffer.capacity = 2\<rparr>,
            MutexRingBufferPool.allocator = testAllocator, MutexRingBufferPool.cleaner = testCleaner\<rparr>]\<rparr>)
        [\<lparr>ID = 0, Data = ''test'', shardIndex = - 1\<rparr>,
         \<lparr>ID = 0, Data = ''test'', shardIndex = - 1\<rparr>,
         \<lparr>ID = 0, Data = ''test'', shardIndex = 1\<rparr>,
         \<lparr>ID = 0, Data = ''test'', shardIndex = 1\<rparr>] =
       Inr (Ptr 4,
        \<lparr>ShardedMutexRingBufferPool.shards =
          [\<lparr>MutexRingBufferPool.ringBuffer =
              \<lparr>buffer = [Ptr 0, Ptr 1], head = 0, tail = 0, size_rb = 2, RingBuffer.capacity = 2\<rparr>,
            MutexRingBufferPool.allocator = testAllocator, MutexRingBufferPool.cleaner = testCleaner\<rparr>,
           \<lparr>MutexRingBufferPool.ringBuffer =
              \<lparr>buffer = [Ptr 2, Ptr 3], head = 0, tail = 0, size_rb = 0, RingBuffer.capacity = 2\<rparr>,
            MutexRingBufferPool.allocator = testAllocator, MutexRingBufferPool.cleaner = testCleaner\<rparr>]\<rparr>,
        [\<lparr>ID = 0, Data = ''test'', shardIndex = - 1\<rparr>,
         \<lparr>ID = 0, Data = ''test'', shardIndex = - 1\<rparr>,
         \<lparr>ID = 0, Data = ''test'', shardIndex = 1\<rparr>,
         \<lparr>ID = 0, Data = ''test'', shardIndex = 1\<rparr>,
         \<lparr>ID = 0, Data = ''test'', shardIndex = 1\<rparr>])"
    by (simp add: eval_defs eval_sharded_defs four numeral_2_eq_2)
  have e18: "NewShardedChannelBasedPool 8 4 2 testAllocator testCleaner [] =
       Inr (\<lparr>ShardedChannelBasedPool.shards =
          [\<lparr>ChannelBasedPool.objects = \<lparr>queue = [Ptr 0, Ptr 1], chan_cap = 2\<rparr>,
            ChannelBasedPool.allocator = testAllocator, ChannelBasedPool.cleaner = testCleaner\<rparr>,
           \<lparr>ChannelBasedPool.objects = \<lparr>queue = [Ptr 2, Ptr 3], chan_cap = 2\<rparr>,
            ChannelBasedPool.allocator = testAllocator, ChannelBasedPool.cleaner = testCleaner\<rparr>]\<rparr>,
        [\<lparr>ID = 0, Data = ''test'', shardIndex = - 1\<rparr>,
         \<lparr>ID = 0, Data = ''test'', shardIndex = - 1\<rparr>,
         \<lparr>ID = 0, Data = ''test'', shardIndex = - 1\<rparr>,
         \<lparr>ID = 0, Data = ''test'', shardIndex = - 1\<rparr>])"
    by (simp add: eval_defs eval_sharded_defs four numeral_2_eq_2)
  have e19: "repeat_Get (ShardedChannelBasedPool_Get 1) 2
       (\<lparr>ShardedChannelBasedPool.shards =
          [\<lparr>ChannelBasedPool.objects = \<lparr>queue = [Ptr 0, Ptr 1], chan_cap = 2\<rparr>,
            ChannelBasedPool.allocator = testAllocator, ChannelBasedPool.cleaner = testCleaner\<rparr>,
           \<lparr>ChannelBasedPool.objects = \<lparr>queue = [Ptr 2, Ptr 3], chan_cap = 2\<rparr>,
            ChannelBasedPool.allocator = testAllocator, ChannelBasedPool.cleaner = testCleaner\<rparr>]\<rparr>)
        [\<lparr>ID = 0, Data = ''test'', shardIndex = - 1\<rparr>,
         \<lparr>ID = 0, Data = ''test'', shardIndex = - 1\<rparr>,
         \<lparr>ID = 0, Data = ''test'', shardIndex = - 1\<rparr>,
         \<lparr>ID = 0, Data = ''test'', shardIndex = - 1\<rparr>] =
       Inr ([Ptr 2, Ptr 3],
        \<lparr>ShardedChannelBasedPool.shards =
          [\<lparr>ChannelBasedPool.objects = \<lparr>queue = [Ptr 0, Ptr 1], chan_cap = 2\<rparr>,
            ChannelBasedPool.allocator = testAllocator, ChannelBasedPool.cleaner = testCleaner\<rparr>,
           \<lparr>ChannelBasedPool.objects = \<lparr>queue = [], chan_cap = 2\<rparr>,
            ChannelBasedPool.allocator = testAllocator, ChannelBasedPool.cleaner = testCleaner\<rparr>]\<rparr>,
        [\<lparr>ID = 0, Data = ''test'', shardIndex = - 1\<rparr>,
         \<lparr>ID = 0, Data = ''test'', shardIndex = - 1\<rparr>,
         \<lparr>ID = 0, Data = ''test'', shardIndex = 1\<rparr>,
         \<lparr>ID = 0, Data = ''test'', shardIndex = 1\<rparr>])"
    by (simp add: eval_defs eval_sharded_defs four numeral_2_eq_2)
  have e20: "ShardedChannelBasedPool_Get 1
       (\<lparr>ShardedChannelBasedPool.shards =
          [\<lparr>ChannelBasedPool.objects = \<lparr>queue = [Ptr 0, Ptr 1], chan_cap = 2\<rparr>,
            ChannelBasedPool.allocator = testAllocator, ChannelBasedPool.cleaner = testCleaner\<rparr>,
           \<lparr>ChannelBasedPool.objects = \<lparr>queue = [], chan_cap = 2\<rparr>,
            ChannelBasedPool.allocator = testAllocator, ChannelBasedPool.cleaner = testCleaner\<rparr>]\<rparr>)
        [\<lparr>ID = 0, Data = ''test'', shardIndex = - 1\<rparr>,
         \<lparr>ID = 0, Data = ''test'', shardIndex = - 1\<rparr>,
         \<lparr>ID = 0, Data = ''test'', shardIndex = 1\<rparr>,
         \<lparr>ID = 0, Data = ''test'', shardIndex = 1\<rparr>] =
       Inr (Ptr 4,
        \<lparr>ShardedChannelBasedPool.shards =
          [\<lparr>ChannelBasedPool.objects = \<lparr>queue = [Ptr 0, Ptr 1], chan_cap = 2\<rparr>,
            ChannelBasedPool.allocator = testAllocator, ChannelBasedPool.cleaner = testCleaner\<rparr>,
           \<lparr>ChannelBasedPool.objects = \<lparr>queue = [], chan_cap = 2\<rparr>,
            ChannelBasedPool.allocator = testAllocator, ChannelBasedPool.cleaner = testCleaner\<rparr>]\<rparr>,
        [\<lparr>ID = 0, Data = ''test'', shardIndex = - 1\<rparr>,
         \<lparr>ID = 0, Data = ''test'', shardIndex = - 1\<rparr>,
         \<lparr>ID = 0, Data = ''test'', shardIndex = 1\<rparr>,
         \<lparr>ID = 0, Data = ''test'', shardIndex = 1\<rparr>,
         \<lparr>ID = 0, Data = ''test'', shardIndex = 1\<rparr>])"
    by (simp add: eval_defs eval_sharded_defs four numeral_2_eq_2)
  have e21: "NewShardedAtomicBasedPool 8 4 2 testAllocator testCleaner [] =
       Inr (\<lparr>ShardedAtomicBasedPool.shards =
          [\<lparr>AtomicBasedPool.objects = [Ptr 0, Ptr 1], index = 2, AtomicBasedPool.capacity = 2,
            AtomicBasedPool.allocator = testAllocator, AtomicBasedPool.cleaner = testCleaner\<rparr>,
           \<lparr>AtomicBasedPool.objects = [Ptr 2, Ptr 3], index = 2, AtomicBasedPool.capacity = 2,
            AtomicBasedPool.allocator = testAllocator, AtomicBasedPool.cleaner = testCleaner\<rparr>]\<rparr>,
        [\<lparr>ID = 0, Data = ''test'', shardIndex = - 1\<rparr>,
         \<lparr>ID = 0, Data = ''test'', shardIndex = - 1\<rparr>,
         \<lparr>ID = 0, Data = ''test'', shardIndex = - 1\<rparr>,
         \<lparr>ID = 0, Data = ''test'', shardIndex = - 1\<rparr>])"
    by (simp add: eval_defs eval_sharded_defs four numeral_2_eq_2)
  have e22: "repeat_Get (ShardedAtomicBasedPool_Get 1) 2
       (\<lparr>ShardedAtomicBasedPool.shards =
          [\<lparr>AtomicBasedPool.objects = [Ptr 0, Ptr 1], index = 2, AtomicBasedPool.capacity = 2,
            AtomicBasedPool.allocator = testAllocator, AtomicBasedPool.cleaner = testCleaner\<rparr>,
           \<lparr>AtomicBasedPool.objects = [Ptr 2, Ptr 3], index = 2, AtomicBasedPool.capacity = 2,
            AtomicBasedPool.allocator = testAllocator, AtomicBasedPool.cleaner = testCleaner\<rparr>]\<rparr>)
        [\<lparr>ID = 0, Data = ''test'', shardIndex = - 1\<rparr>,
         \<lparr>ID = 0, Data = ''test'', shardIndex = - 1\<rparr>,
         \<lparr>ID = 0, Data = ''test'', shardIndex = - 1\<rparr>,
         \<lparr>ID = 0, Data = ''test'', shardIndex = - 1\<rparr>] =
       Inr ([Ptr 3, Ptr 2],
        \<lparr>ShardedAtomicBasedPool.shards =
          [\<lparr>AtomicBasedPool.objects = [Ptr 0, Ptr 1], index = 2, AtomicBasedPool.capacity = 2,
            AtomicBasedPool.allocator = testAllocator, AtomicBasedPool.cleaner = testCleaner\<rparr>,
           \<lparr>AtomicBasedPool.objects = [Ptr 2, Ptr 3], index = 0, AtomicBasedPool.capacity = 2,
            AtomicBasedPool.allocator = testAllocator, AtomicBasedPool.cleaner = testCleaner\<rparr>]\<rparr>,
        [\<lparr>ID = 0, Data = ''test'', shardIndex = - 1\<rparr>,
         \<lparr>ID = 0, Data = ''test'', shardIndex = - 1\<rparr>,
         \<lparr>ID = 0, Data = ''test'', shardIndex = 1\<rparr>,
         \<lparr>ID = 0, Data = ''test'', shardIndex = 1\<rparr>])"
    by (simp add: eval_defs eval_sharded_defs four numeral_2_eq_2)
  have e23: "ShardedAtomicBasedPool_Get 1
       (\<lparr>ShardedAtomicBasedPool.shards =
          [\<lparr>AtomicBasedPool.objects = [Ptr 0, Ptr 1], index = 2, AtomicBasedPool.capacity = 2,
            AtomicBasedPool.allocator = testAllocator, AtomicBasedPool.cleaner = testCleaner\<rparr>,
           \<lparr>AtomicBasedPool.objects = [Ptr 2, Ptr 3], index = 0, AtomicBasedPool.capacity = 2,
            AtomicBasedPool.allocator = testAllocator, AtomicBasedPool.cleaner = testCleaner\<rparr>]\<rparr>)
        [\<lparr>ID = 0, Data = ''test'', shardIndex = - 1\<rparr>,
         \<lparr>ID = 0, Data = ''test'', shardIndex = - 1\<rparr>,
         \<lparr>ID = 0, Data = ''test'', shardIndex = 1\<rparr>,
         \<lparr>ID = 0, Data = ''test'', shardIndex = 1\<rparr>] =
       Inr (Ptr 4,
        \<lparr>ShardedAtomicBasedPool.shards =
          [\<lparr>AtomicBasedPool.objects = [Ptr 0, Ptr 1], index = 2, AtomicBasedPool.capacity = 2,
            AtomicBasedPool.allocator = testAllocator, AtomicBasedPool.cleaner = testCleaner\<rparr>,
           \<lparr>AtomicBasedPool.objects = [Ptr 2, Ptr 3], index = 0, AtomicBasedPool.capacity = 2,
            AtomicBasedPool.allocator = testAllocator, AtomicBasedPool.cleaner = testCleaner\<rparr>]\<rparr>,
        [\<lparr>ID = 0, Data = ''test'', shardIndex = - 1\<rparr>,
         \<lparr>ID = 0, Data = ''test'', shardIndex = - 1\<rparr>,
         \<lparr>ID = 0, Data = ''test'', shardIndex = 1\<rparr>,
         \<lparr>ID = 0, Data = ''test'', shardIndex = 1\<rparr>,
         \<lparr>ID = 0, Data = ''test'', shardIndex = 1\<rparr>])"
    by (simp add: eval_defs eval_sharded_defs four numeral_2_eq_2)
  have e24: "NewShardedCondBasedPool 8 4 2 testAllocator testCleaner [] =
       Inr (\<lparr>ShardedCondBasedPool.shards =
          [\<lparr>RingBufferCondPool.ringBuffer =
              \<lparr>buffer = [Ptr 0, Ptr 1], head = 0, tail = 0, size_rb = 2, RingBuffer.capacity = 2\<rparr>,
            RingBufferCondPool.allocator = testAllocator, RingBufferCondPool.cleaner = testCleaner\<rparr>,
           \<lparr>RingBufferCondPool.ringBuffer =
              \<lparr>buffer = [Ptr 2, Ptr 3], head = 0, tail = 0, size_rb = 2, RingBuffer.capacity = 2\<rparr>,
            RingBufferCondPool.allocator = testAllocator, RingBufferCondPool.cleaner = testCleaner\<rparr>]\<rparr>,
        [\<lparr>ID = 0, Data = ''test'', shardIndex = - 1\<rparr>,
         \<lparr>ID = 0, Data = ''test'', shardIndex = - 1\<rparr>,
         \<lparr>ID = 0, Data = ''test'', shardIndex = - 1\<rparr>,
         \<lparr>ID = 0, Data = ''test'', shardIndex = - 1\<rparr>])"
    by (simp add: eval_defs eval_sharded_defs four numeral_2_eq_2)
  have e25: "repeat_Get (ShardedCondBasedPool_Get 1) 2
       (\<lparr>ShardedCondBasedPool.shards =
          [\<lparr>RingBufferCondPool.ringBuffer =
              \<lparr>buffer = [Ptr 0, Ptr 1], head = 0, tail = 0, size_rb = 2, RingBuffer.capacity = 2\<rparr>,
            RingBufferCondPool.allocator = testAllocator, RingBufferCondPool.cleaner = testCleaner\<rparr>,
           \<lparr>RingBufferCondPool.ringBuffer =
              \<lparr>buffer = [Ptr 2, Ptr 3], head = 0, tail = 0, size_rb = 2, RingBuffer.capacity = 2\<rparr>,
            RingBufferCondPool.allocator = testAllocator, RingBufferCondPool.cleaner = testCleaner\<rparr>]\<rparr>)
        [\<lparr>ID = 0, Data = ''test'', shardIndex = - 1\<rparr>,
         \<lparr>ID = 0, Data = ''test'', shardIndex = - 1\<rparr>,
         \<lparr>ID = 0, Data = ''test'', shardIndex = - 1\<rparr>,
         \<lparr>ID = 0, Data = ''test'', shardIndex = - 1\<rparr>] =
       Inr ([Ptr 2, Ptr 3],
        \<lparr>ShardedCondBasedPool.shards =
          [\<lparr>RingBufferCondPool.ringBuffer =
              \<lparr>buffer = [Ptr 0, Ptr 1], head = 0, tail = 0, size_rb = 2, RingBuffer.capacity = 2\<rparr>,
            RingBufferCondPool.allocator = testAllocator, RingBufferCondPool.cleaner = testCleaner\<rparr>,
           \<lparr>RingBufferCondPool.ringBuffer =
              \<lparr>buffer = [Ptr 2, Ptr 3], head = 0, tail = 0, size_rb = 0, RingBuffer.capacity = 2\<rparr>,
            RingBufferCondPool.allocator = testAllocator, RingBufferCondPool.cleaner = testCleaner\<rparr>]\<rparr>,
        [\<lparr>ID = 0, Data = ''test'', shardIndex = - 1\<rparr>,
         \<lparr>ID = 0, Data = ''test'', shardIndex = - 1\<rparr>,
         \<lparr>ID = 0, Data = ''test'', shardIndex = 1\<rparr>,
         \<lparr>ID = 0, Data = ''test'', shardIndex = 1\<rparr>])"
    by (simp add: eval_defs eval_sharded_defs four numeral_2_eq_2)
  have e26: "ShardedCondBasedPool_Get 1
       (\<lparr>ShardedCondBasedPool.shards =
          [\<lparr>RingBufferCondPool.ringBuffer =
              \<lparr>buffer = [Ptr 0, Ptr 1], head = 0, tail = 0, size_rb = 2, RingBuffer.capacity = 2\<rparr>,
            RingBufferCondPool.allocator = testAllocator, RingBufferCondPool.cleaner = testCleaner\<rparr>,
           \<lparr>RingBufferCondPool.ringBuffer =
              \<lparr>buffer = [Ptr 2, Ptr 3], head = 0, tail = 0, size_rb = 0, RingBuffer.capacity = 2\<rparr>,
            RingBufferCondPool.allocator = testAllocator, RingBufferCondPool.cleaner = testCleaner\<rparr>]\<rparr>)
        [\<lparr>ID = 0, Data = ''test'', shardIndex = - 1\<rparr>,
         \<lparr>ID = 0, Data = ''test'', shardIndex = - 1\<rparr>,
         \<lparr>ID = 0, Data = ''test'', shardIndex = 1\<rparr>,
         \<lparr>ID = 0, Data = ''test'', shardIndex = 1\<rparr>] = Inl Blocked"
    by (simp add: eval_defs eval_sharded_defs four numeral_2_eq_2)
  have e27: "NewShardedRingBufferCondPool 8 4 2 testAllocator testCleaner [] =
       Inr (\<lparr>ShardedRingBufferCondPool.shards =
          [\<lparr>RingBufferCondPool.ringBuffer =
              \<lparr>buffer = [Ptr 0, Ptr 1], head = 0, tail = 0, size_rb = 2, RingBuffer.capacity = 2\<rparr>,
            RingBufferCondPool.allocator = testAllocator, RingBufferCondPool.cleaner = testCleaner\<rparr>,
           \<lparr>RingBufferCondPool.ringBuffer =
              \<lparr>buffer = [Ptr 2, Ptr 3], head = 0, tail = 0, size_rb = 2, RingBuffer.capacity = 2\<rparr>,
            RingBufferCondPool.allocator = testAllocator, RingBufferCondPool.cleaner = testCleaner\<rparr>]\<rparr>,
        [\<lparr>ID = 0, Data = ''test'', shardIndex = - 1\<rparr>,
         \<lparr>ID = 0, Data = ''test'', shardIndex = - 1\<rparr>,
         \<lparr>ID = 0, Data = ''test'', shardIndex = - 1\<rparr>,
         \<lparr>ID = 0, Data = ''test'', shardIndex = - 1\<rparr>])"
    by (simp add: eval_defs eval_sharded_defs four numeral_2_eq_2)
  have e28: "repeat_Get (ShardedRingBufferCondPool_Get 1) 2
       (\<lparr>ShardedRingBufferCondPool.shards =
          [\<lparr>RingBufferCondPool.ringBuffer =
              \<lparr>buffer = [Ptr 0, Ptr 1], head = 0, tail = 0, size_rb = 2, RingBuffer.capacity = 2\<rparr>,
            RingBufferCondPool.allocator = testAllocator, RingBufferCondPool.cleaner = testCleaner\<rparr>,
           \<lparr>RingBufferCondPool.ringBuffer =
              \<lparr>buffer = [Ptr 2, Ptr 3], head = 0, tail = 0, size_rb = 2, RingBuffer.capacity = 2\<rparr>,
            RingBufferCondPool.allocator = testAllocator, RingBufferCondPool.cleaner = testCleaner\<rparr>]\<rparr>)
        [\<lparr>ID = 0, Data = ''test'', shardIndex = - 1\<rparr>,
         \<lparr>ID = 0, Data = ''test'', shardIndex = - 1\<rparr>,
         \<lparr>ID = 0, Data = ''test'', shardIndex = - 1\<rparr>,
         \<lparr>ID = 0, Data = ''test'', shardIndex = - 1\<rparr>] =
       Inr ([Ptr 2, Ptr 3],
        \<lparr>ShardedRingBufferCondPool.shards =
          [\<lparr>RingBufferCondPool.ringBuffer =
              \<lparr>buffer = [Ptr 0, Ptr 1], head = 0, tail = 0, size_rb = 2, RingBuffer.capacity = 2\<rparr>,
            RingBufferCondPool.allocator = testAllocator, RingBufferCondPool.cleaner = testCleaner\<rparr>,
           \<lparr>RingBufferCondPool.ringBuffer =
              \<lparr>buffer = [Ptr 2, Ptr 3], head = 0, tail = 0, size_rb = 0, RingBuffer.capacity = 2\<rparr>,
            RingBufferCondPool.allocator = testAllocator, RingBufferCondPool.cleaner = testCleaner\<rparr>]\<rparr>,
        [\<lparr>ID = 0, Data = ''test'', shardIndex = - 1\<rparr>,
         \<lparr>ID = 0, Data = ''test'', shardIndex = - 1\<rparr>,
         \<lparr>ID = 0, Data = ''test'', shardIndex = 1\<rparr>,
         \<lparr>ID = 0, Data = ''test'', shardIndex = 1\<rparr>])"
    by (simp add: eval_defs eval_sharded_defs four numeral_2_eq_2)
  have e29: "ShardedRingBufferCondPool_Get 1
       (\<lparr>ShardedRingBufferCondPool.shards =
          [\<lparr>RingBufferCondPool.ringBuffer =
              \<lparr>buffer = [Ptr 0, Ptr 1], head = 0, tail = 0, size_rb = 2, RingBuffer.capacity = 2\<rparr>,
            RingBufferCondPool.allocator = testAllocator, RingBufferCondPool.cleaner = testCleaner\<rparr>,
           \<lparr>RingBufferCondPool.ringBuffer =
              \<lparr>buffer = [Ptr 2, Ptr 3], head = 0, tail = 0, size_rb = 0, RingBuffer.capacity = 2\<rparr>,
            RingBufferCondPool.allocator = testAllocator, RingBufferCondPool.cleaner = testCleaner\<rparr>]\<rparr>)
        [\<lparr>ID = 0, Data = ''test'', shardIndex = - 1\<rparr>,
         \<lparr>ID = 0, Data = ''test'', shardIndex = - 1\<rparr>,
         \<lparr>ID = 0, Data = ''test'', shardIndex = 1\<rparr>,
         \<lparr>ID = 0, Data = ''test'', shardIndex = 1\<rparr>] = Inl Blocked"
    by (simp add: eval_defs eval_sharded_defs four numeral_2_eq_2)
  have e30: "NewShardedGoroutineIDPool 8 4 2 testAllocator testCleaner [] =
       Inr (\<lparr>ShardedGoroutineIDPool.shards =
          [\<lparr>MutexRingBufferPool.ringBuffer =
              \<lparr>buffer = [Ptr 0, Ptr 1], head = 0, tail = 0, size_rb = 2, RingBuffer.capacity = 2\<rparr>,
            MutexRingBufferPool.allocator = testAllocator, MutexRingBufferPool.cleaner = testCleaner\<rparr>,
           \<lparr>MutexRingBufferPool.ringBuffer =
              \<lparr>buffer = [Ptr 2, Ptr 3], head = 0, tail = 0, size_rb = 2, RingBuffer.capacity = 2\<rparr>,
            MutexRingBufferPool.allocator = testAllocator, MutexRingBufferPool.cleaner = testCleaner\<rparr>], numShards = 2\<rparr>,
        [\<lparr>ID = 0, Data = ''test'', shardIndex = - 1\<rparr>,
         \<lparr>ID = 0, Data = ''test'', shardIndex = - 1\<rparr>,
         \<lparr>ID = 0, Data = ''test'', shardIndex = - 1\<rparr>,
         \<lparr>ID = 0, Data = ''test'', shardIndex = - 1\<rparr>])"
    by (simp add: eval_defs eval_sharded_defs four numeral_2_eq_2)
  have e31: "repeat_Get (ShardedGoroutineIDPool_Get 4096) 2
       (\<lparr>ShardedGoroutineIDPool.shards =
          [\<lparr>MutexRingBufferPool.ringBuffer =
              \<lparr>buffer = [Ptr 0, Ptr 1], head = 0, tail = 0, size_rb = 2, RingBuffer.capacity = 2\<rparr>,
            MutexRingBufferPool.allocator = testAllocator, MutexRingBufferPool.cleaner = testCleaner\<rparr>,
           \<lparr>MutexRingBufferPool.ringBuffer =
              \<lparr>buffer = [Ptr 2, Ptr 3], head = 0, tail = 0, size_rb = 2, RingBuffer.capacity = 2\<rparr>,
            MutexRingBufferPool.allocator = testAllocator, MutexRingBufferPool.cleaner = testCleaner\<rparr>], numShards = 2\<rparr>)
        [\<lparr>ID = 0, Data = ''test'', shardIndex = - 1\<rparr>,
         \<lparr>ID = 0, Data = ''test'', shardIndex = - 1\<rparr>,
         \<lparr>ID = 0, Data = ''test'', shardIndex = - 1\<rparr>,
         \<lparr>ID = 0, Data = ''test'', shardIndex = - 1\<rparr>] =
       Inr ([Ptr 2, Ptr 3],
        \<lparr>ShardedGoroutineIDPool.shards =
          [\<lparr>MutexRingBufferPool.ringBuffer =
              \<lparr>buffer = [Ptr 0, Ptr 1], head = 0, tail = 0, size_rb = 2, RingBuffer.capacity = 2\<rparr>,
            MutexRingBufferPool.allocator = testAllocator, MutexRingBufferPool.cleaner = testCleaner\<rparr>,
           \<lparr>MutexRingBufferPool.ringBuffer =
              \<lparr>buffer = [Ptr 2, Ptr 3], head = 0, tail = 0, size_rb = 0, RingBuffer.capacity = 2\<rparr>,
            MutexRingBufferPool.allocator = testAllocator, MutexRingBufferPool.cleaner = testCleaner\<rparr>], numShards = 2\<rparr>,
        [\<lparr>ID = 0, Data = ''test'', shardIndex = - 1\<rparr>,
         \<lparr>ID = 0, Data = ''test'', shardIndex = - 1\<rparr>,
         \<lparr>ID = 0, Data = ''test'', shardIndex = - 1\<rparr>,
         \<lparr>ID = 0, Data = ''test'', shardIndex = - 1\<rparr>])"
    by (simp add: eval_defs ShardedGoroutineIDPool_Get_def getShard_def repeat_Get_two)
  have e32: "ShardedGoroutineIDPool_Get 4096
       (\<lparr>ShardedGoroutineIDPool.shards =
          [\<lparr>MutexRingBufferPool.ringBuffer =
              \<lparr>buffer = [Ptr 0, Ptr 1], head = 0, tail = 0, size_rb = 2, RingBuffer.capacity = 2\<rparr>,
            MutexRingBufferPool.allocator = testAllocator, MutexRingBufferPool.cleaner = testCleaner\<rparr>,
           \<lparr>MutexRingBufferPool.ringBuffer =
              \<lparr>buffer = [Ptr 2, Ptr 3], head = 0, tail = 0, size_rb = 0, RingBuffer.capacity = 2\<rparr>,
            MutexRingBufferPool.allocator = testAllocator, MutexRingBufferPool.cleaner = testCleaner\<rparr>], numShards = 2\<rparr>)
        [\<lparr>ID = 0, Data = ''test'', shardIndex = - 1\<rparr>,
         \<lparr>ID = 0, Data = ''test'', shardIndex = - 1\<rparr>,
         \<lparr>ID = 0, Data = ''test'', shardIndex = - 1\<rparr>,
         \<lparr>ID = 0, Data = ''test'', shardIndex = - 1\<rparr>] =
       Inr (Ptr 4,
        \<lparr>ShardedGoroutineIDPool.shards =
          [\<lparr>MutexRingBufferPool.ringBuffer =
              \<lparr>buffer = [Ptr 0, Ptr 1], head = 0, tail = 0, size_rb = 2, RingBuffer.capacity = 2\<rparr>,
            MutexRingBufferPool.allocator = testAllocator, MutexRingBufferPool.cleaner = testCleaner\<rparr>,
           \<lparr>MutexRingBufferPool.ringBuffer =
              \<lparr>buffer = [Ptr 2, Ptr 3], head = 0, tail = 0, size_rb = 0, RingBuffer.capacity = 2\<rparr>,
            MutexRingBufferPool.allocator = testAllocator, MutexRingBufferPool.cleaner = testCleaner\<rparr>], numShards = 2\<rparr>,
        [\<lparr>ID = 0, Data = ''test'', shardIndex = - 1\<rparr>,
         \<lparr>ID = 0, Data = ''test'', shardIndex = - 1\<rparr>,
         \<lparr>ID = 0, Data = ''test'', shardIndex = - 1\<rparr>,
         \<lparr>ID = 0, Data = ''test'', shardIndex = - 1\<rparr>,
         \<lparr>ID = 0, Data = ''test'', shardIndex = - 1\<rparr>])"
    by (simp add: eval_defs ShardedGoroutineIDPool_Get_def getShard_def repeat_Get_two)
  note t = fresh_pool_Gets_distinct[OF a m k s, where clean = testCleaner
      and wi = "[]" and pid = 1
      and pm = "\<lparr>MutexRingBufferPool.ringBuffer =
           \<lparr>buffer = [Ptr 0, Ptr 1, Ptr 2, Ptr 3], head = 0, tail = 0, size_rb = 4, RingBuffer.capacity = 4\<rparr>,
         MutexRingBufferPool.allocator = testAllocator, MutexRingBufferPool.cleaner = testCleaner\<rparr>"
      and wm = "[\<lparr>ID = 0, Data = ''test'', shardIndex = - 1\<rparr>,
         \<lparr>ID = 0, Data = ''test'', shardIndex = - 1\<rparr>,
         \<lparr>ID = 0, Data = ''test'', shardIndex = - 1\<rparr>,
         \<lparr>ID = 0, Data = ''test'', shardIndex = - 1\<rparr>]"
      and pr = "\<lparr>RWMutexRingBufferPool.ringBuffer =
           \<lparr>buffer = [Ptr 0, Ptr 1, Ptr 2, Ptr 3], head = 0, tail = 0, size_rb = 4, RingBuffer.capacity = 4\<rparr>,
         RWMutexRingBufferPool.allocator = testAllocator, RWMutexRingBufferPool.cleaner = testCleaner\<rparr>"
      and wr = "[\<lparr>ID = 0, Data = ''test'', shardIndex = - 1\<rparr>,
         \<lparr>ID = 0, Data = ''test'', shardIndex = - 1\<rparr>,
         \<lparr>ID = 0, Data = ''test'', shardIndex = - 1\<rparr>,
         \<lparr>ID = 0, Data = ''test'', shardIndex = - 1\<rparr>]"
      and pq = "\<lparr>RingBufferCondPool.ringBuffer =
           \<lparr>buffer = [Ptr 0, Ptr 1, Ptr 2, Ptr 3], head = 0, tail = 0, size_rb = 4, RingBuffer.capacity = 4\<rparr>,
         RingBufferCondPool.allocator = testAllocator, RingBufferCondPool.cleaner = testCleaner\<rparr>"
      and wq = "[\<lparr>ID = 0, Data = ''test'', shardIndex = - 1\<rparr>,
         \<lparr>ID = 0, Data = ''test'', shardIndex = - 1\<rparr>,
         \<lparr>ID = 0, Data = ''test'', shardIndex = - 1\<rparr>,
         \<lparr>ID = 0, Data = ''test'', shardIndex = - 1\<rparr>]"
      and pc = "\<lparr>ChannelBasedPool.objects = \<lparr>queue = [Ptr 0, Ptr 1, Ptr 2, Ptr 3], chan_cap = 4\<rparr>,
         ChannelBasedPool.allocator = testAllocator, ChannelBasedPool.cleaner = testCleaner\<rparr>"
      and wc = "[\<lparr>ID = 0, Data = ''test'', shardIndex = - 1\<rparr>,
         \<lparr>ID = 0, Data = ''test'', shardIndex = - 1\<rparr>,
         \<lparr>ID = 0, Data = ''test'', shardIndex = - 1\<rparr>,
         \<lparr>ID = 0, Data = ''test'', shardIndex = - 1\<rparr>]"
      and ps = "\<lparr>MutexBasedPool.objects = \<lparr>elems = [Ptr 0, Ptr 1, Ptr 2, Ptr 3], slice_cap = 4\<rparr>,
         MutexBasedPool.allocator = testAllocator, MutexBasedPool.cleaner = testCleaner\<rparr>"
      and ws = "[\<lparr>ID = 0, Data = ''test'', shardIndex = - 1\<rparr>,
         \<lparr>ID = 0, Data = ''test'', shardIndex = - 1\<rparr>,
         \<lparr>ID = 0, Data = ''test'', shardIndex = - 1\<rparr>,
         \<lparr>ID = 0, Data = ''test'', shardIndex = - 1\<rparr>]"
      and pd = "\<lparr>CondBasedPool.objects = \<lparr>elems = [Ptr 0, Ptr 1, Ptr 2, Ptr 3], slice_cap = 4\<rparr>,
         CondBasedPool.allocator = testAllocator, CondBasedPool.cleaner = testCleaner\<rparr>"
      and wd = "[\<lparr>ID = 0, Data = ''test'', shardIndex = - 1\<rparr>,
         \<lparr>ID = 0, Data = ''test'', shardIndex = - 1\<rparr>,
         \<lparr>ID = 0, Data = ''test'', shardIndex = - 1\<rparr>,
         \<lparr>ID = 0, Data = ''test'', shardIndex = - 1\<rparr>]"
      and pa = "\<lparr>AtomicBasedPool.objects = [Ptr 0, Ptr 1, Ptr 2, Ptr 3], index = 4, AtomicBasedPool.capacity = 4,
         AtomicBasedPool.allocator = testAllocator, AtomicBasedPool.cleaner = testCleaner\<rparr>"
      and wa = "[\<lparr>ID = 0, Data = ''test'', shardIndex = - 1\<rparr>,
         \<lparr>ID = 0, Data = ''test'', shardIndex = - 1\<rparr>,
         \<lparr>ID = 0, Data = ''test'', shardIndex = - 1\<rparr>,
         \<lparr>ID = 0, Data = ''test'', shardIndex = - 1\<rparr>]"
      and sm = "\<lparr>ShardedMutexRingBufferPool.shards =
          [\<lparr>MutexRingBufferPool.ringBuffer =
              \<lparr>buffer = [Ptr 0, Ptr 1], head = 0, tail = 0, size_rb = 2, RingBuffer.capacity = 2\<rparr>,
            MutexRingBufferPool.allocator = testAllocator, MutexRingBufferPool.cleaner = testCleaner\<rparr>,
           \<lparr>MutexRingBufferPool.ringBuffer =
              \<lparr>buffer = [Ptr 2, Ptr 3], head = 0, tail = 0, size_rb = 2, RingBuffer.capacity = 2\<rparr>,
            MutexRingBufferPool.allocator = testAllocator, MutexRingBufferPool.cleaner = testCleaner\<rparr>]\<rparr>"
      and vm = "[\<lparr>ID = 0, Data = ''test'', shardIndex = - 1\<rparr>,
         \<lparr>ID = 0, Data = ''test'', shardIndex = - 1\<rparr>,
         \<lparr>ID = 0, Data = ''test'', shardIndex = - 1\<rparr>,
         \<lparr>ID = 0, Data = ''test'', shardIndex = - 1\<rparr>]"
      and sc = "\<lparr>ShardedChannelBasedPool.shards =
          [\<lparr>ChannelBasedPool.objects = \<lparr>queue = [Ptr 0, Ptr 1], chan_cap = 2\<rparr>,
            ChannelBasedPool.allocator = testAllocator, ChannelBasedPool.cleaner = testCleaner\<rparr>,
           \<lparr>ChannelBasedPool.objects = \<lparr>queue = [Ptr 2, Ptr 3], chan_cap = 2\<rparr>,
            ChannelBasedPool.allocator = testAllocator, ChannelBasedPool.cleaner = testCleaner\<rparr>]\<rparr>"
      and vc = "[\<lparr>ID = 0, Data = ''test'', shardIndex = - 1\<rparr>,
         \<lparr>ID = 0, Data = ''test'', shardIndex = - 1\<rparr>,
         \<lparr>ID = 0, Data = ''test'', shardIndex = - 1\<rparr>,
         \<lparr>ID = 0, Data = ''test'', shardIndex = - 1\<rparr>]"
      and sa = "\<lparr>ShardedAtomicBasedPool.shards =
          [\<lparr>AtomicBasedPool.objects = [Ptr 0, Ptr 1], index = 2, AtomicBasedPool.capacity = 2,
            AtomicBasedPool.allocator = testAllocator, AtomicBasedPool.cleaner = testCleaner\<rparr>,
           \<lparr>AtomicBasedPool.objects = [Ptr 2, Ptr 3], index = 2, AtomicBasedPool.capacity = 2,
            AtomicBasedPool.allocator = testAllocator, AtomicBasedPool.cleaner = testCleaner\<rparr>]\<rparr>"
      and va = "[\<lparr>ID = 0, Data = ''test'', shardIndex = - 1\<rparr>,
         \<lparr>ID = 0, Data = ''test'', shardIndex = - 1\<rparr>,
         \<lparr>ID = 0, Data = ''test'', shardIndex = - 1\<rparr>,
         \<lparr>ID = 0, Data = ''test'', shardIndex = - 1\<rparr>]"
      and sd = "\<lparr>ShardedCondBasedPool.shards =
          [\<lparr>RingBufferCondPool.ringBuffer =
              \<lparr>buffer = [Ptr 0, Ptr 1], head = 0, tail = 0, size_rb = 2, RingBuffer.capacity = 2\<rparr>,
            RingBufferCondPool.allocator = testAllocator, RingBufferCondPool.cleaner = testCleaner\<rparr>,
           \<lparr>RingBufferCondPool.ringBuffer =
              \<lparr>buffer = [Ptr 2, Ptr 3], head = 0, tail = 0, size_rb = 2, RingBuffer.capacity = 2\<rparr>,
            RingBufferCondPool.allocator = testAllocator, RingBufferCondPool.cleaner = testCleaner\<rparr>]\<rparr>"
      and vd = "[\<lparr>ID = 0, Data = ''test'', shardIndex = - 1\<rparr>,
         \<lparr>ID = 0, Data = ''test'', shardIndex = - 1\<rparr>,
         \<lparr>ID = 0, Data = ''test'', shardIndex = - 1\<rparr>,
         \<lparr>ID = 0, Data = ''test'', shardIndex = - 1\<rparr>]"
      and sq = "\<lparr>ShardedRingBufferCondPool.shards =
          [\<lparr>RingBufferCondPool.ringBuffer =
              \<lparr>buffer = [Ptr 0, Ptr 1], head = 0, tail = 0, size_rb = 2, RingBuffer.capacity = 2\<rparr>,
            RingBufferCondPool.allocator = testAllocator, RingBufferCondPool.cleaner = testCleaner\<rparr>,
           \<lparr>RingBufferCondPool.ringBuffer =
              \<lparr>buffer = [Ptr 2, Ptr 3], head = 0, tail = 0, size_rb = 2, RingBuffer.capacity = 2\<rparr>,
            RingBufferCondPool.allocator = testAllocator, RingBufferCondPool.cleaner = testCleaner\<rparr>]\<rparr>"
      and vq = "[\<lparr>ID = 0, Data = ''test'', shardIndex = - 1\<rparr>,
         \<lparr>ID = 0, Data = ''test'', shardIndex = - 1\<rparr>,
         \<lparr>ID = 0, Data = ''test'', shardIndex = - 1\<rparr>,
         \<lparr>ID = 0, Data = ''test'', shardIndex = - 1\<rparr>]"
      and sg = "\<lparr>ShardedGoroutineIDPool.shards =
          [\<lparr>MutexRingBufferPool.ringBuffer =
              \<lparr>buffer = [Ptr 0, Ptr 1], head = 0, tail = 0, size_rb = 2, RingBuffer.capacity = 2\<rparr>,
            MutexRingBufferPool.allocator = testAllocator, MutexRingBufferPool.cleaner = testCleaner\<rparr>,
           \<lparr>MutexRingBufferPool.ringBuffer =
              \<lparr>buffer = [Ptr 2, Ptr 3], head = 0, tail = 0, size_rb = 2, RingBuffer.capacity = 2\<rparr>,
            MutexRingBufferPool.allocator = testAllocator, MutexRingBufferPool.cleaner = testCleaner\<rparr>], numShards = 2\<rparr>"
      and vg = "[\<lparr>ID = 0, Data = ''test'', shardIndex = - 1\<rparr>,
         \<lparr>ID = 0, Data = ''test'', shardIndex = - 1\<rparr>,
         \<lparr>ID = 0, Data = ''test'', shardIndex = - 1\<rparr>,
         \<lparr>ID = 0, Data = ''test'', shardIndex = - 1\<rparr>]"]
  note c1 = t[THEN conjunct1, THEN mp, OF e1] and t1 = t[THEN conjunct2]
  note c2 = t1[THEN conjunct1, THEN mp, OF e3] and t2 = t1[THEN conjunct2]
  note c3 = t2[THEN conjunct1, THEN mp, OF e5] and t3 = t2[THEN conjunct2]
  note c4 = t3[THEN conjunct1, THEN mp, OF e7] and t4 = t3[THEN conjunct2]
  note c5 = t4[THEN conjunct1, THEN mp, OF e9] and t5 = t4[THEN conjunct2]
  note c6 = t5[THEN conjunct1, THEN mp, OF e11] and t6 = t5[THEN conjunct2]
  note c7 = t6[THEN conjunct1, THEN mp, OF e13] and t7 = t6[THEN conjunct2]
  note c8 = t7[THEN conjunct1, THEN mp, OF e15] and t8 = t7[THEN conjunct2]
  note c9 = t8[THEN conjunct1, THEN mp, OF e18] and t9 = t8[THEN conjunct2]
  note c10 = t9[THEN conjunct1, THEN mp, OF e21] and t10 = t9[THEN conjunct2]
  note c11 = t10[THEN conjunct1, THEN mp, OF e24] and t11 = t10[THEN conjunct2]
  note c12 = t11[THEN conjunct1, THEN mp, OF e27] and t12 = t11[THEN conjunct2]
  note c13 = t12[THEN mp, OF e30]
  from c1 c2 c3 c4 c5 c6 c7 c8 c9 c10 c11 c12 c13 show ?thesis
    by (intro conjI)
       (rule a m k r s e1 e2 e3 e4 e5 e6 e7 e8 e9 e10 e11 e12
          e13 e14 e15 e16 e17 e18 e19 e20 e21 e22 e23
          e24 e25 e26 e27 e28 e29 e30 e31 e32)+
qed

section \<open>Claims about the order of the objects\<close>

text \<open>
  Claim C9. Take a segment in a state \<open>p\<close> that it reaches from its constructor by any
  sequence of \<^verbatim>\<open>Get\<close> and \<^verbatim>\<open>Put\<close> calls, put the objects \<open>xs\<close> into it one after the
  other with room for all of them, and then call \<^verbatim>\<open>Get\<close> \<open>n\<close> times, \<open>n\<close> at most the
  number of objects now held. The ring-buffer pools and the channel pool return the
  objects held in \<open>p\<close>, oldest first, and then \<open>xs\<close> in the order put (first in, first
  out). The lock-free pool and the slice pools return \<open>xs\<close> last put first, and then
  the objects held in \<open>p\<close>, newest first (last in, first out).
\<close>

theorem Get_order_follows_structure:
  "(NewMutexRingBufferPool c alloc clean wi = Inr (pmi, wmi) \<and>
    run_ops MutexRingBufferPool_Get MutexRingBufferPool_Put ops pmi wmi = Inr (pm, wm) \<and>
    size_rb (MutexRingBufferPool.ringBuffer pm) + int (length xs) \<le> c \<and>
    n \<le> nat (size_rb (MutexRingBufferPool.ringBuffer pm)) + length xs \<longrightarrow>
    (\<exists>p1. repeat_Put MutexRingBufferPool_Put xs pm wm = Inr (p1, wm) \<and>
       (\<exists>p2. repeat_Get MutexRingBufferPool_Get n p1 wm =
          Inr (take n (rb_contents (MutexRingBufferPool.ringBuffer pm) @ xs), p2, wm)))) \<and>
   (NewRWMutexRingBufferPool c alloc clean wi = Inr (pri, wri) \<and>
    run_ops RWMutexRingBufferPool_Get RWMutexRingBufferPool_Put ops pri wri = Inr (pr, wr) \<and>
    size_rb (RWMutexRingBufferPool.ringBuffer pr) + int (length xs) \<le> c \<and>
    n \<le> nat (size_rb (RWMutexRingBufferPool.ringBuffer pr)) + length xs \<longrightarrow>
    (\<exists>p1. repeat_Put RWMutexRingBufferPool_Put xs pr wr = Inr (p1, wr) \<and>
       (\<exists>p2. repeat_Get RWMutexRingBufferPool_Get n p1 wr =
          Inr (take n (rb_contents (RWMutexRingBufferPool.ringBuffer pr) @ xs), p2, wr)))) \<and>
   (NewRingBufferCondPool c alloc clean wi = Inr (pqi, wqi) \<and>
    run_ops RingBufferCondPool_Get RingBufferCondPool_Put ops pqi wqi = Inr (pq, wq) \<and>
    size_rb (RingBufferCondPool.ringBuffer pq) + int (length xs) \<le> c \<and>
    n \<le> nat (size_rb (RingBufferCondPool.ringBuffer pq)) + length xs \<longrightarrow>
    (\<exists>p1. repeat_Put RingBufferCondPool_Put xs pq wq = Inr (p1, wq) \<and>
       (\<exists>p2. repeat_Get RingBufferCondPool_Get n p1 wq =
          Inr (take n (rb_contents (RingBufferCondPool.ringBuffer pq) @ xs), p2, wq)))) \<and>
   (repeat_Put ChannelBasedPool_Put xs pc wc = Inr (pcx, wcx) \<and>
    n \<le> length (queue (ChannelBasedPool.objects pc)) + length xs \<longrightarrow>
    (\<exists>p2. repeat_Get ChannelBasedPool_Get n pcx wcx =
       Inr (take n (queue (ChannelBasedPool.objects pc) @ xs), p2, wcx))) \<and>
   (NewAtomicBasedPool c alloc clean wi = Inr (pai, wai) \<and>
    run_ops AtomicBasedPool_Get AtomicBasedPool_Put ops pai wai = Inr (pa, wa) \<and>
    index pa + int (length xs) \<le> c \<and> n \<le> nat (index pa) + length xs \<longrightarrow>
    (\<exists>p1. repeat_Put AtomicBasedPool_Put xs pa wa = Inr (p1, wa) \<and>
       (\<exists>p2. repeat_Get AtomicBasedPool_Get n p1 wa =
          Inr (take n (rev (atomic_contents pa @ xs)), p2, wa)))) \<and>
   (len (MutexBasedPool.objects ps) + int (length xs) \<le> slice_cap (MutexBasedPool.objects ps) \<and>
    n \<le> length (elems (MutexBasedPool.objects ps)) + length xs \<longrightarrow>
    (\<exists>p1. repeat_Put MutexBasedPool_Put xs ps ws = Inr (p1, ws) \<and>
       (\<exists>p2. repeat_Get MutexBasedPool_Get n p1 ws =
          Inr (take n (rev (elems (MutexBasedPool.objects ps) @ xs)), p2, ws)))) \<and>
   (len (CondBasedPool.objects pd) + int (length xs) \<le> slice_cap (CondBasedPool.objects pd) \<and>
    n \<le> length (elems (CondBasedPool.objects pd)) + length xs \<longrightarrow>
    (\<exists>p1. repeat_Put CondBasedPool_Put xs pd wd = Inr (p1, wd) \<and>
       (\<exists>p2. repeat_Get CondBasedPool_Get n p1 wd =
          Inr (take n (rev (elems (CondBasedPool.objects pd) @ xs)), p2, wd))))"
  using MutexRingBufferPool_order_reachable[of c alloc clean wi pmi wmi ops pm wm xs n]
    RWMutexRingBufferPool_order_reachable[of c alloc clean wi pri wri ops pr wr xs n]
    RingBufferCondPool_order_reachable[of c alloc clean wi pqi wqi ops pq wq xs n]
    ChannelBasedPool_order[of xs pc wc pcx wcx n]
    AtomicBasedPool_order_reachable[of c alloc clean wi pai wai ops pa wa xs n]
    MutexBasedPool_order[of ps xs n ws]
    CondBasedPool_order[of pd xs n wd]
  by blast

theorem Get_order_follows_structure_witness:
  "NewMutexRingBufferPool 3 testAllocator testCleaner [] =
     Inr (\<lparr>MutexRingBufferPool.ringBuffer =
          \<lparr>buffer = [Ptr 0, Ptr 1, Ptr 2], head = 0, tail = 0, size_rb = 3,
             RingBuffer.capacity = 3\<rparr>,
        MutexRingBufferPool.allocator = testAllocator, MutexRingBufferPool.cleaner = testCleaner\<rparr>,
      [\<lparr>ID = 0, Data = ''test'', shardIndex = - 1\<rparr>,
       \<lparr>ID = 0, Data = ''test'', shardIndex = - 1\<rparr>,
       \<lparr>ID = 0, Data = ''test'', shardIndex = - 1\<rparr>]) \<and>
   run_ops MutexRingBufferPool_Get MutexRingBufferPool_Put [DoGet, DoGet]
       \<lparr>MutexRingBufferPool.ringBuffer =
          \<lparr>buffer = [Ptr 0, Ptr 1, Ptr 2], head = 0, tail = 0, size_rb = 3,
             RingBuffer.capacity = 3\<rparr>,
        MutexRingBufferPool.allocator = testAllocator, MutexRingBufferPool.cleaner = testCleaner\<rparr>
      [\<lparr>ID = 0, Data = ''test'', shardIndex = - 1\<rparr>,
       \<lparr>ID = 0, Data = ''test'', shardIndex = - 1\<rparr>,
       \<lparr>ID = 0, Data = ''test'', shardIndex = - 1\<rparr>] =
     Inr (\<lparr>MutexRingBufferPool.ringBuffer =
          \<lparr>buffer = [Ptr 0, Ptr 1, Ptr 2], head = 2, tail = 0, size_rb = 1,
             RingBuffer.capacity = 3\<rparr>,
        MutexRingBufferPool.allocator = testAllocator, MutexRingBufferPool.cleaner = testCleaner\<rparr>,
      [\<lparr>ID = 0, Data = ''test'', shardIndex = - 1\<rparr>,
       \<lparr>ID = 0, Data = ''test'', shardIndex = - 1\<rparr>,
       \<lparr>ID = 0, Data = ''test'', shardIndex = - 1\<rparr>]) \<and>
   (\<exists>p1. repeat_Put MutexRingBufferPool_Put [Ptr 0, Ptr 1]
       \<lparr>MutexRingBufferPool.ringBuffer =
          \<lparr>buffer = [Ptr 0, Ptr 1, Ptr 2], head = 2, tail = 0, size_rb = 1,
             RingBuffer.capacity = 3\<rparr>,
        MutexRingBufferPool.allocator = testAllocator, MutexRingBufferPool.cleaner = testCleaner\<rparr>
      [\<lparr>ID = 0, Data = ''test'', shardIndex = - 1\<rparr>,
       \<lparr>ID = 0, Data = ''test'', shardIndex = - 1\<rparr>,
       \<lparr>ID = 0, Data = ''test'', shardIndex = - 1\<rparr>] = Inr (p1,
      [\<lparr>ID = 0, Data = ''test'', shardIndex = - 1\<rparr>,
       \<lparr>ID = 0, Data = ''test'', shardIndex = - 1\<rparr>,
       \<lparr>ID = 0, Data = ''test'', shardIndex = - 1\<rparr>]) \<and>
      (\<exists>p2. repeat_Get MutexRingBufferPool_Get 3 p1
      [\<lparr>ID = 0, Data = ''test'', shardIndex = - 1\<rparr>,
       \<lparr>ID = 0, Data = ''test'', shardIndex = - 1\<rparr>,
       \<lparr>ID = 0, Data = ''test'', shardIndex = - 1\<rparr>] = Inr ([Ptr 2, Ptr 0, Ptr 1], p2,
      [\<lparr>ID = 0, Data = ''test'', shardIndex = - 1\<rparr>,
       \<lparr>ID = 0, Data = ''test'', shardIndex = - 1\<rparr>,
       \<lparr>ID = 0, Data = ''test'', shardIndex = - 1\<rparr>]))) \<and>
   NewRWMutexRingBufferPool 3 testAllocator testCleaner [] =
     Inr (\<lparr>RWMutexRingBufferPool.ringBuffer =
          \<lparr>buffer = [Ptr 0, Ptr 1, Ptr 2], head = 0, tail = 0, size_rb = 3,
             RingBuffer.capacity = 3\<rparr>,
        RWMutexRingBufferPool.allocator = testAllocator,
          RWMutexRingBufferPool.cleaner = testCleaner\<rparr>,
      [\<lparr>ID = 0, Data = ''test'', shardIndex = - 1\<rparr>,
       \<lparr>ID = 0, Data = ''test'', shardIndex = - 1\<rparr>,
       \<lparr>ID = 0, Data = ''test'', shardIndex = - 1\<rparr>]) \<and>
   run_ops RWMutexRingBufferPool_Get RWMutexRingBufferPool_Put [DoGet, DoGet]
       \<lparr>RWMutexRingBufferPool.ringBuffer =
          \<lparr>buffer = [Ptr 0, Ptr 1, Ptr 2], head = 0, tail = 0, size_rb = 3,
             RingBuffer.capacity = 3\<rparr>,
        RWMutexRingBufferPool.allocator = testAllocator,
          RWMutexRingBufferPool.cleaner = testCleaner\<rparr>
      [\<lparr>ID = 0, Data = ''test'', shardIndex = - 1\<rparr>,
       \<lparr>ID = 0, Data = ''test'', shardIndex = - 1\<rparr>,
       \<lparr>ID = 0, Data = ''test'', shardIndex = - 1\<rparr>] =
     Inr (\<lparr>RWMutexRingBufferPool.ringBuffer =
          \<lparr>buffer = [Ptr 0, Ptr 1, Ptr 2], head = 2, tail = 0, size_rb = 1,
             RingBuffer.capacity = 3\<rparr>,
        RWMutexRingBufferPool.allocator = testAllocator,
          RWMutexRingBufferPool.cleaner = testCleaner\<rparr>,
      [\<lparr>ID = 0, Data = ''test'', shardIndex = - 1\<rparr>,
       \<lparr>ID = 0, Data = ''test'', shardIndex = - 1\<rparr>,
       \<lparr>ID = 0, Data = ''test'', shardIndex = - 1\<rparr>]) \<and>
   (\<exists>p1. repeat_Put RWMutexRingBufferPool_Put [Ptr 0, Ptr 1]
       \<lparr>RWMutexRingBufferPool.ringBuffer =
          \<lparr>buffer = [Ptr 0, Ptr 1, Ptr 2], head = 2, tail = 0, size_rb = 1,
             RingBuffer.capacity = 3\<rparr>,
        RWMutexRingBufferPool.allocator = testAllocator,
          RWMutexRingBufferPool.cleaner = testCleaner\<rparr>
      [\<lparr>ID = 0, Data = ''test'', shardIndex = - 1\<rparr>,
       \<lparr>ID = 0, Data = ''test'', shardIndex = - 1\<rparr>,
       \<lparr>ID = 0, Data = ''test'', shardIndex = - 1\<rparr>] = Inr (p1,
      [\<lparr>ID = 0, Data = ''test'', shardIndex = - 1\<rparr>,
       \<lparr>ID = 0, Data = ''test'', shardIndex = - 1\<rparr>,
       \<lparr>ID = 0, Data = ''test'', shardIndex = - 1\<rparr>]) \<and>
      (\<exists>p2. repeat_Get RWMutexRingBufferPool_Get 3 p1
      [\<lparr>ID = 0, Data = ''test'', shardIndex = - 1\<rparr>,
       \<lparr>ID = 0, Data = ''test'', shardIndex = - 1\<rparr>,
       \<lparr>ID = 0, Data = ''test'', shardIndex = - 1\<rparr>] = Inr ([Ptr 2, Ptr 0, Ptr 1], p2,
      [\<lparr>ID = 0, Data = ''test'', shardIndex = - 1\<rparr>,
       \<lparr>ID = 0, Data = ''test'', shardIndex = - 1\<rparr>,
       \<lparr>ID = 0, Data = ''test'', shardIndex = - 1\<rparr>]))) \<and>
   NewRingBufferCondPool 3 testAllocator testCleaner [] =
     Inr (\<lparr>RingBufferCondPool.ringBuffer =
          \<lparr>buffer = [Ptr 0, Ptr 1, Ptr 2], head = 0, tail = 0, size_rb = 3,
             RingBuffer.capacity = 3\<rparr>,
        RingBufferCondPool.allocator = testAllocator, RingBufferCondPool.cleaner = testCleaner\<rparr>,
      [\<lparr>ID = 0, Data = ''test'', shardIndex = - 1\<rparr>,
       \<lparr>ID = 0, Data = ''test'', shardIndex = - 1\<rparr>,
       \<lparr>ID = 0, Data = ''test'', shardIndex = - 1\<rparr>]) \<and>
   run_ops RingBufferCondPool_Get RingBufferCondPool_Put [DoGet, DoGet]
       \<lparr>RingBufferCondPool.ringBuffer =
          \<lparr>buffer = [Ptr 0, Ptr 1, Ptr 2], head = 0, tail = 0, size_rb = 3,
             RingBuffer.capacity = 3\<rparr>,
        RingBufferCondPool.allocator = testAllocator, RingBufferCondPool.cleaner = testCleaner\<rparr>
      [\<lparr>ID = 0, Data = ''test'', shardIndex = - 1\<rparr>,
       \<lparr>ID = 0, Data = ''test'', shardIndex = - 1\<rparr>,
       \<lparr>ID = 0, Data = ''test'', shardIndex = - 1\<rparr>] =
     Inr (\<lparr>RingBufferCondPool.ringBuffer =
          \<lparr>buffer = [Ptr 0, Ptr 1, Ptr 2], head = 2, tail = 0, size_rb = 1,
             RingBuffer.capacity = 3\<rparr>,
        RingBufferCondPool.allocator = testAllocator, RingBufferCondPool.cleaner = testCleaner\<rparr>,
      [\<lparr>ID = 0, Data = ''test'', shardIndex = - 1\<rparr>,
       \<lparr>ID = 0, Data = ''test'', shardIndex = - 1\<rparr>,
       \<lparr>ID = 0, Data = ''test'', shardIndex = - 1\<rparr>]) \<and>
   (\<exists>p1. repeat_Put RingBufferCondPool_Put [Ptr 0, Ptr 1]
       \<lparr>RingBufferCondPool.ringBuffer =
          \<lparr>buffer = [Ptr 0, Ptr 1, Ptr 2], head = 2, tail = 0, size_rb = 1,
             RingBuffer.capacity = 3\<rparr>,
        RingBufferCondPool.allocator = testAllocator, RingBufferCondPool.cleaner = testCleaner\<rparr>
      [\<lparr>ID = 0, Data = ''test'', shardIndex = - 1\<rparr>,
       \<lparr>ID = 0, Data = ''test'', shardIndex = - 1\<rparr>,
       \<lparr>ID = 0, Data = ''test'', shardIndex = - 1\<rparr>] = Inr (p1,
      [\<lparr>ID = 0, Data = ''test'', shardIndex = - 1\<rparr>,
       \<lparr>ID = 0, Data = ''test'', shardIndex = - 1\<rparr>,
       \<lparr>ID = 0, Data = ''test'', shardIndex = - 1\<rparr>]) \<and>
      (\<exists>p2. repeat_Get RingBufferCondPool_Get 3 p1
      [\<lparr>ID = 0, Data = ''test'', shardIndex = - 1\<rparr>,
       \<lparr>ID = 0, Data = ''test'', shardIndex = - 1\<rparr>,
       \<lparr>ID = 0, Data = ''test'', shardIndex = - 1\<rparr>] = Inr ([Ptr 2, Ptr 0, Ptr 1], p2,
      [\<lparr>ID = 0, Data = ''test'', shardIndex = - 1\<rparr>,
       \<lparr>ID = 0, Data = ''test'', shardIndex = - 1\<rparr>,
       \<lparr>ID = 0, Data = ''test'', shardIndex = - 1\<rparr>]))) \<and>
   NewAtomicBasedPool 3 testAllocator testCleaner [] =
     Inr (\<lparr>AtomicBasedPool.objects = [Ptr 0, Ptr 1, Ptr 2], index = 3, AtomicBasedPool.capacity = 3,
        AtomicBasedPool.allocator = testAllocator, AtomicBasedPool.cleaner = testCleaner\<rparr>,
      [\<lparr>ID = 0, Data = ''test'', shardIndex = - 1\<rparr>,
       \<lparr>ID = 0, Data = ''test'', shardIndex = - 1\<rparr>,
       \<lparr>ID = 0, Data = ''test'', shardIndex = - 1\<rparr>]) \<and>
   run_ops AtomicBasedPool_Get AtomicBasedPool_Put [DoGet, DoGet]
       \<lparr>AtomicBasedPool.objects = [Ptr 0, Ptr 1, Ptr 2], index = 3, AtomicBasedPool.capacity = 3,
        AtomicBasedPool.allocator = testAllocator, AtomicBasedPool.cleaner = testCleaner\<rparr>
      [\<lparr>ID = 0, Data = ''test'', shardIndex = - 1\<rparr>,
       \<lparr>ID = 0, Data = ''test'', shardIndex = - 1\<rparr>,
       \<lparr>ID = 0, Data = ''test'', shardIndex = - 1\<rparr>] =
     Inr (\<lparr>AtomicBasedPool.objects = [Ptr 0, Ptr 1, Ptr 2], index = 1, AtomicBasedPool.capacity = 3,
        AtomicBasedPool.allocator = testAllocator, AtomicBasedPool.cleaner = testCleaner\<rparr>,
      [\<lparr>ID = 0, Data = ''test'', shardIndex = - 1\<rparr>,
       \<lparr>ID = 0, Data = ''test'', shardIndex = - 1\<rparr>,
       \<lparr>ID = 0, Data = ''test'', shardIndex = - 1\<rparr>]) \<and>
   (\<exists>p1. repeat_Put AtomicBasedPool_Put [Ptr 0, Ptr 1]
       \<lparr>AtomicBasedPool.objects = [Ptr 0, Ptr 1, Ptr 2], index = 1, AtomicBasedPool.capacity = 3,
        AtomicBasedPool.allocator = testAllocator, AtomicBasedPool.cleaner = testCleaner\<rparr>
      [\<lparr>ID = 0, Data = ''test'', shardIndex = - 1\<rparr>,
       \<lparr>ID = 0, Data = ''test'', shardIndex = - 1\<rparr>,
       \<lparr>ID = 0, Data = ''test'', shardIndex = - 1\<rparr>] = Inr (p1,
      [\<lparr>ID = 0, Data = ''test'', shardIndex = - 1\<rparr>,
       \<lparr>ID = 0, Data = ''test'', shardIndex = - 1\<rparr>,
       \<lparr>ID = 0, Data = ''test'', shardIndex = - 1\<rparr>]) \<and>
      (\<exists>p2. repeat_Get AtomicBasedPool_Get 3 p1
      [\<lparr>ID = 0, Data = ''test'', shardIndex = - 1\<rparr>,
       \<lparr>ID = 0, Data = ''test'', shardIndex = - 1\<rparr>,
       \<lparr>ID = 0, Data = ''test'', shardIndex = - 1\<rparr>] = Inr ([Ptr 1, Ptr 0, Ptr 0], p2,
      [\<lparr>ID = 0, Data = ''test'', shardIndex = - 1\<rparr>,
       \<lparr>ID = 0, Data = ''test'', shardIndex = - 1\<rparr>,
       \<lparr>ID = 0, Data = ''test'', shardIndex = - 1\<rparr>]))) \<and>
   repeat_Put ChannelBasedPool_Put [Ptr 0, Ptr 1]
       \<lparr>ChannelBasedPool.objects = \<lparr>queue = [Ptr 2], chan_cap = 3\<rparr>,
        ChannelBasedPool.allocator = testAllocator, ChannelBasedPool.cleaner = testCleaner\<rparr>
      [\<lparr>ID = 0, Data = ''test'', shardIndex = - 1\<rparr>,
       \<lparr>ID = 0, Data = ''test'', shardIndex = - 1\<rparr>,
       \<lparr>ID = 0, Data = ''test'', shardIndex = - 1\<rparr>] =
     Inr (\<lparr>ChannelBasedPool.objects = \<lparr>queue = [Ptr 2, Ptr 0, Ptr 1], chan_cap = 3\<rparr>,
        ChannelBasedPool.allocator = testAllocator, ChannelBasedPool.cleaner = testCleaner\<rparr>,
      [\<lparr>ID = 0, Data = [], shardIndex = - 1\<rparr>,
       \<lparr>ID = 0, Data = [], shardIndex = - 1\<rparr>,
       \<lparr>ID = 0, Data = ''test'', shardIndex = - 1\<rparr>]) \<and>
   (\<exists>p2. repeat_Get ChannelBasedPool_Get 3
       \<lparr>ChannelBasedPool.objects = \<lparr>queue = [Ptr 2, Ptr 0, Ptr 1], chan_cap = 3\<rparr>,
        ChannelBasedPool.allocator = testAllocator, ChannelBasedPool.cleaner = testCleaner\<rparr>
      [\<lparr>ID = 0, Data = [], shardIndex = - 1\<rparr>,
       \<lparr>ID = 0, Data = [], shardIndex = - 1\<rparr>,
       \<lparr>ID = 0, Data = ''test'', shardIndex = - 1\<rparr>] = Inr ([Ptr 2, Ptr 0, Ptr 1], p2,
      [\<lparr>ID = 0, Data = [], shardIndex = - 1\<rparr>,
       \<lparr>ID = 0, Data = [], shardIndex = - 1\<rparr>,
       \<lparr>ID = 0, Data = ''test'', shardIndex = - 1\<rparr>])) \<and>
   (\<exists>p1. repeat_Put MutexBasedPool_Put [Ptr 0, Ptr 1]
       \<lparr>MutexBasedPool.objects = \<lparr>elems = [Ptr 0], slice_cap = 3\<rparr>,
        MutexBasedPool.allocator = testAllocator, MutexBasedPool.cleaner = testCleaner\<rparr>
      [\<lparr>ID = 0, Data = ''test'', shardIndex = - 1\<rparr>,
       \<lparr>ID = 0, Data = ''test'', shardIndex = - 1\<rparr>,
       \<lparr>ID = 0, Data = ''test'', shardIndex = - 1\<rparr>] = Inr (p1,
      [\<lparr>ID = 0, Data = ''test'', shardIndex = - 1\<rparr>,
       \<lparr>ID = 0, Data = ''test'', shardIndex = - 1\<rparr>,
       \<lparr>ID = 0, Data = ''test'', shardIndex = - 1\<rparr>]) \<and>
      (\<exists>p2. repeat_Get MutexBasedPool_Get 3 p1
      [\<lparr>ID = 0, Data = ''test'', shardIndex = - 1\<rparr>,
       \<lparr>ID = 0, Data = ''test'', shardIndex = - 1\<rparr>,
       \<lparr>ID = 0, Data = ''test'', shardIndex = - 1\<rparr>] = Inr ([Ptr 1, Ptr 0, Ptr 0], p2,
      [\<lparr>ID = 0, Data = ''test'', shardIndex = - 1\<rparr>,
       \<lparr>ID = 0, Data = ''test'', shardIndex = - 1\<rparr>,
       \<lparr>ID = 0, Data = ''test'', shardIndex = - 1\<rparr>]))) \<and>
   (\<exists>p1. repeat_Put CondBasedPool_Put [Ptr 0, Ptr 1]
       \<lparr>CondBasedPool.objects = \<lparr>elems = [Ptr 0], slice_cap = 3\<rparr>,
        CondBasedPool.allocator = testAllocator, CondBasedPool.cleaner = testCleaner\<rparr>
      [\<lparr>ID = 0, Data = ''test'', shardIndex = - 1\<rparr>,
       \<lparr>ID = 0, Data = ''test'', shardIndex = - 1\<rparr>,
       \<lparr>ID = 0, Data = ''test'', shardIndex = - 1\<rparr>] = Inr (p1,
      [\<lparr>ID = 0, Data = ''test'', shardIndex = - 1\<rparr>,
       \<lparr>ID = 0, Data = ''test'', shardIndex = - 1\<rparr>,
       \<lparr>ID = 0, Data = ''test'', shardIndex = - 1\<rparr>]) \<and>
      (\<exists>p2. repeat_Get CondBasedPool_Get 3 p1
      [\<lparr>ID = 0, Data = ''test'', shardIndex = - 1\<rparr>,
       \<lparr>ID = 0, Data = ''test'', shardIndex = - 1\<rparr>,
       \<lparr>ID = 0, Data = ''test'', shardIndex = - 1\<rparr>] = Inr ([Ptr 1, Ptr 0, Ptr 0], p2,
      [\<lparr>ID = 0, Data = ''test'', shardIndex = - 1\<rparr>,
       \<lparr>ID = 0, Data = ''test'', shardIndex = - 1\<rparr>,
       \<lparr>ID = 0, Data = ''test'', shardIndex = - 1\<rparr>])))"
  using Get_order_follows_structure[where c = 3 and
    alloc = testAllocator and
    clean = testCleaner and
    wi = "[]" and
    ops = "[DoGet, DoGet]" and
    xs = "[Ptr 0, Ptr 1]" and
    n = 3 and
    pmi = "\<lparr>MutexRingBufferPool.ringBuffer = \<lparr>buffer = [Ptr 0, Ptr 1, Ptr 2], head = 0, tail = 0,
      size_rb = 3, RingBuffer.capacity = 3\<rparr>, MutexRingBufferPool.allocator = testAllocator,
      MutexRingBufferPool.cleaner = testCleaner\<rparr>" and
    wmi = "[\<lparr>ID = 0, Data = ''test'', shardIndex = - 1\<rparr>, \<lparr>ID = 0, Data = ''test'',
      shardIndex = - 1\<rparr>, \<lparr>ID = 0, Data = ''test'', shardIndex = - 1\<rparr>]" and
    pm = "\<lparr>MutexRingBufferPool.ringBuffer = \<lparr>buffer = [Ptr 0, Ptr 1, Ptr 2], head = 2, tail = 0,
      size_rb = 1, RingBuffer.capacity = 3\<rparr>, MutexRingBufferPool.allocator = testAllocator,
      MutexRingBufferPool.cleaner = testCleaner\<rparr>" and
    wm = "[\<lparr>ID = 0, Data = ''test'', shardIndex = - 1\<rparr>, \<lparr>ID = 0, Data = ''test'',
      shardIndex = - 1\<rparr>, \<lparr>ID = 0, Data = ''test'', shardIndex = - 1\<rparr>]" and
    pri = "\<lparr>RWMutexRingBufferPool.ringBuffer = \<lparr>buffer = [Ptr 0, Ptr 1, Ptr 2], head = 0,
      tail = 0, size_rb = 3, RingBuffer.capacity = 3\<rparr>,
      RWMutexRingBufferPool.allocator = testAllocator,
      RWMutexRingBufferPool.cleaner = testCleaner\<rparr>" and
    wri = "[\<lparr>ID = 0, Data = ''test'', shardIndex = - 1\<rparr>, \<lparr>ID = 0, Data = ''test'',
      shardIndex = - 1\<rparr>, \<lparr>ID = 0, Data = ''test'', shardIndex = - 1\<rparr>]" and
    pr = "\<lparr>RWMutexRingBufferPool.ringBuffer = \<lparr>buffer = [Ptr 0, Ptr 1, Ptr 2], head = 2, tail = 0,
      size_rb = 1, RingBuffer.capacity = 3\<rparr>, RWMutexRingBufferPool.allocator = testAllocator,
      RWMutexRingBufferPool.cleaner = testCleaner\<rparr>" and
    wr = "[\<lparr>ID = 0, Data = ''test'', shardIndex = - 1\<rparr>, \<lparr>ID = 0, Data = ''test'',
      shardIndex = - 1\<rparr>, \<lparr>ID = 0, Data = ''test'', shardIndex = - 1\<rparr>]" and
    pqi = "\<lparr>RingBufferCondPool.ringBuffer = \<lparr>buffer = [Ptr 0, Ptr 1, Ptr 2], head = 0, tail = 0,
      size_rb = 3, RingBuffer.capacity = 3\<rparr>, RingBufferCondPool.allocator = testAllocator,
      RingBufferCondPool.cleaner = testCleaner\<rparr>" and
    wqi = "[\<lparr>ID = 0, Data = ''test'', shardIndex = - 1\<rparr>, \<lparr>ID = 0, Data = ''test'',
      shardIndex = - 1\<rparr>, \<lparr>ID = 0, Data = ''test'', shardIndex = - 1\<rparr>]" and
    pq = "\<lparr>RingBufferCondPool.ringBuffer = \<lparr>buffer = [Ptr 0, Ptr 1, Ptr 2], head = 2, tail = 0,
      size_rb = 1, RingBuffer.capacity = 3\<rparr>, RingBufferCondPool.allocator = testAllocator,
      RingBufferCondPool.cleaner = testCleaner\<rparr>" and
    wq = "[\<lparr>ID = 0, Data = ''test'', shardIndex = - 1\<rparr>, \<lparr>ID = 0, Data = ''test'',
      shardIndex = - 1\<rparr>, \<lparr>ID = 0, Data = ''test'', shardIndex = - 1\<rparr>]" and
    pai = "\<lparr>AtomicBasedPool.objects = [Ptr 0, Ptr 1, Ptr 2], index = 3,
      AtomicBasedPool.capacity = 3, AtomicBasedPool.allocator = testAllocator,
      AtomicBasedPool.cleaner = testCleaner\<rparr>" and
    wai = "[\<lparr>ID = 0, Data = ''test'', shardIndex = - 1\<rparr>, \<lparr>ID = 0, Data = ''test'',
      shardIndex = - 1\<rparr>, \<lparr>ID = 0, Data = ''test'', shardIndex = - 1\<rparr>]" and
    pa = "\<lparr>AtomicBasedPool.objects = [Ptr 0, Ptr 1, Ptr 2], index = 1,
      AtomicBasedPool.capacity = 3, AtomicBasedPool.allocator = testAllocator,
      AtomicBasedPool.cleaner = testCleaner\<rparr>" and
    wa = "[\<lparr>ID = 0, Data = ''test'', shardIndex = - 1\<rparr>, \<lparr>ID = 0, Data = ''test'',
      shardIndex = - 1\<rparr>, \<lparr>ID = 0, Data = ''test'', shardIndex = - 1\<rparr>]" and
    pc = "\<lparr>ChannelBasedPool.objects = \<lparr>queue = [Ptr 2], chan_cap = 3\<rparr>,
      ChannelBasedPool.allocator = testAllocator, ChannelBasedPool.cleaner = testCleaner\<rparr>" and
    wc = "[\<lparr>ID = 0, Data = ''test'', shardIndex = - 1\<rparr>, \<lparr>ID = 0, Data = ''test'',
      shardIndex = - 1\<rparr>, \<lparr>ID = 0, Data = ''test'', shardIndex = - 1\<rparr>]" and
    pcx = "\<lparr>ChannelBasedPool.objects = \<lparr>queue = [Ptr 2, Ptr 0, Ptr 1], chan_cap = 3\<rparr>,
      ChannelBasedPool.allocator = testAllocator, ChannelBasedPool.cleaner = testCleaner\<rparr>" and
    wcx = "[\<lparr>ID = 0, Data = [], shardIndex = - 1\<rparr>, \<lparr>ID = 0, Data = [], shardIndex = - 1\<rparr>, \<lparr>ID = 0,
      Data = ''test'', shardIndex = - 1\<rparr>]" and
    ps = "\<lparr>MutexBasedPool.objects = \<lparr>elems = [Ptr 0], slice_cap = 3\<rparr>,
      MutexBasedPool.allocator = testAllocator, MutexBasedPool.cleaner = testCleaner\<rparr>" and
    ws = "[\<lparr>ID = 0, Data = ''test'', shardIndex = - 1\<rparr>, \<lparr>ID = 0, Data = ''test'',
      shardIndex = - 1\<rparr>, \<lparr>ID = 0, Data = ''test'', shardIndex = - 1\<rparr>]" and
    pd = "\<lparr>CondBasedPool.objects = \<lparr>elems = [Ptr 0], slice_cap = 3\<rparr>,
      CondBasedPool.allocator = testAllocator, CondBasedPool.cleaner = testCleaner\<rparr>" and
    wd = "[\<lparr>ID = 0, Data = ''test'', shardIndex = - 1\<rparr>, \<lparr>ID = 0, Data = ''test'',
      shardIndex = - 1\<rparr>, \<lparr>ID = 0, Data = ''test'', shardIndex = - 1\<rparr>]"]
  by (simp add: eval_defs eval_sharded_defs rb_contents_def atomic_contents_def
      numeral_2_eq_2 numeral_3_eq_3)

section \<open>Claims about Put on a single segment\<close>

text \<open>
  Claim C2, as the code has it. The claim as stated fails in two ways. \<^verbatim>\<open>Put\<close> of
  \<^verbatim>\<open>ChannelBasedPool\<close> on a full channel does not discard the object: the send waits.
  \<^verbatim>\<open>Put\<close> of \<^verbatim>\<open>MutexRingBufferPool\<close> and of \<^verbatim>\<open>AtomicBasedPool\<close> does not call the
  cleaner: an object that was used goes back into the pool as it is, where
  \<^verbatim>\<open>testCleaner\<close> would have reset it.
\<close>

theorem Put_cleaner_and_overflow_counterexample:
  "MutexRingBufferPool_Put
       \<lparr>MutexRingBufferPool.ringBuffer =
          \<lparr>buffer = [Ptr 0], head = 0, tail = 0, size_rb = 0, RingBuffer.capacity = 1\<rparr>,
        MutexRingBufferPool.allocator = testAllocator,
          MutexRingBufferPool.cleaner = testCleaner\<rparr> (Ptr 0)
      [\<lparr>ID = 7, Data = ''used'', shardIndex = 0\<rparr>] =
     Inr (\<lparr>MutexRingBufferPool.ringBuffer =
          \<lparr>buffer = [Ptr 0], head = 0, tail = 0, size_rb = 1, RingBuffer.capacity = 1\<rparr>,
        MutexRingBufferPool.allocator = testAllocator, MutexRingBufferPool.cleaner = testCleaner\<rparr>,
      [\<lparr>ID = 7, Data = ''used'', shardIndex = 0\<rparr>]) \<and>
   AtomicBasedPool_Put
       \<lparr>AtomicBasedPool.objects = [Ptr 0], index = 0, AtomicBasedPool.capacity = 1,
        AtomicBasedPool.allocator = testAllocator, AtomicBasedPool.cleaner = testCleaner\<rparr> (Ptr 0)
      [\<lparr>ID = 7, Data = ''used'', shardIndex = 0\<rparr>] =
     Inr (\<lparr>AtomicBasedPool.objects = [Ptr 0], index = 1, AtomicBasedPool.capacity = 1,
        AtomicBasedPool.allocator = testAllocator, AtomicBasedPool.cleaner = testCleaner\<rparr>,
      [\<lparr>ID = 7, Data = ''used'', shardIndex = 0\<rparr>]) \<and>
   testCleaner (Ptr 0)
      [\<lparr>ID = 7, Data = ''used'', shardIndex = 0\<rparr>] =
     Inr [\<lparr>ID = 0, Data = [], shardIndex = - 1\<rparr>] \<and>
   ChannelBasedPool_Put
       \<lparr>ChannelBasedPool.objects = \<lparr>queue = [Ptr 1], chan_cap = 1\<rparr>,
        ChannelBasedPool.allocator = testAllocator, ChannelBasedPool.cleaner = testCleaner\<rparr> (Ptr 0)
      [\<lparr>ID = 7, Data = ''used'', shardIndex = 0\<rparr>,
       \<lparr>ID = 0, Data = ''test'', shardIndex = - 1\<rparr>] = Inl Blocked"
  by (simp add: eval_defs eval_sharded_defs)

text \<open>
  Claim C2, amended. In every state that a \<^verbatim>\<open>MutexRingBufferPool\<close>, a
  \<^verbatim>\<open>RingBufferCondPool\<close> or an \<^verbatim>\<open>AtomicBasedPool\<close> reaches from its constructor, and in
  every state of a \<^verbatim>\<open>MutexBasedPool\<close> or a \<^verbatim>\<open>CondBasedPool\<close>, \<^verbatim>\<open>Put\<close> returns;
  when the segment is at capacity the pool is unchanged (the object is dropped), and
  otherwise the object is added after the objects held. \<^verbatim>\<open>Put\<close> of
  \<^verbatim>\<open>ChannelBasedPool\<close> calls the cleaner first; then it adds the object at the end of
  the queue when the channel has room, and waits when the channel is full.
\<close>

theorem Put_returns_or_drops:
  "(NewMutexRingBufferPool c alloc clean wi = Inr (pmi, wmi) \<and>
    run_ops MutexRingBufferPool_Get MutexRingBufferPool_Put ops pmi wmi = Inr (pm, wm) \<longrightarrow>
    (\<exists>p' w'. MutexRingBufferPool_Put pm obj wm = Inr (p', w') \<and>
       (if size_rb (MutexRingBufferPool.ringBuffer pm) = c then p' = pm
        else rb_contents (MutexRingBufferPool.ringBuffer p') =
               rb_contents (MutexRingBufferPool.ringBuffer pm) @ [obj] \<and>
             size_rb (MutexRingBufferPool.ringBuffer p') =
               size_rb (MutexRingBufferPool.ringBuffer pm) + 1))) \<and>
   (NewRingBufferCondPool c alloc clean wi = Inr (pqi, wqi) \<and>
    run_ops RingBufferCondPool_Get RingBufferCondPool_Put ops pqi wqi = Inr (pq, wq) \<longrightarrow>
    (\<exists>p' w'. RingBufferCondPool_Put pq obj wq = Inr (p', w') \<and>
       (if size_rb (RingBufferCondPool.ringBuffer pq) = c then p' = pq
        else rb_contents (RingBufferCondPool.ringBuffer p') =
               rb_contents (RingBufferCondPool.ringBuffer pq) @ [obj] \<and>
             size_rb (RingBufferCondPool.ringBuffer p') =
               size_rb (RingBufferCondPool.ringBuffer pq) + 1))) \<and>
   (NewAtomicBasedPool c alloc clean wi = Inr (pai, wai) \<and>
    run_ops AtomicBasedPool_Get AtomicBasedPool_Put ops pai wai = Inr (pa, wa) \<longrightarrow>
    (\<exists>p' w'. AtomicBasedPool_Put pa obj wa = Inr (p', w') \<and>
       (if index pa = c then p' = pa
        else atomic_contents p' = atomic_contents pa @ [obj] \<and> index p' = index pa + 1))) \<and>
   (\<exists>p' w'. MutexBasedPool_Put ps obj ws = Inr (p', w') \<and>
      (if len (MutexBasedPool.objects ps) < slice_cap (MutexBasedPool.objects ps)
       then elems (MutexBasedPool.objects p') = elems (MutexBasedPool.objects ps) @ [obj] \<and>
            slice_cap (MutexBasedPool.objects p') = slice_cap (MutexBasedPool.objects ps)
       else p' = ps)) \<and>
   (\<exists>p' w'. CondBasedPool_Put pd obj wd = Inr (p', w') \<and>
      (if len (CondBasedPool.objects pd) < slice_cap (CondBasedPool.objects pd)
       then elems (CondBasedPool.objects p') = elems (CondBasedPool.objects pd) @ [obj] \<and>
            slice_cap (CondBasedPool.objects p') = slice_cap (CondBasedPool.objects pd)
       else p' = pd)) \<and>
   (ChannelBasedPool.cleaner pc obj wc = Inr wcx \<longrightarrow>
    ChannelBasedPool_Put pc obj wc =
      (if int (length (queue (ChannelBasedPool.objects pc))) < chan_cap (ChannelBasedPool.objects pc)
       then Inr (pc\<lparr>ChannelBasedPool.objects :=
                    (ChannelBasedPool.objects pc)\<lparr>queue := queue (ChannelBasedPool.objects pc) @ [obj]\<rparr>\<rparr>,
                 wcx)
       else Inl Blocked))"
  using MutexRingBufferPool_Put_reachable[of c alloc clean wi pmi wmi ops pm wm obj]
    RingBufferCondPool_Put_reachable[of c alloc clean wi pqi wqi ops pq wq obj]
    AtomicBasedPool_Put_reachable[of c alloc clean wi pai wai ops pa wa obj]
    MutexBasedPool_Put_cases[of ps obj ws]
    CondBasedPool_Put_cases[of pd obj wd]
    ChannelBasedPool_Put_cases[of pc obj wc wcx]
  by blast

theorem Put_returns_or_drops_witness:
  "NewMutexRingBufferPool 1 testAllocator testCleaner [] =
     Inr (\<lparr>MutexRingBufferPool.ringBuffer =
          \<lparr>buffer = [Ptr 0], head = 0, tail = 0, size_rb = 1, RingBuffer.capacity = 1\<rparr>,
        MutexRingBufferPool.allocator = testAllocator, MutexRingBufferPool.cleaner = testCleaner\<rparr>,
      [\<lparr>ID = 0, Data = ''test'', shardIndex = - 1\<rparr>]) \<and>
   run_ops MutexRingBufferPool_Get MutexRingBufferPool_Put [DoGet]
       \<lparr>MutexRingBufferPool.ringBuffer =
          \<lparr>buffer = [Ptr 0], head = 0, tail = 0, size_rb = 1, RingBuffer.capacity = 1\<rparr>,
        MutexRingBufferPool.allocator = testAllocator, MutexRingBufferPool.cleaner = testCleaner\<rparr>
      [\<lparr>ID = 0, Data = ''test'', shardIndex = - 1\<rparr>] =
     Inr (\<lparr>MutexRingBufferPool.ringBuffer =
          \<lparr>buffer = [Ptr 0], head = 0, tail = 0, size_rb = 0, RingBuffer.capacity = 1\<rparr>,
        MutexRingBufferPool.allocator = testAllocator, MutexRingBufferPool.cleaner = testCleaner\<rparr>,
      [\<lparr>ID = 0, Data = ''test'', shardIndex = - 1\<rparr>]) \<and>
   MutexRingBufferPool_Put
       \<lparr>MutexRingBufferPool.ringBuffer =
          \<lparr>buffer = [Ptr 0], head = 0, tail = 0, size_rb = 0, RingBuffer.capacity = 1\<rparr>,
        MutexRingBufferPool.allocator = testAllocator,
          MutexRingBufferPool.cleaner = testCleaner\<rparr> (Ptr 0)
      [\<lparr>ID = 0, Data = ''test'', shardIndex = - 1\<rparr>] =
     Inr (\<lparr>MutexRingBufferPool.ringBuffer =
          \<lparr>buffer = [Ptr 0], head = 0, tail = 0, size_rb = 1, RingBuffer.capacity = 1\<rparr>,
        MutexRingBufferPool.allocator = testAllocator, MutexRingBufferPool.cleaner = testCleaner\<rparr>,
      [\<lparr>ID = 0, Data = ''test'', shardIndex = - 1\<rparr>]) \<and>
   NewRingBufferCondPool 1 testAllocator testCleaner [] =
     Inr (\<lparr>RingBufferCondPool.ringBuffer =
          \<lparr>buffer = [Ptr 0], head = 0, tail = 0, size_rb = 1, RingBuffer.capacity = 1\<rparr>,
        RingBufferCondPool.allocator = testAllocator, RingBufferCondPool.cleaner = testCleaner\<rparr>,
      [\<lparr>ID = 0, Data = ''test'', shardIndex = - 1\<rparr>]) \<and>
   run_ops RingBufferCondPool_Get RingBufferCondPool_Put [DoGet]
       \<lparr>RingBufferCondPool.ringBuffer =
          \<lparr>buffer = [Ptr 0], head = 0, tail = 0, size_rb = 1, RingBuffer.capacity = 1\<rparr>,
        RingBufferCondPool.allocator = testAllocator, RingBufferCondPool.cleaner = testCleaner\<rparr>
      [\<lparr>ID = 0, Data = ''test'', shardIndex = - 1\<rparr>] =
     Inr (\<lparr>RingBufferCondPool.ringBuffer =
          \<lparr>buffer = [Ptr 0], head = 0, tail = 0, size_rb = 0, RingBuffer.capacity = 1\<rparr>,
        RingBufferCondPool.allocator = testAllocator, RingBufferCondPool.cleaner = testCleaner\<rparr>,
      [\<lparr>ID = 0, Data = ''test'', shardIndex = - 1\<rparr>]) \<and>
   RingBufferCondPool_Put
       \<lparr>RingBufferCondPool.ringBuffer =
          \<lparr>buffer = [Ptr 0], head = 0, tail = 0, size_rb = 0, RingBuffer.capacity = 1\<rparr>,
        RingBufferCondPool.allocator = testAllocator,
          RingBufferCondPool.cleaner = testCleaner\<rparr> (Ptr 0)
      [\<lparr>ID = 0, Data = ''test'', shardIndex = - 1\<rparr>] =
     Inr (\<lparr>RingBufferCondPool.ringBuffer =
          \<lparr>buffer = [Ptr 0], head = 0, tail = 0, size_rb = 1, RingBuffer.capacity = 1\<rparr>,
        RingBufferCondPool.allocator = testAllocator, RingBufferCondPool.cleaner = testCleaner\<rparr>,
      [\<lparr>ID = 0, Data = ''test'', shardIndex = - 1\<rparr>]) \<and>
   NewAtomicBasedPool 1 testAllocator testCleaner [] =
     Inr (\<lparr>AtomicBasedPool.objects = [Ptr 0], index = 1, AtomicBasedPool.capacity = 1,
        AtomicBasedPool.allocator = testAllocator, AtomicBasedPool.cleaner = testCleaner\<rparr>,
      [\<lparr>ID = 0, Data = ''test'', shardIndex = - 1\<rparr>]) \<and>
   run_ops AtomicBasedPool_Get AtomicBasedPool_Put [DoGet]
       \<lparr>AtomicBasedPool.objects = [Ptr 0], index = 1, AtomicBasedPool.capacity = 1,
        AtomicBasedPool.allocator = testAllocator, AtomicBasedPool.cleaner = testCleaner\<rparr>
      [\<lparr>ID = 0, Data = ''test'', shardIndex = - 1\<rparr>] =
     Inr (\<lparr>AtomicBasedPool.objects = [Ptr 0], index = 0, AtomicBasedPool.capacity = 1,
        AtomicBasedPool.allocator = testAllocator, AtomicBasedPool.cleaner = testCleaner\<rparr>,
      [\<lparr>ID = 0, Data = ''test'', shardIndex = - 1\<rparr>]) \<and>
   AtomicBasedPool_Put
       \<lparr>AtomicBasedPool.objects = [Ptr 0], index = 0, AtomicBasedPool.capacity = 1,
        AtomicBasedPool.allocator = testAllocator, AtomicBasedPool.cleaner = testCleaner\<rparr> (Ptr 0)
      [\<lparr>ID = 0, Data = ''test'', shardIndex = - 1\<rparr>] =
     Inr (\<lparr>AtomicBasedPool.objects = [Ptr 0], index = 1, AtomicBasedPool.capacity = 1,
        AtomicBasedPool.allocator = testAllocator, AtomicBasedPool.cleaner = testCleaner\<rparr>,
      [\<lparr>ID = 0, Data = ''test'', shardIndex = - 1\<rparr>]) \<and>
   MutexBasedPool_Put
       \<lparr>MutexBasedPool.objects = \<lparr>elems = [], slice_cap = 1\<rparr>,
        MutexBasedPool.allocator = testAllocator, MutexBasedPool.cleaner = testCleaner\<rparr> (Ptr 0)
      [\<lparr>ID = 0, Data = ''test'', shardIndex = - 1\<rparr>] =
     Inr (\<lparr>MutexBasedPool.objects = \<lparr>elems = [Ptr 0], slice_cap = 1\<rparr>,
        MutexBasedPool.allocator = testAllocator, MutexBasedPool.cleaner = testCleaner\<rparr>,
      [\<lparr>ID = 0, Data = ''test'', shardIndex = - 1\<rparr>]) \<and>
   CondBasedPool_Put
       \<lparr>CondBasedPool.objects = \<lparr>elems = [], slice_cap = 1\<rparr>,
        CondBasedPool.allocator = testAllocator, CondBasedPool.cleaner = testCleaner\<rparr> (Ptr 0)
      [\<lparr>ID = 0, Data = ''test'', shardIndex = - 1\<rparr>] =
     Inr (\<lparr>CondBasedPool.objects = \<lparr>elems = [Ptr 0], slice_cap = 1\<rparr>,
        CondBasedPool.allocator = testAllocator, CondBasedPool.cleaner = testCleaner\<rparr>,
      [\<lparr>ID = 0, Data = ''test'', shardIndex = - 1\<rparr>]) \<and>
   testCleaner (Ptr 0)
      [\<lparr>ID = 0, Data = ''test'', shardIndex = - 1\<rparr>] =
     Inr [\<lparr>ID = 0, Data = [], shardIndex = - 1\<rparr>] \<and>
   ChannelBasedPool_Put
       \<lparr>ChannelBasedPool.objects = \<lparr>queue = [], chan_cap = 1\<rparr>,
        ChannelBasedPool.allocator = testAllocator, ChannelBasedPool.cleaner = testCleaner\<rparr> (Ptr 0)
      [\<lparr>ID = 0, Data = ''test'', shardIndex = - 1\<rparr>] =
     Inr (\<lparr>ChannelBasedPool.objects = \<lparr>queue = [Ptr 0], chan_cap = 1\<rparr>,
        ChannelBasedPool.allocator = testAllocator, ChannelBasedPool.cleaner = testCleaner\<rparr>,
      [\<lparr>ID = 0, Data = [], shardIndex = - 1\<rparr>])"
  using Put_returns_or_drops[where c = 1 and
    alloc = testAllocator and
    clean = testCleaner and
    wi = "[]" and
    ops = "[DoGet]" and
    obj = "Ptr 0" and
    pmi = "\<lparr>MutexRingBufferPool.ringBuffer = \<lparr>buffer = [Ptr 0], head = 0, tail = 0, size_rb = 1,
      RingBuffer.capacity = 1\<rparr>, MutexRingBufferPool.allocator = testAllocator,
      MutexRingBufferPool.cleaner = testCleaner\<rparr>" and
    wmi = "[\<lparr>ID = 0, Data = ''test'', shardIndex = - 1\<rparr>]" and
    pm = "\<lparr>MutexRingBufferPool.ringBuffer = \<lparr>buffer = [Ptr 0], head = 0, tail = 0, size_rb = 0,
      RingBuffer.capacity = 1\<rparr>, MutexRingBufferPool.allocator = testAllocator,
      MutexRingBufferPool.cleaner = testCleaner\<rparr>" and
    wm = "[\<lparr>ID = 0, Data = ''test'', shardIndex = - 1\<rparr>]" and
    pqi = "\<lparr>RingBufferCondPool.ringBuffer = \<lparr>buffer = [Ptr 0], head = 0, tail = 0, size_rb = 1,
      RingBuffer.capacity = 1\<rparr>, RingBufferCondPool.allocator = testAllocator,
      RingBufferCondPool.cleaner = testCleaner\<rparr>" and
    wqi = "[\<lparr>ID = 0, Data = ''test'', shardIndex = - 1\<rparr>]" and
    pq = "\<lparr>RingBufferCondPool.ringBuffer = \<lparr>buffer = [Ptr 0], head = 0, tail = 0, size_rb = 0,
      RingBuffer.capacity = 1\<rparr>, RingBufferCondPool.allocator = testAllocator,
      RingBufferCondPool.cleaner = testCleaner\<rparr>" and
    wq = "[\<lparr>ID = 0, Data = ''test'', shardIndex = - 1\<rparr>]" and
    pai = "\<lparr>AtomicBasedPool.objects = [Ptr 0], index = 1, AtomicBasedPool.capacity = 1,
      AtomicBasedPool.allocator = testAllocator, AtomicBasedPool.cleaner = testCleaner\<rparr>" and
    wai = "[\<lparr>ID = 0, Data = ''test'', shardIndex = - 1\<rparr>]" and
    pa = "\<lparr>AtomicBasedPool.objects = [Ptr 0], index = 0, AtomicBasedPool.capacity = 1,
      AtomicBasedPool.allocator = testAllocator, AtomicBasedPool.cleaner = testCleaner\<rparr>" and
    wa = "[\<lparr>ID = 0, Data = ''test'', shardIndex = - 1\<rparr>]" and
    ps = "\<lparr>MutexBasedPool.objects = \<lparr>elems = [], slice_cap = 1\<rparr>,
      MutexBasedPool.allocator = testAllocator, MutexBasedPool.cleaner = testCleaner\<rparr>" and
    ws = "[\<lparr>ID = 0, Data = ''test'', shardIndex = - 1\<rparr>]" and
    pd = "\<lparr>CondBasedPool.objects = \<lparr>elems = [], slice_cap = 1\<rparr>,
      CondBasedPool.allocator = testAllocator, CondBasedPool.cleaner = testCleaner\<rparr>" and
    wd = "[\<lparr>ID = 0, Data = ''test'', shardIndex = - 1\<rparr>]" and
    pc = "\<lparr>ChannelBasedPool.objects = \<lparr>queue = [], chan_cap = 1\<rparr>,
      ChannelBasedPool.allocator = testAllocator, ChannelBasedPool.cleaner = testCleaner\<rparr>" and
    wc = "[\<lparr>ID = 0, Data = ''test'', shardIndex = - 1\<rparr>]" and
    wcx = "[\<lparr>ID = 0, Data = [], shardIndex = - 1\<rparr>]"]
  by (simp add: eval_defs eval_sharded_defs)

section \<open>Claims about the capacity of the segments\<close>

text \<open>
  Claim C6. Let \<open>m\<close> be the shard count a sharded constructor uses: \<open>numShards\<close> when
  it is positive, and the value of \<^verbatim>\<open>runtime.GOMAXPROCS(0)\<close> otherwise. If \<open>m\<close> is at
  least 1, each of the six sharded constructors returns a pool of \<open>m\<close> segments, every
  segment has capacity \<open>max (c / m) 1\<close> with Go's integer division, and, when the
  total capacity \<open>c\<close> is at least \<open>m\<close>, the capacities of the segments sum to at least
  \<open>m\<close> and at most \<open>c\<close>.
\<close>

theorem sharded_segment_capacities:
  assumes "1 \<le> m" "m = (if n \<le> 0 then g else n)"
  shows "(\<exists>p w'. NewShardedMutexRingBufferPool g c n alloc clean w = Inr (p, w') \<and>
      int (length (ShardedMutexRingBufferPool.shards p)) = m \<and>
      (\<forall>s\<in>set (ShardedMutexRingBufferPool.shards p). RingBuffer.capacity (MutexRingBufferPool.ringBuffer s) = max (c sdiv m) 1) \<and>
      (m \<le> c \<longrightarrow>
         m \<le> sum_list (map (\<lambda>s. RingBuffer.capacity (MutexRingBufferPool.ringBuffer s)) (ShardedMutexRingBufferPool.shards p)) \<and>
         sum_list (map (\<lambda>s. RingBuffer.capacity (MutexRingBufferPool.ringBuffer s)) (ShardedMutexRingBufferPool.shards p)) \<le> c)) \<and>
   (\<exists>p w'. NewShardedChannelBasedPool g c n alloc clean w = Inr (p, w') \<and>
      int (length (ShardedChannelBasedPool.shards p)) = m \<and>
      (\<forall>s\<in>set (ShardedChannelBasedPool.shards p). chan_cap (ChannelBasedPool.objects s) = max (c sdiv m) 1) \<and>
      (m \<le> c \<longrightarrow>
         m \<le> sum_list (map (\<lambda>s. chan_cap (ChannelBasedPool.objects s)) (ShardedChannelBasedPool.shards p)) \<and>
         sum_list (map (\<lambda>s. chan_cap (ChannelBasedPool.objects s)) (ShardedChannelBasedPool.shards p)) \<le> c)) \<and>
   (\<exists>p w'. NewShardedAtomicBasedPool g c n alloc clean w = Inr (p, w') \<and>
      int (length (ShardedAtomicBasedPool.shards p)) = m \<and>
      (\<forall>s\<in>set (ShardedAtomicBasedPool.shards p). AtomicBasedPool.capacity s = max (c sdiv m) 1) \<and>
      (m \<le> c \<longrightarrow>
         m \<le> sum_list (map (\<lambda>s. AtomicBasedPool.capacity s) (ShardedAtomicBasedPool.shards p)) \<and>
         sum_list (map (\<lambda>s. AtomicBasedPool.capacity s) (ShardedAtomicBasedPool.shards p)) \<le> c)) \<and>
   (\<exists>p w'. NewShardedCondBasedPool g c n alloc clean w = Inr (p, w') \<and>
      int (length (ShardedCondBasedPool.shards p)) = m \<and>
      (\<forall>s\<in>set (ShardedCondBasedPool.shards p). RingBuffer.capacity (RingBufferCondPool.ringBuffer s) = max (c sdiv m) 1) \<and>
      (m \<le> c \<longrightarrow>
         m \<le> sum_list (map (\<lambda>s. RingBuffer.capacity (RingBufferCondPool.ringBuffer s)) (ShardedCondBasedPool.shards p)) \<and>
         sum_list (map (\<lambda>s. RingBuffer.capacity (RingBufferCondPool.ringBuffer s)) (ShardedCondBasedPool.shards p)) \<le> c)) \<and>
   (\<exists>p w'. NewShardedRingBufferCondPool g c n alloc clean w = Inr (p, w') \<and>
      int (length (ShardedRingBufferCondPool.shards p)) = m \<and>
      (\<forall>s\<in>set (ShardedRingBufferCondPool.shards p). RingBuffer.capacity (RingBufferCondPool.ringBuffer s) = max (c sdiv m) 1) \<and>
      (m \<le> c \<longrightarrow>
         m \<le> sum_list (map (\<lambda>s. RingBuffer.capacity (RingBufferCondPool.ringBuffer s)) (ShardedRingBufferCondPool.shards p)) \<and>
         sum_list (map (\<lambda>s. RingBuffer.capacity (RingBufferCondPool.ringBuffer s)) (ShardedRingBufferCondPool.shards p)) \<le> c)) \<and>
   (\<exists>p w'. NewShardedGoroutineIDPool g c n alloc clean w = Inr (p, w') \<and>
      int (length (ShardedGoroutineIDPool.shards p)) = m \<and>
      (\<forall>s\<in>set (ShardedGoroutineIDPool.shards p). RingBuffer.capacity (MutexRingBufferPool.ringBuffer s) = max (c sdiv m) 1) \<and>
      (m \<le> c \<longrightarrow>
         m \<le> sum_list (map (\<lambda>s. RingBuffer.capacity (MutexRingBufferPool.ringBuffer s)) (ShardedGoroutineIDPool.shards p)) \<and>
         sum_list (map (\<lambda>s. RingBuffer.capacity (MutexRingBufferPool.ringBuffer s)) (ShardedGoroutineIDPool.shards p)) \<le> c))"
  by (intro conjI)
     (rule NewShardedMutexRingBufferPool_caps[OF assms]
        NewShardedChannelBasedPool_caps[OF assms]
        NewShardedAtomicBasedPool_caps[OF assms]
        NewShardedCondBasedPool_caps[OF assms]
        NewShardedRingBufferCondPool_caps[OF assms]
        NewShardedGoroutineIDPool_caps[OF assms])+

theorem sharded_segment_capacities_witness:
  "(1::int) \<le> 2 \<and>
   (\<exists>p w'. NewShardedMutexRingBufferPool 8 5 2 testAllocator testCleaner [] = Inr (p, w') \<and>
      map (\<lambda>s. RingBuffer.capacity (MutexRingBufferPool.ringBuffer s)) (ShardedMutexRingBufferPool.shards p) = [2,
        2]) \<and>
   (\<exists>p w'. NewShardedChannelBasedPool 8 5 2 testAllocator testCleaner [] = Inr (p, w') \<and>
      map (\<lambda>s. chan_cap (ChannelBasedPool.objects s)) (ShardedChannelBasedPool.shards p) = [2, 2]) \<and>
   (\<exists>p w'. NewShardedAtomicBasedPool 8 5 2 testAllocator testCleaner [] = Inr (p, w') \<and>
      map (\<lambda>s. AtomicBasedPool.capacity s) (ShardedAtomicBasedPool.shards p) = [2, 2]) \<and>
   (\<exists>p w'. NewShardedCondBasedPool 8 5 2 testAllocator testCleaner [] = Inr (p, w') \<and>
      map (\<lambda>s. RingBuffer.capacity (RingBufferCondPool.ringBuffer s)) (ShardedCondBasedPool.shards p) = [2,
        2]) \<and>
   (\<exists>p w'. NewShardedRingBufferCondPool 8 5 2 testAllocator testCleaner [] = Inr (p, w') \<and>
      map (\<lambda>s. RingBuffer.capacity (RingBufferCondPool.ringBuffer s)) (ShardedRingBufferCondPool.shards p) = [2,
        2]) \<and>
   (\<exists>p w'. NewShardedGoroutineIDPool 8 5 2 testAllocator testCleaner [] = Inr (p, w') \<and>
      map (\<lambda>s. RingBuffer.capacity (MutexRingBufferPool.ringBuffer s)) (ShardedGoroutineIDPool.shards p) = [2,
        2])"
  using sharded_segment_capacities[where m = 2 and n = 2 and g = 8 and c = 5
      and alloc = testAllocator and clean = testCleaner and w = "[]"]
  by (simp add: eval_defs eval_sharded_defs numeral_2_eq_2)

section \<open>Claims about the cached shard index\<close>

text \<open>
  Claim C10. Whenever \<^verbatim>\<open>Get\<close> of one of the five proc-pinned sharded pools returns an
  object, the processor index \<open>pid\<close> it was called with is an index of a segment
  (\<open>0 \<le> pid < numShards\<close>), the object is the one that \<^verbatim>\<open>Get\<close> of the segment at
  that index returned, only that segment of the pool has changed, and in the heap left
  the object's \<^verbatim>\<open>shardIndex\<close> is \<open>pid\<close>. An object that \<^verbatim>\<open>testAllocator\<close> returns has
  \<^verbatim>\<open>shardIndex\<close> \<open>-1\<close>, and so has an object after \<^verbatim>\<open>testCleaner\<close>.
\<close>

theorem Get_stamps_shardIndex:
  "(ShardedMutexRingBufferPool_Get pid pm w = Inr (obj, pmx, wx) \<longrightarrow>
     0 \<le> pid \<and> pid < int (length (ShardedMutexRingBufferPool.shards pm)) \<and>
     (\<exists>s' w1. MutexRingBufferPool_Get (ShardedMutexRingBufferPool.shards pm ! nat pid) w = Inr (obj,
       s', w1) \<and>
        ShardedMutexRingBufferPool.shards pmx = (ShardedMutexRingBufferPool.shards pm)[nat pid := s']) \<and>
     (\<exists>x. deref wx obj = Inr x \<and> shardIndex x = pid)) \<and>
   (ShardedChannelBasedPool_Get pid pc w = Inr (obj, pcx, wx) \<longrightarrow>
     0 \<le> pid \<and> pid < int (length (ShardedChannelBasedPool.shards pc)) \<and>
     (\<exists>s' w1. ChannelBasedPool_Get (ShardedChannelBasedPool.shards pc ! nat pid) w = Inr (obj, s',
       w1) \<and>
        ShardedChannelBasedPool.shards pcx = (ShardedChannelBasedPool.shards pc)[nat pid := s']) \<and>
     (\<exists>x. deref wx obj = Inr x \<and> shardIndex x = pid)) \<and>
   (ShardedAtomicBasedPool_Get pid pa w = Inr (obj, pax, wx) \<longrightarrow>
     0 \<le> pid \<and> pid < int (length (ShardedAtomicBasedPool.shards pa)) \<and>
     (\<exists>s' w1. AtomicBasedPool_Get (ShardedAtomicBasedPool.shards pa ! nat pid) w = Inr (obj, s',
       w1) \<and>
        ShardedAtomicBasedPool.shards pax = (ShardedAtomicBasedPool.shards pa)[nat pid := s']) \<and>
     (\<exists>x. deref wx obj = Inr x \<and> shardIndex x = pid)) \<and>
   (ShardedCondBasedPool_Get pid pd w = Inr (obj, pdx, wx) \<longrightarrow>
     0 \<le> pid \<and> pid < int (length (ShardedCondBasedPool.shards pd)) \<and>
     (\<exists>s' w1. RingBufferCondPool_Get (ShardedCondBasedPool.shards pd ! nat pid) w = Inr (obj, s',
       w1) \<and>
        ShardedCondBasedPool.shards pdx = (ShardedCondBasedPool.shards pd)[nat pid := s']) \<and>
     (\<exists>x. deref wx obj = Inr x \<and> shardIndex x = pid)) \<and>
   (ShardedRingBufferCondPool_Get pid pq w = Inr (obj, pqx, wx) \<longrightarrow>
     0 \<le> pid \<and> pid < int (length (ShardedRingBufferCondPool.shards pq)) \<and>
     (\<exists>s' w1. RingBufferCondPool_Get (ShardedRingBufferCondPool.shards pq ! nat pid) w = Inr (obj,
       s', w1) \<and>
        ShardedRingBufferCondPool.shards pqx = (ShardedRingBufferCondPool.shards pq)[nat pid := s']) \<and>
     (\<exists>x. deref wx obj = Inr x \<and> shardIndex x = pid)) \<and>
   (\<exists>x. deref (snd (testAllocator w)) (fst (testAllocator w)) = Inr x \<and> shardIndex x = - 1) \<and>
   (testCleaner obj w = Inr wc \<longrightarrow> (\<exists>x. deref wc obj = Inr x \<and> shardIndex x = - 1))"
  using ShardedMutexRingBufferPool_Get_Inr[of pid pm w obj pmx wx]
    ShardedChannelBasedPool_Get_Inr[of pid pc w obj pcx wx]
    ShardedAtomicBasedPool_Get_Inr[of pid pa w obj pax wx]
    ShardedCondBasedPool_Get_Inr[of pid pd w obj pdx wx]
    ShardedRingBufferCondPool_Get_Inr[of pid pq w obj pqx wx]
    testAllocator_unassigned[of w]
    testCleaner_unassigned[of obj w wc]
  by blast

theorem Get_stamps_shardIndex_witness:
  "NewShardedMutexRingBufferPool 8 2 2 testAllocator testCleaner [] =
     Inr (\<lparr>ShardedMutexRingBufferPool.shards =
          [\<lparr>MutexRingBufferPool.ringBuffer =
             \<lparr>buffer = [Ptr 0], head = 0, tail = 0, size_rb = 1, RingBuffer.capacity = 1\<rparr>,
           MutexRingBufferPool.allocator = testAllocator,
             MutexRingBufferPool.cleaner = testCleaner\<rparr>,
           \<lparr>MutexRingBufferPool.ringBuffer =
             \<lparr>buffer = [Ptr 1], head = 0, tail = 0, size_rb = 1, RingBuffer.capacity = 1\<rparr>,
           MutexRingBufferPool.allocator = testAllocator,
             MutexRingBufferPool.cleaner = testCleaner\<rparr>]\<rparr>,
      [\<lparr>ID = 0, Data = ''test'', shardIndex = - 1\<rparr>,
       \<lparr>ID = 0, Data = ''test'', shardIndex = - 1\<rparr>]) \<and>
   ShardedMutexRingBufferPool_Get 1
       \<lparr>ShardedMutexRingBufferPool.shards =
          [\<lparr>MutexRingBufferPool.ringBuffer =
             \<lparr>buffer = [Ptr 0], head = 0, tail = 0, size_rb = 1, RingBuffer.capacity = 1\<rparr>,
           MutexRingBufferPool.allocator = testAllocator,
             MutexRingBufferPool.cleaner = testCleaner\<rparr>,
           \<lparr>MutexRingBufferPool.ringBuffer =
             \<lparr>buffer = [Ptr 1], head = 0, tail = 0, size_rb = 1, RingBuffer.capacity = 1\<rparr>,
           MutexRingBufferPool.allocator = testAllocator,
             MutexRingBufferPool.cleaner = testCleaner\<rparr>]\<rparr>
      [\<lparr>ID = 0, Data = ''test'', shardIndex = - 1\<rparr>,
       \<lparr>ID = 0, Data = ''test'', shardIndex = - 1\<rparr>] =
     Inr (Ptr 1,
       \<lparr>ShardedMutexRingBufferPool.shards =
          [\<lparr>MutexRingBufferPool.ringBuffer =
             \<lparr>buffer = [Ptr 0], head = 0, tail = 0, size_rb = 1, RingBuffer.capacity = 1\<rparr>,
           MutexRingBufferPool.allocator = testAllocator,
             MutexRingBufferPool.cleaner = testCleaner\<rparr>,
           \<lparr>MutexRingBufferPool.ringBuffer =
             \<lparr>buffer = [Ptr 1], head = 0, tail = 0, size_rb = 0, RingBuffer.capacity = 1\<rparr>,
           MutexRingBufferPool.allocator = testAllocator,
             MutexRingBufferPool.cleaner = testCleaner\<rparr>]\<rparr>,
      [\<lparr>ID = 0, Data = ''test'', shardIndex = - 1\<rparr>,
       \<lparr>ID = 0, Data = ''test'', shardIndex = 1\<rparr>]) \<and>
   NewShardedChannelBasedPool 8 2 2 testAllocator testCleaner [] =
     Inr (\<lparr>ShardedChannelBasedPool.shards =
          [\<lparr>ChannelBasedPool.objects = \<lparr>queue = [Ptr 0], chan_cap = 1\<rparr>,
           ChannelBasedPool.allocator = testAllocator, ChannelBasedPool.cleaner = testCleaner\<rparr>,
           \<lparr>ChannelBasedPool.objects = \<lparr>queue = [Ptr 1], chan_cap = 1\<rparr>,
           ChannelBasedPool.allocator = testAllocator, ChannelBasedPool.cleaner = testCleaner\<rparr>]\<rparr>,
      [\<lparr>ID = 0, Data = ''test'', shardIndex = - 1\<rparr>,
       \<lparr>ID = 0, Data = ''test'', shardIndex = - 1\<rparr>]) \<and>
   ShardedChannelBasedPool_Get 1
       \<lparr>ShardedChannelBasedPool.shards =
          [\<lparr>ChannelBasedPool.objects = \<lparr>queue = [Ptr 0], chan_cap = 1\<rparr>,
           ChannelBasedPool.allocator = testAllocator, ChannelBasedPool.cleaner = testCleaner\<rparr>,
           \<lparr>ChannelBasedPool.objects = \<lparr>queue = [Ptr 1], chan_cap = 1\<rparr>,
           ChannelBasedPool.allocator = testAllocator, ChannelBasedPool.cleaner = testCleaner\<rparr>]\<rparr>
      [\<lparr>ID = 0, Data = ''test'', shardIndex = - 1\<rparr>,
       \<lparr>ID = 0, Data = ''test'', shardIndex = - 1\<rparr>] =
     Inr (Ptr 1,
       \<lparr>ShardedChannelBasedPool.shards =
          [\<lparr>ChannelBasedPool.objects = \<lparr>queue = [Ptr 0], chan_cap = 1\<rparr>,
           ChannelBasedPool.allocator = testAllocator, ChannelBasedPool.cleaner = testCleaner\<rparr>,
           \<lparr>ChannelBasedPool.objects = \<lparr>queue = [], chan_cap = 1\<rparr>,
           ChannelBasedPool.allocator = testAllocator, ChannelBasedPool.cleaner = testCleaner\<rparr>]\<rparr>,
      [\<lparr>ID = 0, Data = ''test'', shardIndex = - 1\<rparr>,
       \<lparr>ID = 0, Data = ''test'', shardIndex = 1\<rparr>]) \<and>
   NewShardedAtomicBasedPool 8 2 2 testAllocator testCleaner [] =
     Inr (\<lparr>ShardedAtomicBasedPool.shards =
          [\<lparr>AtomicBasedPool.objects = [Ptr 0], index = 1, AtomicBasedPool.capacity = 1,
           AtomicBasedPool.allocator = testAllocator, AtomicBasedPool.cleaner = testCleaner\<rparr>,
           \<lparr>AtomicBasedPool.objects = [Ptr 1], index = 1, AtomicBasedPool.capacity = 1,
           AtomicBasedPool.allocator = testAllocator, AtomicBasedPool.cleaner = testCleaner\<rparr>]\<rparr>,
      [\<lparr>ID = 0, Data = ''test'', shardIndex = - 1\<rparr>,
       \<lparr>ID = 0, Data = ''test'', shardIndex = - 1\<rparr>]) \<and>
   ShardedAtomicBasedPool_Get 1
       \<lparr>ShardedAtomicBasedPool.shards =
          [\<lparr>AtomicBasedPool.objects = [Ptr 0], index = 1, AtomicBasedPool.capacity = 1,
           AtomicBasedPool.allocator = testAllocator, AtomicBasedPool.cleaner = testCleaner\<rparr>,
           \<lparr>AtomicBasedPool.objects = [Ptr 1], index = 1, AtomicBasedPool.capacity = 1,
           AtomicBasedPool.allocator = testAllocator, AtomicBasedPool.cleaner = testCleaner\<rparr>]\<rparr>
      [\<lparr>ID = 0, Data = ''test'', shardIndex = - 1\<rparr>,
       \<lparr>ID = 0, Data = ''test'', shardIndex = - 1\<rparr>] =
     Inr (Ptr 1,
       \<lparr>ShardedAtomicBasedPool.shards =
          [\<lparr>AtomicBasedPool.objects = [Ptr 0], index = 1, AtomicBasedPool.capacity = 1,
           AtomicBasedPool.allocator = testAllocator, AtomicBasedPool.cleaner = testCleaner\<rparr>,
           \<lparr>AtomicBasedPool.objects = [Ptr 1], index = 0, AtomicBasedPool.capacity = 1,
           AtomicBasedPool.allocator = testAllocator, AtomicBasedPool.cleaner = testCleaner\<rparr>]\<rparr>,
      [\<lparr>ID = 0, Data = ''test'', shardIndex = - 1\<rparr>,
       \<lparr>ID = 0, Data = ''test'', shardIndex = 1\<rparr>]) \<and>
   NewShardedCondBasedPool 8 2 2 testAllocator testCleaner [] =
     Inr (\<lparr>ShardedCondBasedPool.shards =
          [\<lparr>RingBufferCondPool.ringBuffer =
             \<lparr>buffer = [Ptr 0], head = 0, tail = 0, size_rb = 1, RingBuffer.capacity = 1\<rparr>,
           RingBufferCondPool.allocator = testAllocator, RingBufferCondPool.cleaner = testCleaner\<rparr>,
           \<lparr>RingBufferCondPool.ringBuffer =
             \<lparr>buffer = [Ptr 1], head = 0, tail = 0, size_rb = 1, RingBuffer.capacity = 1\<rparr>,
           RingBufferCondPool.allocator = testAllocator,
             RingBufferCondPool.cleaner = testCleaner\<rparr>]\<rparr>,
      [\<lparr>ID = 0, Data = ''test'', shardIndex = - 1\<rparr>,
       \<lparr>ID = 0, Data = ''test'', shardIndex = - 1\<rparr>]) \<and>
   ShardedCondBasedPool_Get 1
       \<lparr>ShardedCondBasedPool.shards =
          [\<lparr>RingBufferCondPool.ringBuffer =
             \<lparr>buffer = [Ptr 0], head = 0, tail = 0, size_rb = 1, RingBuffer.capacity = 1\<rparr>,
           RingBufferCondPool.allocator = testAllocator, RingBufferCondPool.cleaner = testCleaner\<rparr>,
           \<lparr>RingBufferCondPool.ringBuffer =
             \<lparr>buffer = [Ptr 1], head = 0, tail = 0, size_rb = 1, RingBuffer.capacity = 1\<rparr>,
           RingBufferCondPool.allocator = testAllocator, RingBufferCondPool.cleaner = testCleaner\<rparr>]\<rparr>
      [\<lparr>ID = 0, Data = ''test'', shardIndex = - 1\<rparr>,
       \<lparr>ID = 0, Data = ''test'', shardIndex = - 1\<rparr>] =
     Inr (Ptr 1,
       \<lparr>ShardedCondBasedPool.shards =
          [\<lparr>RingBufferCondPool.ringBuffer =
             \<lparr>buffer = [Ptr 0], head = 0, tail = 0, size_rb = 1, RingBuffer.capacity = 1\<rparr>,
           RingBufferCondPool.allocator = testAllocator, RingBufferCondPool.cleaner = testCleaner\<rparr>,
           \<lparr>RingBufferCondPool.ringBuffer =
             \<lparr>buffer = [Ptr 1], head = 0, tail = 0, size_rb = 0, RingBuffer.capacity = 1\<rparr>,
           RingBufferCondPool.allocator = testAllocator,
             RingBufferCondPool.cleaner = testCleaner\<rparr>]\<rparr>,
      [\<lparr>ID = 0, Data = ''test'', shardIndex = - 1\<rparr>,
       \<lparr>ID = 0, Data = ''test'', shardIndex = 1\<rparr>]) \<and>
   NewShardedRingBufferCondPool 8 2 2 testAllocator testCleaner [] =
     Inr (\<lparr>ShardedRingBufferCondPool.shards =
          [\<lparr>RingBufferCondPool.ringBuffer =
             \<lparr>buffer = [Ptr 0], head = 0, tail = 0, size_rb = 1, RingBuffer.capacity = 1\<rparr>,
           RingBufferCondPool.allocator = testAllocator, RingBufferCondPool.cleaner = testCleaner\<rparr>,
           \<lparr>RingBufferCondPool.ringBuffer =
             \<lparr>buffer = [Ptr 1], head = 0, tail = 0, size_rb = 1, RingBuffer.capacity = 1\<rparr>,
           RingBufferCondPool.allocator = testAllocator,
             RingBufferCondPool.cleaner = testCleaner\<rparr>]\<rparr>,
      [\<lparr>ID = 0, Data = ''test'', shardIndex = - 1\<rparr>,
       \<lparr>ID = 0, Data = ''test'', shardIndex = - 1\<rparr>]) \<and>
   ShardedRingBufferCondPool_Get 1
       \<lparr>ShardedRingBufferCondPool.shards =
          [\<lparr>RingBufferCondPool.ringBuffer =
             \<lparr>buffer = [Ptr 0], head = 0, tail = 0, size_rb = 1, RingBuffer.capacity = 1\<rparr>,
           RingBufferCondPool.allocator = testAllocator, RingBufferCondPool.cleaner = testCleaner\<rparr>,
           \<lparr>RingBufferCondPool.ringBuffer =
             \<lparr>buffer = [Ptr 1], head = 0, tail = 0, size_rb = 1, RingBuffer.capacity = 1\<rparr>,
           RingBufferCondPool.allocator = testAllocator, RingBufferCondPool.cleaner = testCleaner\<rparr>]\<rparr>
      [\<lparr>ID = 0, Data = ''test'', shardIndex = - 1\<rparr>,
       \<lparr>ID = 0, Data = ''test'', shardIndex = - 1\<rparr>] =
     Inr (Ptr 1,
       \<lparr>ShardedRingBufferCondPool.shards =
          [\<lparr>RingBufferCondPool.ringBuffer =
             \<lparr>buffer = [Ptr 0], head = 0, tail = 0, size_rb = 1, RingBuffer.capacity = 1\<rparr>,
           RingBufferCondPool.allocator = testAllocator, RingBufferCondPool.cleaner = testCleaner\<rparr>,
           \<lparr>RingBufferCondPool.ringBuffer =
             \<lparr>buffer = [Ptr 1], head = 0, tail = 0, size_rb = 0, RingBuffer.capacity = 1\<rparr>,
           RingBufferCondPool.allocator = testAllocator,
             RingBufferCondPool.cleaner = testCleaner\<rparr>]\<rparr>,
      [\<lparr>ID = 0, Data = ''test'', shardIndex = - 1\<rparr>,
       \<lparr>ID = 0, Data = ''test'', shardIndex = 1\<rparr>]) \<and>
   deref
      [\<lparr>ID = 0, Data = ''test'', shardIndex = - 1\<rparr>,
       \<lparr>ID = 0, Data = ''test'', shardIndex = 1\<rparr>] (Ptr 1) =
     Inr \<lparr>ID = 0, Data = ''test'', shardIndex = 1\<rparr> \<and>
   testAllocator [] = (Ptr 0, [\<lparr>ID = 0, Data = ''test'', shardIndex = - 1\<rparr>]) \<and>
   testCleaner (Ptr 1)
      [\<lparr>ID = 0, Data = ''test'', shardIndex = - 1\<rparr>,
       \<lparr>ID = 0, Data = ''test'', shardIndex = - 1\<rparr>] =
     Inr [\<lparr>ID = 0, Data = ''test'', shardIndex = - 1\<rparr>,
       \<lparr>ID = 0, Data = [], shardIndex = - 1\<rparr>] \<and>
   deref
      [\<lparr>ID = 0, Data = ''test'', shardIndex = - 1\<rparr>,
       \<lparr>ID = 0, Data = [], shardIndex = - 1\<rparr>] (Ptr 1) =
     Inr \<lparr>ID = 0, Data = [], shardIndex = - 1\<rparr>"
  using Get_stamps_shardIndex[where pid = 1 and
    w = "[\<lparr>ID = 0, Data = ''test'', shardIndex = - 1\<rparr>, \<lparr>ID = 0, Data = ''test'',
      shardIndex = - 1\<rparr>]" and
    obj = "Ptr 1" and
    wx = "[\<lparr>ID = 0, Data = ''test'', shardIndex = - 1\<rparr>, \<lparr>ID = 0, Data = ''test'',
      shardIndex = 1\<rparr>]" and
    wc = "[\<lparr>ID = 0, Data = ''test'', shardIndex = - 1\<rparr>, \<lparr>ID = 0, Data = [], shardIndex = - 1\<rparr>]" and
    pm = "\<lparr>ShardedMutexRingBufferPool.shards = [\<lparr>MutexRingBufferPool.ringBuffer = \<lparr>buffer = [Ptr 0],
      head = 0, tail = 0, size_rb = 1, RingBuffer.capacity = 1\<rparr>,
      MutexRingBufferPool.allocator = testAllocator, MutexRingBufferPool.cleaner = testCleaner\<rparr>,
      \<lparr>MutexRingBufferPool.ringBuffer = \<lparr>buffer = [Ptr 1], head = 0, tail = 0, size_rb = 1,
      RingBuffer.capacity = 1\<rparr>, MutexRingBufferPool.allocator = testAllocator,
      MutexRingBufferPool.cleaner = testCleaner\<rparr>]\<rparr>" and
    pmx = "\<lparr>ShardedMutexRingBufferPool.shards = [\<lparr>MutexRingBufferPool.ringBuffer = \<lparr>buffer = [Ptr 0],
      head = 0, tail = 0, size_rb = 1, RingBuffer.capacity = 1\<rparr>,
      MutexRingBufferPool.allocator = testAllocator, MutexRingBufferPool.cleaner = testCleaner\<rparr>,
      \<lparr>MutexRingBufferPool.ringBuffer = \<lparr>buffer = [Ptr 1], head = 0, tail = 0, size_rb = 0,
      RingBuffer.capacity = 1\<rparr>, MutexRingBufferPool.allocator = testAllocator,
      MutexRingBufferPool.cleaner = testCleaner\<rparr>]\<rparr>" and
    pc = "\<lparr>ShardedChannelBasedPool.shards = [\<lparr>ChannelBasedPool.objects = \<lparr>queue = [Ptr 0],
      chan_cap = 1\<rparr>, ChannelBasedPool.allocator = testAllocator,
      ChannelBasedPool.cleaner = testCleaner\<rparr>, \<lparr>ChannelBasedPool.objects = \<lparr>queue = [Ptr 1],
      chan_cap = 1\<rparr>, ChannelBasedPool.allocator = testAllocator,
      ChannelBasedPool.cleaner = testCleaner\<rparr>]\<rparr>" and
    pcx = "\<lparr>ShardedChannelBasedPool.shards = [\<lparr>ChannelBasedPool.objects = \<lparr>queue = [Ptr 0],
      chan_cap = 1\<rparr>, ChannelBasedPool.allocator = testAllocator,
      ChannelBasedPool.cleaner = testCleaner\<rparr>, \<lparr>ChannelBasedPool.objects = \<lparr>queue = [],
      chan_cap = 1\<rparr>, ChannelBasedPool.allocator = testAllocator,
      ChannelBasedPool.cleaner = testCleaner\<rparr>]\<rparr>" and
    pa = "\<lparr>ShardedAtomicBasedPool.shards = [\<lparr>AtomicBasedPool.objects = [Ptr 0], index = 1,
      AtomicBasedPool.capacity = 1, AtomicBasedPool.allocator = testAllocator,
      AtomicBasedPool.cleaner = testCleaner\<rparr>, \<lparr>AtomicBasedPool.objects = [Ptr 1], index = 1,
      AtomicBasedPool.capacity = 1, AtomicBasedPool.allocator = testAllocator,
      AtomicBasedPool.cleaner = testCleaner\<rparr>]\<rparr>" and
    pax = "\<lparr>ShardedAtomicBasedPool.shards = [\<lparr>AtomicBasedPool.objects = [Ptr 0], index = 1,
      AtomicBasedPool.capacity = 1, AtomicBasedPool.allocator = testAllocator,
      AtomicBasedPool.cleaner = testCleaner\<rparr>, \<lparr>AtomicBasedPool.objects = [Ptr 1], index = 0,
      AtomicBasedPool.capacity = 1, AtomicBasedPool.allocator = testAllocator,
      AtomicBasedPool.cleaner = testCleaner\<rparr>]\<rparr>" and
    pd = "\<lparr>ShardedCondBasedPool.shards = [\<lparr>RingBufferCondPool.ringBuffer = \<lparr>buffer = [Ptr 0],
      head = 0, tail = 0, size_rb = 1, RingBuffer.capacity = 1\<rparr>,
      RingBufferCondPool.allocator = testAllocator, RingBufferCondPool.cleaner = testCleaner\<rparr>,
      \<lparr>RingBufferCondPool.ringBuffer = \<lparr>buffer = [Ptr 1], head = 0, tail = 0, size_rb = 1,
      RingBuffer.capacity = 1\<rparr>, RingBufferCondPool.allocator = testAllocator,
      RingBufferCondPool.cleaner = testCleaner\<rparr>]\<rparr>" and
    pdx = "\<lparr>ShardedCondBasedPool.shards = [\<lparr>RingBufferCondPool.ringBuffer = \<lparr>buffer = [Ptr 0],
      head = 0, tail = 0, size_rb = 1, RingBuffer.capacity = 1\<rparr>,
      RingBufferCondPool.allocator = testAllocator, RingBufferCondPool.cleaner = testCleaner\<rparr>,
      \<lparr>RingBufferCondPool.ringBuffer = \<lparr>buffer = [Ptr 1], head = 0, tail = 0, size_rb = 0,
      RingBuffer.capacity = 1\<rparr>, RingBufferCondPool.allocator = testAllocator,
      RingBufferCondPool.cleaner = testCleaner\<rparr>]\<rparr>" and
    pq = "\<lparr>ShardedRingBufferCondPool.shards = [\<lparr>RingBufferCondPool.ringBuffer = \<lparr>buffer = [Ptr 0],
      head = 0, tail = 0, size_rb = 1, RingBuffer.capacity = 1\<rparr>,
      RingBufferCondPool.allocator = testAllocator, RingBufferCondPool.cleaner = testCleaner\<rparr>,
      \<lparr>RingBufferCondPool.ringBuffer = \<lparr>buffer = [Ptr 1], head = 0, tail = 0, size_rb = 1,
      RingBuffer.capacity = 1\<rparr>, RingBufferCondPool.allocator = testAllocator,
      RingBufferCondPool.cleaner = testCleaner\<rparr>]\<rparr>" and
    pqx = "\<lparr>ShardedRingBufferCondPool.shards = [\<lparr>RingBufferCondPool.ringBuffer = \<lparr>buffer = [Ptr 0],
      head = 0, tail = 0, size_rb = 1, RingBuffer.capacity = 1\<rparr>,
      RingBufferCondPool.allocator = testAllocator, RingBufferCondPool.cleaner = testCleaner\<rparr>,
      \<lparr>RingBufferCondPool.ringBuffer = \<lparr>buffer = [Ptr 1], head = 0, tail = 0, size_rb = 0,
      RingBuffer.capacity = 1\<rparr>, RingBufferCondPool.allocator = testAllocator,
      RingBufferCondPool.cleaner = testCleaner\<rparr>]\<rparr>"]
  by (simp add: eval_defs eval_sharded_defs numeral_2_eq_2)

section \<open>Claims about Put with an index that is not a shard\<close>

text \<open>
  Claim C1, on the code. Each pool is constructed with two segments; the object put is
  one that \<^verbatim>\<open>testAllocator\<close> has just returned, so its \<^verbatim>\<open>shardIndex\<close> is \<open>-1\<close>.
  \<^verbatim>\<open>Put\<close> of \<^verbatim>\<open>ShardedAtomicBasedPool\<close>, \<^verbatim>\<open>ShardedMutexRingBufferPool\<close>,
  \<^verbatim>\<open>ShardedCondBasedPool\<close> and \<^verbatim>\<open>ShardedRingBufferCondPool\<close> indexes the slice of
  segments with \<open>-1\<close> and panics. \<^verbatim>\<open>Put\<close> of \<^verbatim>\<open>ShardedChannelBasedPool\<close> checks the
  index first and returns with the pool and the heap unchanged.
\<close>

theorem Put_unassigned_index_panics:
  "testAllocator
      [\<lparr>ID = 0, Data = ''test'', shardIndex = - 1\<rparr>,
       \<lparr>ID = 0, Data = ''test'', shardIndex = - 1\<rparr>] =
     (Ptr 2,
      [\<lparr>ID = 0, Data = ''test'', shardIndex = - 1\<rparr>,
       \<lparr>ID = 0, Data = ''test'', shardIndex = - 1\<rparr>,
       \<lparr>ID = 0, Data = ''test'', shardIndex = - 1\<rparr>]) \<and>
   NewShardedAtomicBasedPool 8 2 2 testAllocator testCleaner [] =
     Inr (\<lparr>ShardedAtomicBasedPool.shards =
          [\<lparr>AtomicBasedPool.objects = [Ptr 0], index = 1, AtomicBasedPool.capacity = 1,
           AtomicBasedPool.allocator = testAllocator, AtomicBasedPool.cleaner = testCleaner\<rparr>,
           \<lparr>AtomicBasedPool.objects = [Ptr 1], index = 1, AtomicBasedPool.capacity = 1,
           AtomicBasedPool.allocator = testAllocator, AtomicBasedPool.cleaner = testCleaner\<rparr>]\<rparr>,
      [\<lparr>ID = 0, Data = ''test'', shardIndex = - 1\<rparr>,
       \<lparr>ID = 0, Data = ''test'', shardIndex = - 1\<rparr>]) \<and>
   ShardedAtomicBasedPool_Put
       \<lparr>ShardedAtomicBasedPool.shards =
          [\<lparr>AtomicBasedPool.objects = [Ptr 0], index = 1, AtomicBasedPool.capacity = 1,
           AtomicBasedPool.allocator = testAllocator, AtomicBasedPool.cleaner = testCleaner\<rparr>,
           \<lparr>AtomicBasedPool.objects = [Ptr 1], index = 1, AtomicBasedPool.capacity = 1,
           AtomicBasedPool.allocator = testAllocator,
             AtomicBasedPool.cleaner = testCleaner\<rparr>]\<rparr> (Ptr 2)
      [\<lparr>ID = 0, Data = ''test'', shardIndex = - 1\<rparr>,
       \<lparr>ID = 0, Data = ''test'', shardIndex = - 1\<rparr>,
       \<lparr>ID = 0, Data = ''test'', shardIndex = - 1\<rparr>] = Inl IndexOutOfRange \<and>
   NewShardedMutexRingBufferPool 8 2 2 testAllocator testCleaner [] =
     Inr (\<lparr>ShardedMutexRingBufferPool.shards =
          [\<lparr>MutexRingBufferPool.ringBuffer =
             \<lparr>buffer = [Ptr 0], head = 0, tail = 0, size_rb = 1, RingBuffer.capacity = 1\<rparr>,
           MutexRingBufferPool.allocator = testAllocator,
             MutexRingBufferPool.cleaner = testCleaner\<rparr>,
           \<lparr>MutexRingBufferPool.ringBuffer =
             \<lparr>buffer = [Ptr 1], head = 0, tail = 0, size_rb = 1, RingBuffer.capacity = 1\<rparr>,
           MutexRingBufferPool.allocator = testAllocator,
             MutexRingBufferPool.cleaner = testCleaner\<rparr>]\<rparr>,
      [\<lparr>ID = 0, Data = ''test'', shardIndex = - 1\<rparr>,
       \<lparr>ID = 0, Data = ''test'', shardIndex = - 1\<rparr>]) \<and>
   ShardedMutexRingBufferPool_Put
       \<lparr>ShardedMutexRingBufferPool.shards =
          [\<lparr>MutexRingBufferPool.ringBuffer =
             \<lparr>buffer = [Ptr 0], head = 0, tail = 0, size_rb = 1, RingBuffer.capacity = 1\<rparr>,
           MutexRingBufferPool.allocator = testAllocator,
             MutexRingBufferPool.cleaner = testCleaner\<rparr>,
           \<lparr>MutexRingBufferPool.ringBuffer =
             \<lparr>buffer = [Ptr 1], head = 0, tail = 0, size_rb = 1, RingBuffer.capacity = 1\<rparr>,
           MutexRingBufferPool.allocator = testAllocator,
             MutexRingBufferPool.cleaner = testCleaner\<rparr>]\<rparr> (Ptr 2)
      [\<lparr>ID = 0, Data = ''test'', shardIndex = - 1\<rparr>,
       \<lparr>ID = 0, Data = ''test'', shardIndex = - 1\<rparr>,
       \<lparr>ID = 0, Data = ''test'', shardIndex = - 1\<rparr>] = Inl IndexOutOfRange \<and>
   NewShardedCondBasedPool 8 2 2 testAllocator testCleaner [] =
     Inr (\<lparr>ShardedCondBasedPool.shards =
          [\<lparr>RingBufferCondPool.ringBuffer =
             \<lparr>buffer = [Ptr 0], head = 0, tail = 0, size_rb = 1, RingBuffer.capacity = 1\<rparr>,
           RingBufferCondPool.allocator = testAllocator, RingBufferCondPool.cleaner = testCleaner\<rparr>,
           \<lparr>RingBufferCondPool.ringBuffer =
             \<lparr>buffer = [Ptr 1], head = 0, tail = 0, size_rb = 1, RingBuffer.capacity = 1\<rparr>,
           RingBufferCondPool.allocator = testAllocator,
             RingBufferCondPool.cleaner = testCleaner\<rparr>]\<rparr>,
      [\<lparr>ID = 0, Data = ''test'', shardIndex = - 1\<rparr>,
       \<lparr>ID = 0, Data = ''test'', shardIndex = - 1\<rparr>]) \<and>
   ShardedCondBasedPool_Put
       \<lparr>ShardedCondBasedPool.shards =
          [\<lparr>RingBufferCondPool.ringBuffer =
             \<lparr>buffer = [Ptr 0], head = 0, tail = 0, size_rb = 1, RingBuffer.capacity = 1\<rparr>,
           RingBufferCondPool.allocator = testAllocator, RingBufferCondPool.cleaner = testCleaner\<rparr>,
           \<lparr>RingBufferCondPool.ringBuffer =
             \<lparr>buffer = [Ptr 1], head = 0, tail = 0, size_rb = 1, RingBuffer.capacity = 1\<rparr>,
           RingBufferCondPool.allocator = testAllocator,
             RingBufferCondPool.cleaner = testCleaner\<rparr>]\<rparr> (Ptr 2)
      [\<lparr>ID = 0, Data = ''test'', shardIndex = - 1\<rparr>,
       \<lparr>ID = 0, Data = ''test'', shardIndex = - 1\<rparr>,
       \<lparr>ID = 0, Data = ''test'', shardIndex = - 1\<rparr>] = Inl IndexOutOfRange \<and>
   NewShardedRingBufferCondPool 8 2 2 testAllocator testCleaner [] =
     Inr (\<lparr>ShardedRingBufferCondPool.shards =
          [\<lparr>RingBufferCondPool.ringBuffer =
             \<lparr>buffer = [Ptr 0], head = 0, tail = 0, size_rb = 1, RingBuffer.capacity = 1\<rparr>,
           RingBufferCondPool.allocator = testAllocator, RingBufferCondPool.cleaner = testCleaner\<rparr>,
           \<lparr>RingBufferCondPool.ringBuffer =
             \<lparr>buffer = [Ptr 1], head = 0, tail = 0, size_rb = 1, RingBuffer.capacity = 1\<rparr>,
           RingBufferCondPool.allocator = testAllocator,
             RingBufferCondPool.cleaner = testCleaner\<rparr>]\<rparr>,
      [\<lparr>ID = 0, Data = ''test'', shardIndex = - 1\<rparr>,
       \<lparr>ID = 0, Data = ''test'', shardIndex = - 1\<rparr>]) \<and>
   ShardedRingBufferCondPool_Put
       \<lparr>ShardedRingBufferCondPool.shards =
          [\<lparr>RingBufferCondPool.ringBuffer =
             \<lparr>buffer = [Ptr 0], head = 0, tail = 0, size_rb = 1, RingBuffer.capacity = 1\<rparr>,
           RingBufferCondPool.allocator = testAllocator, RingBufferCondPool.cleaner = testCleaner\<rparr>,
           \<lparr>RingBufferCondPool.ringBuffer =
             \<lparr>buffer = [Ptr 1], head = 0, tail = 0, size_rb = 1, RingBuffer.capacity = 1\<rparr>,
           RingBufferCondPool.allocator = testAllocator,
             RingBufferCondPool.cleaner = testCleaner\<rparr>]\<rparr> (Ptr 2)
      [\<lparr>ID = 0, Data = ''test'', shardIndex = - 1\<rparr>,
       \<lparr>ID = 0, Data = ''test'', shardIndex = - 1\<rparr>,
       \<lparr>ID = 0, Data = ''test'', shardIndex = - 1\<rparr>] = Inl IndexOutOfRange \<and>
   NewShardedChannelBasedPool 8 2 2 testAllocator testCleaner [] =
     Inr (\<lparr>ShardedChannelBasedPool.shards =
          [\<lparr>ChannelBasedPool.objects = \<lparr>queue = [Ptr 0], chan_cap = 1\<rparr>,
           ChannelBasedPool.allocator = testAllocator, ChannelBasedPool.cleaner = testCleaner\<rparr>,
           \<lparr>ChannelBasedPool.objects = \<lparr>queue = [Ptr 1], chan_cap = 1\<rparr>,
           ChannelBasedPool.allocator = testAllocator, ChannelBasedPool.cleaner = testCleaner\<rparr>]\<rparr>,
      [\<lparr>ID = 0, Data = ''test'', shardIndex = - 1\<rparr>,
       \<lparr>ID = 0, Data = ''test'', shardIndex = - 1\<rparr>]) \<and>
   ShardedChannelBasedPool_Put
       \<lparr>ShardedChannelBasedPool.shards =
          [\<lparr>ChannelBasedPool.objects = \<lparr>queue = [Ptr 0], chan_cap = 1\<rparr>,
           ChannelBasedPool.allocator = testAllocator, ChannelBasedPool.cleaner = testCleaner\<rparr>,
           \<lparr>ChannelBasedPool.objects = \<lparr>queue = [Ptr 1], chan_cap = 1\<rparr>,
           ChannelBasedPool.allocator = testAllocator,
             ChannelBasedPool.cleaner = testCleaner\<rparr>]\<rparr> (Ptr 2)
      [\<lparr>ID = 0, Data = ''test'', shardIndex = - 1\<rparr>,
       \<lparr>ID = 0, Data = ''test'', shardIndex = - 1\<rparr>,
       \<lparr>ID = 0, Data = ''test'', shardIndex = - 1\<rparr>] =
     Inr (\<lparr>ShardedChannelBasedPool.shards =
          [\<lparr>ChannelBasedPool.objects = \<lparr>queue = [Ptr 0], chan_cap = 1\<rparr>,
           ChannelBasedPool.allocator = testAllocator, ChannelBasedPool.cleaner = testCleaner\<rparr>,
           \<lparr>ChannelBasedPool.objects = \<lparr>queue = [Ptr 1], chan_cap = 1\<rparr>,
           ChannelBasedPool.allocator = testAllocator, ChannelBasedPool.cleaner = testCleaner\<rparr>]\<rparr>,
      [\<lparr>ID = 0, Data = ''test'', shardIndex = - 1\<rparr>,
       \<lparr>ID = 0, Data = ''test'', shardIndex = - 1\<rparr>,
       \<lparr>ID = 0, Data = ''test'', shardIndex = - 1\<rparr>])"
  by (simp add: eval_defs eval_sharded_defs numeral_2_eq_2)

end
